theory Spec2Isabelle
  imports Main "HOL-Library.Char_ord" "HOL-Library.List_Lexorder" "HOL-Library.AList"
begin

section \<open>Python strings and paths\<close>

text \<open>
  The loader is IronPython 2 code: \<open>str\<close> is a byte string, modelled as \<open>string\<close>.
  Only the string operations the loader calls are modelled, each after the behaviour of
  the Python 2 built-in of the same name.
\<close>

datatype error =
    UnknownFileNameFormat
  | UnknownAssembly
  | ValueError
  | KeyError
  | IndexError
  | AttributeError
  | TypeError
  | RevitException
  | IOError
  | NotSupportedException
  | PyRevitCacheReadError
  | PyRevitCacheWriteError
  | PyRevitCacheExpiredError
  | PyRevitCacheError

definition upper_letters :: string where
  "upper_letters = ''ABCDEFGHIJKLMNOPQRSTUVWXYZ''"

definition lower_letters :: string where
  "lower_letters = ''abcdefghijklmnopqrstuvwxyz''"

definition lower_char :: "char \<Rightarrow> char" where
  "lower_char c = (case map_of (zip upper_letters lower_letters) c of Some d \<Rightarrow> d | None \<Rightarrow> c)"

definition lower :: "string \<Rightarrow> string" where
  "lower s = map lower_char s"

definition digit_chars :: string where
  "digit_chars = ''0123456789''"

definition digit_val :: "char \<Rightarrow> int" where
  "digit_val c = (case map_of (zip digit_chars [0, 1, 2, 3, 4, 5, 6, 7, 8, 9]) c of
                    Some d \<Rightarrow> d | None \<Rightarrow> 0)"

text \<open>\<open>str.isdigit\<close>: at least one character, and every character a decimal digit.\<close>

definition isdigit :: "string \<Rightarrow> bool" where
  "isdigit s = (s \<noteq> [] \<and> list_all (\<lambda>c. c \<in> set digit_chars) s)"

text \<open>
  \<open>int(s)\<close> on a string. The loader calls it only on a slice of a token that passed
  \<open>isdigit\<close>, so the argument is a run of digits or empty; the empty string (and
  anything that is not a run of digits) raises \<open>ValueError\<close>.
\<close>

definition py_int :: "string \<Rightarrow> error + int" where
  "py_int s = (if isdigit s then Inr (foldl (\<lambda>a c. 10 * a + digit_val c) 0 s) else Inl ValueError)"

definition startswith :: "string \<Rightarrow> string \<Rightarrow> bool" where
  "startswith s p = (take (length p) s = p)"

definition endswith :: "string \<Rightarrow> string \<Rightarrow> bool" where
  "endswith s p = (length p \<le> length s \<and> drop (length s - length p) s = p)"

text \<open>\<open>p in s\<close> on strings: \<open>p\<close> occurs in \<open>s\<close> as a substring.\<close>

fun contains :: "string \<Rightarrow> string \<Rightarrow> bool" where
  "contains [] p = (p = [])"
| "contains (c # cs) p = (startswith (c # cs) p \<or> contains cs p)"

text \<open>\<open>s.rsplit(d)\<close> with no limit gives the same pieces as \<open>s.split(d)\<close>.\<close>

fun rsplit :: "string \<Rightarrow> char \<Rightarrow> string list" where
  "rsplit [] d = [[]]"
| "rsplit (c # cs) d =
     (if c = d then [] # rsplit cs d
      else (case rsplit cs d of [] \<Rightarrow> [[c]] | p # ps \<Rightarrow> (c # p) # ps))"

text \<open>\<open>s.replace(old, new)\<close>: every occurrence, left to right, without overlap.\<close>

function replace :: "string \<Rightarrow> string \<Rightarrow> string \<Rightarrow> string" where
  "replace s old new =
     (if old = [] \<or> s = [] then s
      else if startswith s old then new @ replace (drop (length old) s) old new
      else hd s # replace (tl s) old new)"
  by pat_completeness auto
termination
  by (relation "measure (\<lambda>(s, old, new). length s)") auto

text \<open>\<open>s.rfind(c)\<close> for one character: the last index of \<open>c\<close>, and \<open>-1\<close> when absent.\<close>

definition rfind :: "string \<Rightarrow> char \<Rightarrow> int" where
  "rfind s c = (case filter (\<lambda>i. s ! i = c) [0..<length s] of
                  [] \<Rightarrow> -1 | i # is \<Rightarrow> int (last (i # is)))"

definition backslash :: char where
  "backslash = CHR 0x5C"

text \<open>
  \<open>os.path\<close> is \<open>ntpath\<close> (the loader runs inside Revit, on Windows): both slashes
  separate components; \<open>splitext\<close> splits at the last dot of the last component, unless
  that component consists of leading dots only up to it.
\<close>

definition basename :: "string \<Rightarrow> string" where
  "basename p =
     (let q = (if take 1 (drop 1 p) = '':'' then drop 2 p else p)
      in drop (nat (max (rfind q backslash) (rfind q CHR ''/'') + 1)) q)"

definition splitext :: "string \<Rightarrow> string \<times> string" where
  "splitext p =
     (let sepIndex = max (rfind p backslash) (rfind p CHR ''/'');
          dotIndex = rfind p CHR ''.''
      in if dotIndex > sepIndex
            \<and> list_ex (\<lambda>i. p ! i \<noteq> CHR ''.'') [nat (sepIndex + 1)..<nat dotIndex]
         then (take (nat dotIndex) p, drop (nat dotIndex) p)
         else (p, []))"

definition join :: "string \<Rightarrow> string \<Rightarrow> string" where
  "join d f = d @ [backslash] @ f"

section \<open>Session settings\<close>

text \<open>The constants of \<open>PyRevitUISettings\<close> that discovery and the ribbon pass read.\<close>

definition tabPostfix :: string where "tabPostfix = ''.tab''"
definition panelBundlePostfix :: string where "panelBundlePostfix = ''.panel''"
definition iconFileFormat :: string where "iconFileFormat = ''.png''"
definition linkButtonTypeName :: string where "linkButtonTypeName = ''PushButton''"
definition pushButtonTypeName :: string where "pushButtonTypeName = ''PushButton''"
definition smartButtonTypeName :: string where "smartButtonTypeName = ''SmartButton''"
definition pulldownButtonTypeName :: string where "pulldownButtonTypeName = ''PulldownButton''"
definition stackedThreeTypeName :: string where "stackedThreeTypeName = ''Stack3''"
definition stackedTwoTypeName :: string where "stackedTwoTypeName = ''Stack2''"
definition splitButtonTypeName :: string where "splitButtonTypeName = ''SplitButton''"
definition splitPushButtonTypeName :: string where "splitPushButtonTypeName = ''SplitPushButton''"
definition pyRevitInitScriptName :: string where "pyRevitInitScriptName = ''__init__''"
definition reloadScriptsOverrideGroupName :: string where "reloadScriptsOverrideGroupName = ''pyRevit''"
definition reloadScriptsOverrideName :: string where "reloadScriptsOverrideName = ''reloadScripts''"
definition masterTabName :: string where "masterTabName = ''master''"

text \<open>
  \<open>specialcharacters\<close> is a Python dict; \<open>ScriptCommand\<close> applies its entries one
  after the other in the dict's iteration order, which Python 2 leaves to the
  implementation. The model applies them in the order the source lists them.
\<close>

definition specialcharacters :: "(string \<times> string) list" where
  "specialcharacters =
     [('' '', ''''), (''~'', ''''), (''!'', ''EXCLAM''), (''@'', ''AT''), (''#'', ''NUM''),
      (''$'', ''DOLLAR''), (''%'', ''PERCENT''), (''^'', ''''), (''&'', ''AND''),
      (''*'', ''STAR''), ([backslash, CHR ''(''], ''''), ([backslash, CHR '')''], ''''),
      (''+'', ''PLUS''), ('';'', ''''), ('':'', ''''), ('','', ''''), ([CHR 0x22], ''''),
      (''{'', ''''), (''}'', ''''), (''['', ''''), ('']'', ''''), (''-'', ''MINUS''),
      (''='', ''EQUALS''), (''<'', ''''), (''>'', ''''), (''?'', ''QMARK''), (''.'', ''DOT''),
      ([backslash, CHR ''/''], ''''), ([backslash], '''')]"

section \<open>The tree: commands, groups, panels, tabs\<close>

text \<open>
  The classes of the loader as records. A field keeps its source name behind the
  record's letter (\<open>c_\<close>, \<open>g_\<close>, \<open>p_\<close>, \<open>t_\<close>), since several classes have a field
  of the same name. \<open>buttonIcons\<close> holds decoded bitmaps in the source; the model keeps
  only whether the field is set. The tooltip of a command is text taken from the script
  body by \<open>ScriptFileContents\<close>; no decision of the loader depends on it and it is left
  out of the record.
\<close>

record ScriptCommand =
  c_filePath :: string
  c_fileName :: string
  c_cmdName :: string
  c_scriptGroupName :: string
  c_className :: string
  c_iconFileName :: "string option"
  c_buttonIcons :: bool
  c_tabName :: string

record ScriptGroup =
  g_commands :: "ScriptCommand list"
  g_sourceDir :: string
  g_sourceFile :: string
  g_sourceFileName :: string
  g_sourceFileExt :: string
  g_groupOrder :: int
  g_panelName :: string
  g_groupType :: "string option"
  g_groupName :: string
  g_buttonIcons :: bool
  g_assemblyName :: "string option"
  g_assemblyClassName :: "string option"
  g_assemblyLocation :: "string option"
  g_tabName :: string

record ScriptPanel =
  p_panelOrder :: int
  p_panelName :: string
  p_scriptGroups :: "ScriptGroup list"
  p_tabName :: string
  p_tabDir :: string
  p_isBundled :: bool

text \<open>An assembly loaded in the host's application domain, as \<open>findassembly\<close> reads it.\<close>

record Assembly =
  a_FullName :: string
  a_Name :: string
  a_Location :: string

text \<open>
  The file system as the constructors see it: \<open>os.path.exists\<close>, whether \<open>open\<close>
  for reading succeeds (it raises \<open>IOError\<close> otherwise), and whether the host decodes
  the image at a path (\<open>BitmapImage.EndInit\<close> raises otherwise; the exception is the
  host's, named here after the one it raises on a file that is not an image).
\<close>

record files =
  fs_exists :: "string \<Rightarrow> bool"
  fs_opens :: "string \<Rightarrow> bool"
  fs_decodes :: "string \<Rightarrow> bool"

section \<open>Identifier decoding\<close>

text \<open>
  \<open>ButtonIcons.__init__\<close>: the three bitmaps are decoded from the one file. The
  bitmaps are never read by the loader; what is kept is that the icons were made.
\<close>

definition ButtonIcons_init :: "files \<Rightarrow> string \<Rightarrow> string \<Rightarrow> error + bool" where
  "ButtonIcons_init fs filedir filename =
     (if fs_decodes fs (join filedir filename) then Inr True else Inl NotSupportedException)"

text \<open>\<open>ScriptFileContents.__init__\<close>: the script is opened and its lines are read.\<close>

definition ScriptFileContents_init :: "files \<Rightarrow> string \<Rightarrow> error + unit" where
  "ScriptFileContents_init fs fileaddress =
     (if fs_opens fs fileaddress then Inr () else Inl IOError)"

fun findassembly :: "Assembly list \<Rightarrow> string \<Rightarrow> error + Assembly" where
  "findassembly [] assemblyname = Inl UnknownAssembly"
| "findassembly (loadedAssembly # rest) assemblyname =
     (if contains (a_FullName loadedAssembly) assemblyname then Inr loadedAssembly
      else findassembly rest assemblyname)"

definition group_isdescriptorfile :: "string \<Rightarrow> string \<Rightarrow> bool" where
  "group_isdescriptorfile fname fext = (iconFileFormat = lower fext \<and> isdigit (take 2 fname))"

definition panel_isdescriptorfile :: "string \<Rightarrow> string \<Rightarrow> bool" where
  "panel_isdescriptorfile fname fext = (iconFileFormat = lower fext \<and> isdigit (take 3 fname))"

text \<open>
  \<open>ScriptGroup.__init__\<close>. The constructor either returns the group or raises; a raise
  is \<open>Inl\<close>. With a digit first token and a token count other than 3, 4 or 6 no branch
  runs and the group is returned as initialised (no type, empty name, order 0).
\<close>

definition ScriptGroup_init ::
  "files \<Rightarrow> Assembly list \<Rightarrow> string \<Rightarrow> string \<Rightarrow> string \<Rightarrow> string
     \<Rightarrow> error + ScriptGroup" where
  "ScriptGroup_init fs loaded filedir f tabname bundledPanelName =
     (let self = \<lparr>g_commands = [], g_sourceDir = [], g_sourceFile = [], g_sourceFileName = [],
                   g_sourceFileExt = iconFileFormat, g_groupOrder = 0,
                   g_panelName = bundledPanelName, g_groupType = None, g_groupName = [],
                   g_buttonIcons = False, g_assemblyName = None, g_assemblyClassName = None,
                   g_assemblyLocation = None, g_tabName = tabname\<rparr>;
          fname = fst (splitext (basename f));
          fext = snd (splitext (basename f))
      in if group_isdescriptorfile fname fext then
           (let self = self\<lparr>g_sourceDir := filedir, g_sourceFile := f,
                              g_sourceFileName := fname, g_sourceFileExt := fext\<rparr>;
                namepieces = rsplit fname CHR ''_'';
                namepieceslength = length namepieces
            in if isdigit (namepieces ! 0) then
                 (case
                    (if namepieceslength = 4 \<or> namepieceslength = 6 then
                       (case py_int (drop 2 (namepieces ! 0)) of
                          Inl e \<Rightarrow> Inl e
                        | Inr order \<Rightarrow>
                            (case ButtonIcons_init fs filedir f of
                               Inl e \<Rightarrow> Inl e
                             | Inr icons \<Rightarrow>
                                 Inr (self\<lparr>g_groupOrder := order, g_panelName := namepieces ! 1,
                                            g_groupType := Some (namepieces ! 2),
                                            g_groupName := namepieces ! 3,
                                            g_buttonIcons := icons\<rparr>)))
                     else if namepieceslength = 3 then
                       (case py_int (namepieces ! 0) of
                          Inl e \<Rightarrow> Inl e
                        | Inr order \<Rightarrow>
                            (case ButtonIcons_init fs filedir f of
                               Inl e \<Rightarrow> Inl e
                             | Inr icons \<Rightarrow>
                                 Inr (self\<lparr>g_groupOrder := order,
                                            g_groupType := Some (namepieces ! 1),
                                            g_groupName := namepieces ! 2,
                                            g_buttonIcons := icons\<rparr>)))
                     else Inr self)
                  of
                    Inl e \<Rightarrow> Inl e
                  | Inr self \<Rightarrow>
                      if namepieceslength = 6 then
                        (case findassembly loaded (namepieces ! 4) of
                           Inl e \<Rightarrow> Inl e
                         | Inr asm1 \<Rightarrow>
                             (case findassembly loaded (a_Name asm1) of
                                Inl e \<Rightarrow> Inl e
                              | Inr asm2 \<Rightarrow>
                                  Inr (self\<lparr>g_assemblyName := Some (a_Name asm1),
                                             g_assemblyClassName := Some (namepieces ! 5),
                                             g_assemblyLocation := Some (a_Location asm2)\<rparr>)))
                      else Inr self)
               else Inr self)
         else Inl UnknownFileNameFormat)"

text \<open>\<open>ScriptPanel.__init__\<close>.\<close>

definition ScriptPanel_init :: "string \<Rightarrow> string \<Rightarrow> string \<Rightarrow> bool \<Rightarrow> error + ScriptPanel" where
  "ScriptPanel_init tabdir fullpanelfilename tabname bundledpanel =
     (let self = \<lparr>p_panelOrder = 0, p_panelName = [], p_scriptGroups = [], p_tabName = tabname,
                   p_tabDir = tabdir, p_isBundled = bundledpanel\<rparr>
      in if bundledpanel then
           Inr (self\<lparr>p_panelName := replace fullpanelfilename panelBundlePostfix []\<rparr>)
         else
           (let fname = fst (splitext (basename fullpanelfilename));
                fext = snd (splitext (basename fullpanelfilename))
            in if panel_isdescriptorfile fname fext then
                 (let namepieces = rsplit fname CHR ''_'';
                      namepieceslength = length namepieces
                  in if namepieceslength = 4 \<or> namepieceslength = 6 then
                       (case py_int (take 2 (namepieces ! 0)) of
                          Inl e \<Rightarrow> Inl e
                        | Inr order \<Rightarrow>
                            Inr (self\<lparr>p_panelOrder := order, p_panelName := namepieces ! 1\<rparr>))
                     else Inl UnknownFileNameFormat)
               else Inl UnknownFileNameFormat))"

text \<open>
  \<open>ScriptCommand.__init__\<close>. The name a command is decoded from is the file's base
  name, except for the loader's own init script under the master tab, which is renamed.
  After the name is decoded the icon beside the script, if there is one, is decoded,
  and then the script itself is opened for its tool tip and author (the two texts are
  written to the ribbon and never read, and are left out).
\<close>

definition command_fname :: "string \<Rightarrow> string \<Rightarrow> string" where
  "command_fname f tabname =
     (let fname = fst (splitext (basename f))
      in if contains (lower fname) (lower pyRevitInitScriptName) \<and> tabname = masterTabName
         then reloadScriptsOverrideGroupName @ ''_'' @ reloadScriptsOverrideName
         else fname)"

definition make_className :: "string \<Rightarrow> string" where
  "make_className s = foldl (\<lambda>acc (char, repl). replace acc char repl) s specialcharacters"

definition ScriptCommand_init ::
  "files \<Rightarrow> string \<Rightarrow> string \<Rightarrow> string \<Rightarrow> error + ScriptCommand" where
  "ScriptCommand_init fs filedir f tabname =
     (let fext = snd (splitext (basename f));
          fname = command_fname f tabname
      in if \<not> startswith fname ''_'' \<and> ''.py'' = lower fext then
           (let namepieces = rsplit fname CHR ''_''
            in if length namepieces = 2 then
                 (let self = \<lparr>c_filePath = filedir, c_fileName = f, c_cmdName = namepieces ! 1,
                               c_scriptGroupName = namepieces ! 0,
                               c_className =
                                 make_className (tabname @ namepieces ! 0 @ namepieces ! 1),
                               c_iconFileName = None, c_buttonIcons = False,
                               c_tabName = tabname\<rparr>
                  in case (if fs_exists fs (join filedir (fname @ iconFileFormat)) then
                             (case ButtonIcons_init fs filedir (fname @ iconFileFormat) of
                                Inl e \<Rightarrow> Inl e
                              | Inr icons \<Rightarrow>
                                  Inr (self\<lparr>c_iconFileName := Some (fname @ iconFileFormat),
                                             c_buttonIcons := icons\<rparr>))
                           else Inr self) of
                       Inl e \<Rightarrow> Inl e
                     | Inr self \<Rightarrow>
                         (case ScriptFileContents_init fs (join (c_filePath self) (c_fileName self)) of
                            Inl e \<Rightarrow> Inl e
                          | Inr scriptContents \<Rightarrow> Inr self))
               else Inl UnknownFileNameFormat)
         else Inl UnknownFileNameFormat)"

section \<open>The content hash cache\<close>

text \<open>
  A directory tree as the loader sees it: a file or a directory has a name and a
  modification time (\<open>os.path.getmtime\<close>); a directory lists its entries in the order
  \<open>os.listdir\<close> gives them. Modification times are floats in the source; the model
  counts them in whole ticks of the clock, so the rounding of float addition and of
  \<open>str\<close> on a float is outside it.
\<close>

datatype fsnode = File string int | Dir string int "fsnode list"

fun files_of :: "fsnode list \<Rightarrow> (string \<times> int) list" where
  "files_of [] = []"
| "files_of (File n m # es) = (n, m) # files_of es"
| "files_of (Dir n m sub # es) = files_of es"

text \<open>
  \<open>os.walk(top)\<close>, top down: the directory itself, then each subdirectory in listing
  order. An element is the \<open>root\<close> path, the modification time of \<open>root\<close>, and the
  files of \<open>root\<close>, each with its modification time.
\<close>

fun walk :: "string \<Rightarrow> int \<Rightarrow> fsnode list \<Rightarrow> (string \<times> int \<times> (string \<times> int) list) list"
  and walk_dirs :: "string \<Rightarrow> fsnode list \<Rightarrow> (string \<times> int \<times> (string \<times> int) list) list" where
  "walk root mtime entries = (root, mtime, files_of entries) # walk_dirs root entries"
| "walk_dirs root [] = []"
| "walk_dirs root (File n m # es) = walk_dirs root es"
| "walk_dirs root (Dir n m sub # es) = walk (join root n) m sub @ walk_dirs root es"

text \<open>
  \<open>re.search(pat, root, flags=re.IGNORECASE)\<close> with \<open>pat = (\.panel)|(\.tab)\<close>, and
  \<open>re.search(patfile, filename, flags=re.IGNORECASE)\<close> with \<open>patfile = (\.py)\<close>: the
  text occurs somewhere in the string, in any letter case.
\<close>

definition pat_search :: "string \<Rightarrow> bool" where
  "pat_search root = (contains (lower root) ''.panel'' \<or> contains (lower root) ''.tab'')"

definition patfile_search :: "string \<Rightarrow> bool" where
  "patfile_search filename = contains (lower filename) ''.py''"

text \<open>The two loops of \<open>calculate_hash\<close>, with \<open>mtime_sum\<close> as the accumulator.\<close>

fun files_loop :: "int \<Rightarrow> (string \<times> int) list \<Rightarrow> int" where
  "files_loop mtime_sum [] = mtime_sum"
| "files_loop mtime_sum ((filename, modtime) # files) =
     files_loop (if patfile_search filename then mtime_sum + modtime else mtime_sum) files"

fun walk_loop :: "int \<Rightarrow> (string \<times> int \<times> (string \<times> int) list) list \<Rightarrow> int" where
  "walk_loop mtime_sum [] = mtime_sum"
| "walk_loop mtime_sum ((root, mtime, files) # rest) =
     walk_loop (if pat_search root then files_loop (mtime_sum + mtime) files else mtime_sum) rest"

definition mtime_sum_of :: "string \<Rightarrow> int \<Rightarrow> fsnode list \<Rightarrow> int" where
  "mtime_sum_of tabFolder mtime entries = walk_loop 0 (walk tabFolder mtime entries)"

text \<open>
  \<open>calculate_hash\<close>; \<open>md5_hexdigest\<close> stands for
  \<open>hashlib.md5(str(mtime_sum)).hexdigest()\<close>.
\<close>

definition calculate_hash :: "(int \<Rightarrow> string) \<Rightarrow> string \<Rightarrow> int \<Rightarrow> fsnode list \<Rightarrow> string" where
  "calculate_hash md5_hexdigest tabFolder mtime entries =
     md5_hexdigest (mtime_sum_of tabFolder mtime entries)"

text \<open>
  The fingerprint in the words of the specification: the sum of the modification times
  of the directories whose path matches the panel-or-tab pattern, plus the sum of the
  modification times of the files under such a directory whose name matches the script
  pattern.
\<close>

definition fingerprint_sum :: "(string \<times> int \<times> (string \<times> int) list) list \<Rightarrow> int" where
  "fingerprint_sum w =
     sum_list (map (\<lambda>(root, mtime, files). mtime) (filter (\<lambda>(root, mtime, files). pat_search root) w))
     + sum_list (map (\<lambda>(root, mtime, files).
                       sum_list (map snd (filter (\<lambda>(filename, modtime). patfile_search filename) files)))
                  (filter (\<lambda>(root, mtime, files). pat_search root) w))"

text \<open>
  A cache file as \<open>read_cache_for\<close> finds it: missing or unreadable, not JSON, or a
  JSON object. Of the values of the object only strings are told apart, since the
  check compares two of them with strings.
\<close>

datatype jval = JStr string | JOther

datatype cache_file = Missing | Unparsable | Parsed "(string \<times> jval) list"

definition read_cache_for :: "cache_file \<Rightarrow> error + (string \<times> jval) list" where
  "read_cache_for cf = (case cf of Parsed d \<Rightarrow> Inr d | Missing \<Rightarrow> Inl PyRevitCacheReadError
                        | Unparsable \<Rightarrow> Inl PyRevitCacheReadError)"

text \<open>
  \<open>get_cached_tab\<close>. \<open>running\<close> is \<open>PyRevitVersion.full_version_as_str()\<close>,
  \<open>tabHash\<close> the hash of the tab as it is on disk, \<open>load_from_cache\<close> the tab's method
  of that name (not in the sources; it may raise). The read is outside the \<open>try\<close>;
  whatever is raised inside it, the bare \<open>except\<close> raises \<open>PyRevitCacheError\<close>.
\<close>

definition get_cached_tab_body ::
  "string \<Rightarrow> ((string \<times> jval) list \<Rightarrow> error + 'tab) \<Rightarrow> string \<Rightarrow> (string \<times> jval) list
     \<Rightarrow> error + 'tab" where
  "get_cached_tab_body running load_from_cache tabHash cached_tab_dict =
     (case map_of cached_tab_dict ''tabHash'' of
        None \<Rightarrow> Inl KeyError
      | Some h \<Rightarrow>
          if h = JStr tabHash then
            (case map_of cached_tab_dict ''cacheVersion'' of
               None \<Rightarrow> Inl KeyError
             | Some v \<Rightarrow>
                 if v = JStr running then load_from_cache cached_tab_dict
                 else Inl PyRevitCacheExpiredError)
          else Inl PyRevitCacheExpiredError)"

definition get_cached_tab ::
  "string \<Rightarrow> ((string \<times> jval) list \<Rightarrow> error + 'tab) \<Rightarrow> string \<Rightarrow> cache_file \<Rightarrow> error + 'tab" where
  "get_cached_tab running load_from_cache tabHash cf =
     (case read_cache_for cf of
        Inl e \<Rightarrow> Inl e
      | Inr cached_tab_dict \<Rightarrow>
          (case get_cached_tab_body running load_from_cache tabHash cached_tab_dict of
             Inl e \<Rightarrow> Inl PyRevitCacheError
           | Inr t \<Rightarrow> Inr t))"

text \<open>
  \<open>is_cached_tab_valid\<close> has the body \<open>pass\<close>: it returns \<open>None\<close>, whose truth
  value is false. \<open>is_cache_valid\<close> is the loop over the tabs of the package.
\<close>

datatype pyvalue = PyNone | PyBool bool

fun truth :: "pyvalue \<Rightarrow> bool" where
  "truth PyNone = False"
| "truth (PyBool b) = b"

definition is_cached_tab_valid :: "'tab \<Rightarrow> pyvalue" where
  "is_cached_tab_valid cached_tab = PyNone"

fun is_cache_valid :: "'tab list \<Rightarrow> bool" where
  "is_cache_valid [] = True"
| "is_cache_valid (cached_tab # rest) =
     (if \<not> truth (is_cached_tab_valid cached_tab) then False else is_cache_valid rest)"

text \<open>
  A package as \<open>session.load\<close> gets it from \<open>get_installed_packages\<close>: iterating
  it gives its tabs, and iterating a tab gives the components of the tab.
  \<open>get_cached_package\<close> walks the package and has no \<open>return\<close>: its value is
  \<open>None\<close>.
\<close>

datatype 'a component = Component 'a "'a component list"

text \<open>
  What the cache module reads of a parsed package (the class is not in the sources):
  the two names and the flag \<open>loaded_from_cache\<close>.
\<close>

record package =
  pk_name :: string
  pk_tabName :: string
  pk_loaded_from_cache :: bool

fun get_cached_package :: "'a component list \<Rightarrow> package option" where
  "get_cached_package [] = None"
| "get_cached_package (Component a sub # rest) =
     (let cached = get_cached_package sub in get_cached_package rest)"

text \<open>
  What \<open>load\<close> and the cache module take from outside the sources: the constants of
  \<open>config\<close>, the parser, \<open>json.dumps\<close> with the package's \<open>get_clean_dict\<close> (it
  may raise: \<open>None\<close>), and whether a path can be opened for writing.
\<close>

record 'a environment =
  USER_TEMP_DIR :: string
  PYREVIT_ASSEMBLY_NAME :: string
  full_version_as_str :: string
  get_parsed_package :: "'a component list \<Rightarrow> package"
  json_dumps :: "package \<Rightarrow> string option"
  opens_for_writing :: "string \<Rightarrow> bool"

text \<open>
  The state \<open>load\<close> works on: the cache files by path, and the calls made to the
  parser and to the assembly maker (neither is in the sources), in order.
\<close>

datatype 'a call = GetParsedPackage "'a component list" | CreateAssembly "package option"

record 'a load_state =
  cache_files :: "(string \<times> string) list"
  calls :: "'a call list"

definition get_cache_file :: "'a environment \<Rightarrow> package \<Rightarrow> string" where
  "get_cache_file env cached_tab =
     join (USER_TEMP_DIR env)
       (PYREVIT_ASSEMBLY_NAME env @ ''_cache_'' @ pk_tabName cached_tab @ ''.json'')"

definition serialize :: "'a environment \<Rightarrow> package \<Rightarrow> string option" where
  "serialize env obj =
     (case json_dumps env obj of
        None \<Rightarrow> None
      | Some cache_dict_str \<Rightarrow>
          Some (''{'' @ [CHR 0x0A] @ ''    '' @ [CHR 0x22] @ ''cacheVersion'' @ [CHR 0x22] @ '': ''
                @ [CHR 0x22] @ full_version_as_str env @ [CHR 0x22] @ '', ''
                @ drop 1 cache_dict_str))"

text \<open>
  \<open>write_cache_for\<close>: the file is opened for writing, which empties it, and the
  serialized package is written; whatever is raised by either, the bare \<open>except\<close>
  raises \<open>PyRevitCacheWriteError\<close>.
\<close>

definition write_cache_for ::
  "'a environment \<Rightarrow> package \<Rightarrow> 'a load_state \<Rightarrow> (error \<times> 'a load_state) + 'a load_state" where
  "write_cache_for env parsed_tab st =
     (if \<not> opens_for_writing env (get_cache_file env parsed_tab)
      then Inl (PyRevitCacheWriteError, st)
      else
        (case serialize env parsed_tab of
           None \<Rightarrow>
             Inl (PyRevitCacheWriteError,
                  st\<lparr>cache_files := AList.update (get_cache_file env parsed_tab) []
                                        (cache_files st)\<rparr>)
         | Some contents \<Rightarrow>
             Inr (st\<lparr>cache_files := AList.update (get_cache_file env parsed_tab) contents
                                        (cache_files st)\<rparr>)))"

definition update_cache ::
  "'a environment \<Rightarrow> package \<Rightarrow> 'a load_state \<Rightarrow> (error \<times> 'a load_state) + 'a load_state" where
  "update_cache env parsed_tab st =
     (if \<not> pk_loaded_from_cache parsed_tab then write_cache_for env parsed_tab st
      else Inr st)"

text \<open>
  \<open>session.load\<close>: the body of the loop over the installed packages, and the loop.
  Nothing in \<open>load\<close> catches an exception: one raised for a package ends the loop.
\<close>

definition load_package ::
  "'a environment \<Rightarrow> 'a load_state \<Rightarrow> 'a component list
     \<Rightarrow> (error \<times> 'a load_state) + 'a load_state" where
  "load_package env st pkg_info =
     (if is_cache_valid pkg_info then
        (let package = get_cached_package pkg_info
         in Inr (st\<lparr>calls := calls st @ [CreateAssembly package]\<rparr>))
      else
        (let package = get_parsed_package env pkg_info;
             st = st\<lparr>calls := calls st @ [GetParsedPackage pkg_info]\<rparr>
         in case update_cache env package st of
              Inl x \<Rightarrow> Inl x
            | Inr st \<Rightarrow> Inr (st\<lparr>calls := calls st @ [CreateAssembly (Some package)]\<rparr>)))"

fun load ::
  "'a environment \<Rightarrow> 'a load_state \<Rightarrow> 'a component list list
     \<Rightarrow> (error \<times> 'a load_state) + 'a load_state" where
  "load env st [] = Inr st"
| "load env st (pkg_info # rest) =
     (case load_package env st pkg_info of
        Inl x \<Rightarrow> Inl x
      | Inr st \<Rightarrow> load env st rest)"

text \<open>
  An environment in which a package is parsed afresh and every cache file can be
  written, and a package of one tab.
\<close>

definition example_environment :: "string environment" where
  "example_environment =
     \<lparr>USER_TEMP_DIR = ''tmp'', PYREVIT_ASSEMBLY_NAME = ''pyRevit'', full_version_as_str = ''4.0'',
      get_parsed_package = (\<lambda>pkg_info. \<lparr>pk_name = ''X'', pk_tabName = ''X'',
                                          pk_loaded_from_cache = False\<rparr>),
      json_dumps = (\<lambda>obj. Some ''{}''),
      opens_for_writing = (\<lambda>path. True)\<rparr>"

section \<open>Tree discovery\<close>

text \<open>
  \<open>pyRevitUIPanels\<close> and \<open>pyRevitUIButtons\<close> are dicts from a panel's name to
  handles of live ribbon objects; a handle is modelled as the position of the object
  in its container (see the section on the ribbon).
\<close>

record ScriptTab =
  t_tabName :: string
  t_tabDirName :: string
  t_tabFolder :: string
  t_scriptPanels :: "ScriptPanel list"
  t_pyRevitUIPanels :: "(string \<times> nat) list"
  t_pyRevitUIButtons :: "(string \<times> nat list) list"

definition ScriptTab_init :: "string \<Rightarrow> string \<Rightarrow> ScriptTab" where
  "ScriptTab_init tname tfolder =
     \<lparr>t_tabName = replace tname tabPostfix [], t_tabDirName = tname, t_tabFolder = tfolder,
      t_scriptPanels = [], t_pyRevitUIPanels = [], t_pyRevitUIButtons = []\<rparr>"

text \<open>
  The three adoption methods. Each takes the list of names already adopted once,
  before its loop, and appends every candidate that matches and whose name is not in
  that list.
\<close>

fun adoptcommands_loop ::
  "string list \<Rightarrow> string \<Rightarrow> ScriptGroup \<Rightarrow> ScriptCommand list \<Rightarrow> ScriptGroup" where
  "adoptcommands_loop already_adopted_commands master self [] = self"
| "adoptcommands_loop already_adopted_commands master self (cmd # rest) =
     adoptcommands_loop already_adopted_commands master
       (if c_scriptGroupName cmd = g_groupName self
           \<and> (c_tabName cmd = g_tabName self \<or> c_tabName cmd = master)
           \<and> c_fileName cmd \<notin> set already_adopted_commands
        then self\<lparr>g_commands := g_commands self @ [cmd]\<rparr> else self)
       rest"

definition adoptcommands :: "ScriptGroup \<Rightarrow> ScriptCommand list \<Rightarrow> string \<Rightarrow> ScriptGroup" where
  "adoptcommands self pyrevitscriptcommands master =
     adoptcommands_loop (map c_fileName (g_commands self)) master self pyrevitscriptcommands"

fun adoptgroups_loop :: "string list \<Rightarrow> ScriptPanel \<Rightarrow> ScriptGroup list \<Rightarrow> ScriptPanel" where
  "adoptgroups_loop already_adopted_groups self [] = self"
| "adoptgroups_loop already_adopted_groups self (grp # rest) =
     adoptgroups_loop already_adopted_groups
       (if g_panelName grp = p_panelName self \<and> g_tabName grp = p_tabName self
           \<and> g_groupName grp \<notin> set already_adopted_groups
        then self\<lparr>p_scriptGroups := p_scriptGroups self @ [grp]\<rparr> else self)
       rest"

definition adoptgroups :: "ScriptPanel \<Rightarrow> ScriptGroup list \<Rightarrow> ScriptPanel" where
  "adoptgroups self pyrevitscriptgroups =
     adoptgroups_loop (map g_groupName (p_scriptGroups self)) self pyrevitscriptgroups"

fun adopt_panels_loop :: "string list \<Rightarrow> ScriptTab \<Rightarrow> ScriptPanel list \<Rightarrow> ScriptTab" where
  "adopt_panels_loop already_adopted_panels self [] = self"
| "adopt_panels_loop already_adopted_panels self (panel # rest) =
     adopt_panels_loop already_adopted_panels
       (if p_tabName panel = t_tabName self \<and> p_panelName panel \<notin> set already_adopted_panels
        then self\<lparr>t_scriptPanels := t_scriptPanels self @ [panel]\<rparr> else self)
       rest"

definition adopt_panels :: "ScriptTab \<Rightarrow> ScriptPanel list \<Rightarrow> ScriptTab" where
  "adopt_panels self pyrevitscriptpanels =
     adopt_panels_loop (map p_panelName (t_scriptPanels self)) self pyrevitscriptpanels"

text \<open>\<open>sorted(xs, key=f)\<close> is a stable sort, as \<open>sort_key\<close> is.\<close>

definition get_sorted_scriptpanels :: "ScriptTab \<Rightarrow> ScriptPanel list" where
  "get_sorted_scriptpanels self = sort_key p_panelOrder (t_scriptPanels self)"

definition get_sorted_scriptgroups :: "ScriptPanel \<Rightarrow> ScriptGroup list" where
  "get_sorted_scriptgroups self = sort_key g_groupOrder (p_scriptGroups self)"

definition hascommands :: "ScriptTab \<Rightarrow> bool" where
  "hascommands self =
     list_ex (\<lambda>p. list_ex (\<lambda>g. length (g_commands g) > 0) (p_scriptGroups p)) (t_scriptPanels self)"

text \<open>The lists a \<open>PyRevitUISession\<close> collects while it walks the folders.\<close>

record Session =
  pyRevitScriptCommands :: "ScriptCommand list"
  pyRevitScriptGroups :: "ScriptGroup list"
  pyRevitScriptPanels :: "ScriptPanel list"
  pyRevitScriptTabs :: "ScriptTab list"

definition empty_session :: Session where
  "empty_session = \<lparr>pyRevitScriptCommands = [], pyRevitScriptGroups = [],
                     pyRevitScriptPanels = [], pyRevitScriptTabs = []\<rparr>"

fun node_name :: "fsnode \<Rightarrow> string" where
  "node_name (File n m) = n"
| "node_name (Dir n m sub) = n"

fun node_isdir :: "fsnode \<Rightarrow> bool" where
  "node_isdir (File n m) = False"
| "node_isdir (Dir n m sub) = True"

fun node_entries :: "fsnode \<Rightarrow> fsnode list" where
  "node_entries (File n m) = []"
| "node_entries (Dir n m sub) = sub"

text \<open>
  \<open>os.listdir\<close>, \<open>os.path.isdir\<close> and \<open>os.path.exists\<close> on a directory's
  entries. A file that the listing shows can be opened, and an image that it shows is
  one the host decodes: the contents of files are not part of a snapshot.
\<close>

definition listdir :: "fsnode list \<Rightarrow> string list" where
  "listdir entries = map node_name entries"

definition isdir :: "fsnode list \<Rightarrow> string \<Rightarrow> bool" where
  "isdir entries name = list_ex (\<lambda>e. node_name e = name \<and> node_isdir e) entries"

definition path_exists :: "string \<Rightarrow> fsnode list \<Rightarrow> string \<Rightarrow> bool" where
  "path_exists dir entries p = list_ex (\<lambda>e. join dir (node_name e) = p) entries"

definition path_isfile :: "string \<Rightarrow> fsnode list \<Rightarrow> string \<Rightarrow> bool" where
  "path_isfile dir entries p =
     list_ex (\<lambda>e. join dir (node_name e) = p \<and> \<not> node_isdir e) entries"

definition files_in :: "string \<Rightarrow> fsnode list \<Rightarrow> files" where
  "files_in dir entries =
     \<lparr>fs_exists = path_exists dir entries, fs_opens = path_isfile dir entries,
      fs_decodes = path_isfile dir entries\<rparr>"

definition hidden :: "string \<Rightarrow> bool" where
  "hidden name = (startswith name ''.'' \<or> startswith name ''_'')"

text \<open>
  \<open>find_scriptcommands\<close>: the listing is sorted; whatever the command constructor
  raises, the entry is skipped.
\<close>

fun find_scriptcommands_loop ::
  "string \<Rightarrow> fsnode list \<Rightarrow> string \<Rightarrow> Session \<Rightarrow> string list \<Rightarrow> Session" where
  "find_scriptcommands_loop searchdir entries tabname self [] = self"
| "find_scriptcommands_loop searchdir entries tabname self (fullfilename # files) =
     find_scriptcommands_loop searchdir entries tabname
       (if \<not> isdir entries fullfilename \<and> ''.py'' = lower (snd (splitext (basename fullfilename)))
        then (case ScriptCommand_init (files_in searchdir entries) searchdir fullfilename tabname of
                Inr cmd \<Rightarrow> self\<lparr>pyRevitScriptCommands := pyRevitScriptCommands self @ [cmd]\<rparr>
              | Inl e \<Rightarrow> self)
        else self)
       files"

definition find_scriptcommands :: "Session \<Rightarrow> string \<Rightarrow> fsnode list \<Rightarrow> string \<Rightarrow> Session" where
  "find_scriptcommands self searchdir entries tabname =
     find_scriptcommands_loop searchdir entries tabname self (sort (listdir entries))"

text \<open>
  \<open>find_scriptgroups\<close>: the listing is taken as it comes; \<open>UnknownFileNameFormat\<close> and
  \<open>UnknownAssembly\<close> skip the entry, any other exception leaves the method.
\<close>

fun find_scriptgroups_loop ::
  "Assembly list \<Rightarrow> string \<Rightarrow> fsnode list \<Rightarrow> string \<Rightarrow> string \<Rightarrow> Session \<Rightarrow> string list
     \<Rightarrow> error + Session" where
  "find_scriptgroups_loop loaded searchdir entries tabname bundledPanelName self [] = Inr self"
| "find_scriptgroups_loop loaded searchdir entries tabname bundledPanelName self (fullfilename # files) =
     (if \<not> isdir entries fullfilename
         \<and> iconFileFormat = lower (snd (splitext (basename fullfilename)))
      then (case ScriptGroup_init (files_in searchdir entries) loaded searchdir fullfilename tabname
                   bundledPanelName of
              Inr scriptgroup \<Rightarrow>
                find_scriptgroups_loop loaded searchdir entries tabname bundledPanelName
                  (self\<lparr>pyRevitScriptGroups := pyRevitScriptGroups self
                      @ [adoptcommands scriptgroup (pyRevitScriptCommands self) masterTabName]\<rparr>)
                  files
            | Inl e \<Rightarrow>
                if e = UnknownFileNameFormat \<or> e = UnknownAssembly
                then find_scriptgroups_loop loaded searchdir entries tabname bundledPanelName self files
                else Inl e)
      else find_scriptgroups_loop loaded searchdir entries tabname bundledPanelName self files)"

definition find_scriptgroups ::
  "Assembly list \<Rightarrow> Session \<Rightarrow> string \<Rightarrow> fsnode list \<Rightarrow> string \<Rightarrow> string \<Rightarrow> error + Session" where
  "find_scriptgroups loaded self searchdir entries tabname bundledPanelName =
     find_scriptgroups_loop loaded searchdir entries tabname bundledPanelName
       (find_scriptcommands self searchdir entries tabname) (listdir entries)"

text \<open>
  \<open>find_scriptpanels\<close>. The \<open>try\<close> around a panel catches \<open>UnknownFileNameFormat\<close>
  only; an exception that leaves the nested \<open>find_scriptgroups\<close> leaves this method too.
\<close>

fun find_scriptpanels_loop ::
  "Assembly list \<Rightarrow> string \<Rightarrow> string \<Rightarrow> Session \<Rightarrow> fsnode list \<Rightarrow> error + Session" where
  "find_scriptpanels_loop loaded tabdir tabname self [] = Inr self"
| "find_scriptpanels_loop loaded tabdir tabname self (entry # files) =
     (let fullfilename = node_name entry;
          fullfilepath = join tabdir fullfilename;
          is_panel_bundled = (node_isdir entry \<and> \<not> hidden fullfilename
                              \<and> endswith fullfilename panelBundlePostfix);
          is_panel_defined_by_png =
            (iconFileFormat = lower (snd (splitext (basename fullfilename))))
      in if is_panel_bundled \<or> is_panel_defined_by_png then
           (case ScriptPanel_init tabdir fullfilename tabname is_panel_bundled of
              Inl e \<Rightarrow>
                if e = UnknownFileNameFormat then find_scriptpanels_loop loaded tabdir tabname self files
                else Inl e
            | Inr scriptpanel \<Rightarrow>
                (case (if is_panel_bundled
                       then find_scriptgroups loaded self fullfilepath (node_entries entry) tabname
                              (p_panelName scriptpanel)
                       else Inr self) of
                   Inl e \<Rightarrow>
                     if e = UnknownFileNameFormat
                     then find_scriptpanels_loop loaded tabdir tabname self files
                     else Inl e
                 | Inr self \<Rightarrow>
                     find_scriptpanels_loop loaded tabdir tabname
                       (if (p_panelName scriptpanel, p_tabName scriptpanel)
                            \<notin> set (map (\<lambda>x. (p_panelName x, p_tabName x)) (pyRevitScriptPanels self))
                        then self\<lparr>pyRevitScriptPanels := pyRevitScriptPanels self
                                 @ [adoptgroups scriptpanel (pyRevitScriptGroups self)]\<rparr>
                        else self)
                       files))
         else find_scriptpanels_loop loaded tabdir tabname self files)"

definition find_scriptpanels ::
  "Assembly list \<Rightarrow> Session \<Rightarrow> string \<Rightarrow> fsnode list \<Rightarrow> string \<Rightarrow> error + Session" where
  "find_scriptpanels loaded self tabdir entries tabname =
     (case find_scriptgroups loaded self tabdir entries tabname [] of
        Inl e \<Rightarrow> Inl e
      | Inr self \<Rightarrow> find_scriptpanels_loop loaded tabdir tabname self entries)"

text \<open>
  \<open>find_scripttabs\<close>: a folder ending in the tab postfix is a tab (a second folder of
  the same name extends the tab found first); any other folder that is not hidden is
  searched for tabs in turn.
\<close>

fun update_tab :: "ScriptTab list \<Rightarrow> string \<Rightarrow> (ScriptTab \<Rightarrow> ScriptTab) \<Rightarrow> ScriptTab list" where
  "update_tab [] dirName f = []"
| "update_tab (t # ts) dirName f =
     (if t_tabDirName t = dirName \<and> dirName \<notin> set (map t_tabDirName ts)
      then f t # ts else t # update_tab ts dirName f)"

fun find_scripttabs ::
  "Assembly list \<Rightarrow> Session \<Rightarrow> string \<Rightarrow> fsnode list \<Rightarrow> error + Session" where
  "find_scripttabs loaded self homeDir [] = Inr self"
| "find_scripttabs loaded self homeDir (File dirName m # rest) =
     find_scripttabs loaded self homeDir rest"
| "find_scripttabs loaded self homeDir (Dir dirName m sub # rest) =
     (let fulltabpath = join homeDir dirName
      in if \<not> hidden dirName \<and> endswith dirName tabPostfix then
           (if dirName \<notin> set (map t_tabDirName (pyRevitScriptTabs self)) then
              (let scripttab = ScriptTab_init dirName fulltabpath
               in case find_scriptpanels loaded self fulltabpath sub (t_tabName scripttab) of
                    Inl e \<Rightarrow> Inl e
                  | Inr self \<Rightarrow>
                      find_scripttabs loaded
                        (self\<lparr>pyRevitScriptTabs := pyRevitScriptTabs self
                            @ [adopt_panels scripttab (pyRevitScriptPanels self)]\<rparr>)
                        homeDir rest)
            else
              (case find_scriptpanels loaded self fulltabpath sub (replace dirName tabPostfix []) of
                 Inl e \<Rightarrow> Inl e
               | Inr self \<Rightarrow>
                   find_scripttabs loaded
                     (self\<lparr>pyRevitScriptTabs := update_tab (pyRevitScriptTabs self) dirName
                         (\<lambda>scripttab. adopt_panels scripttab (pyRevitScriptPanels self))\<rparr>)
                     homeDir rest))
         else if \<not> hidden dirName then
           (case find_scripttabs loaded self fulltabpath sub of
              Inl e \<Rightarrow> Inl e
            | Inr self \<Rightarrow> find_scripttabs loaded self homeDir rest)
         else find_scripttabs loaded self homeDir rest)"

text \<open>\<open>create_reload_button\<close>: every exception of the constructor is swallowed.\<close>

fun create_reload_button_loop :: "string \<Rightarrow> fsnode list \<Rightarrow> Session \<Rightarrow> fsnode list \<Rightarrow> Session" where
  "create_reload_button_loop loaderDir entries self [] = self"
| "create_reload_button_loop loaderDir entries self (entry # rest) =
     create_reload_button_loop loaderDir entries
       (if \<not> node_isdir entry \<and> contains (node_name entry) pyRevitInitScriptName
        then (case ScriptCommand_init (files_in loaderDir entries) loaderDir (node_name entry)
                     masterTabName of
                Inr cmd \<Rightarrow> self\<lparr>pyRevitScriptCommands := pyRevitScriptCommands self @ [cmd]\<rparr>
              | Inl e \<Rightarrow> self)
        else self)
       rest"

definition create_reload_button :: "Session \<Rightarrow> string \<Rightarrow> fsnode list \<Rightarrow> Session" where
  "create_reload_button self loaderDir entries =
     create_reload_button_loop loaderDir entries self entries"

text \<open>
  The part of \<open>PyRevitUISession.__init__\<close> that builds the tree: the reload button from
  the loader's folder, then the tabs under the home folder.
\<close>

definition discover ::
  "Assembly list \<Rightarrow> string \<Rightarrow> fsnode list \<Rightarrow> string \<Rightarrow> fsnode list \<Rightarrow> error + Session" where
  "discover loaded loaderDir loaderEntries homeDir homeEntries =
     find_scripttabs loaded (create_reload_button empty_session loaderDir loaderEntries)
       homeDir homeEntries"

text \<open>
  What the determinism property compares at the tab level: for each tab, in discovery
  order, the names of its panels in sorted order; and what adoption produced: for each
  group, its panel and the files of its commands.
\<close>

definition sorted_panel_names :: "Session \<Rightarrow> (string \<times> string list) list" where
  "sorted_panel_names self =
     map (\<lambda>t. (t_tabName t, map p_panelName (get_sorted_scriptpanels t))) (pyRevitScriptTabs self)"





text \<open>A small tree on which the adoption methods are exercised.\<close>

definition example_command :: "string \<Rightarrow> string \<Rightarrow> ScriptCommand" where
  "example_command f cls =
     \<lparr>c_filePath = ''dir'', c_fileName = f, c_cmdName = ''x'', c_scriptGroupName = ''G'',
      c_className = cls, c_iconFileName = None, c_buttonIcons = False, c_tabName = ''X''\<rparr>"

definition example_group :: "string \<Rightarrow> string \<Rightarrow> ScriptCommand list \<Rightarrow> ScriptGroup" where
  "example_group name type cmds =
     \<lparr>g_commands = cmds, g_sourceDir = ''dir'', g_sourceFile = ''1001_P_T_G.png'',
      g_sourceFileName = ''1001_P_T_G'', g_sourceFileExt = ''.png'', g_groupOrder = 1,
      g_panelName = ''P'', g_groupType = Some type, g_groupName = name, g_buttonIcons = True,
      g_assemblyName = None, g_assemblyClassName = None, g_assemblyLocation = None,
      g_tabName = ''X''\<rparr>"

definition example_panel :: "ScriptGroup list \<Rightarrow> ScriptPanel" where
  "example_panel groups =
     \<lparr>p_panelOrder = 10, p_panelName = ''P'', p_scriptGroups = groups, p_tabName = ''X'',
      p_tabDir = ''dir'', p_isBundled = False\<rparr>"

definition example_tab :: "ScriptPanel list \<Rightarrow> ScriptTab" where
  "example_tab panels =
     \<lparr>t_tabName = ''X'', t_tabDirName = ''X.tab'', t_tabFolder = ''dir'', t_scriptPanels = panels,
      t_pyRevitUIPanels = [], t_pyRevitUIButtons = []\<rparr>"

section \<open>The live ribbon\<close>

text \<open>
  The ribbon of the host, as far as the loader reads and writes it. A tab has a name
  and panels, a panel has a name and items, an item is a push button or a pulldown or
  split button, and a pulldown or split button has push buttons of its own. Tool tips,
  descriptions and images are written by the loader but never read, and are left out.

  The loader holds references to live objects. Containers of the ribbon only grow (by
  appending), so a reference is modelled as the position of the object in its
  container; a property written through a reference is written at that position.
\<close>

datatype item_kind = PushButtonItem | PulldownButtonItem | SplitButtonItem

record PushButton =
  b_Name :: string
  b_ClassName :: string
  b_AssemblyName :: string
  b_Enabled :: bool

record RibbonItem =
  i_Name :: string
  i_kind :: item_kind
  i_ClassName :: string
  i_AssemblyName :: string
  i_Enabled :: bool
  i_IsSynchronizedWithCurrentItem :: bool
  i_items :: "PushButton list"

record RibbonPanel =
  rp_Name :: string
  rp_items :: "RibbonItem list"

type_synonym ribbon = "(string \<times> RibbonPanel list) list"

text \<open>
  What a pass does to the ribbon, in the order it does it. The source keeps no such
  log; an entry stands for one call of the host's interface (\<open>CreateRibbonTab\<close>,
  \<open>CreateRibbonPanel\<close>, \<open>AddItem\<close>, \<open>AddPushButton\<close>, \<open>AddStackedItems\<close>), for
  the update of an element found, or for the disabling of an orphan.
\<close>

datatype item_op =
    AddItem string
  | AddPushButton string string
  | AddStackedItems "string list"
  | UpdateItem string
  | UpdateButton string string
  | DisableButton string string
  | DisableItem string

datatype ribbon_op =
    CreateRibbonTab string
  | CreateRibbonPanel string string
  | PanelOp string string item_op

fun is_create :: "item_op \<Rightarrow> bool" where
  "is_create (AddItem n) = True"
| "is_create (AddPushButton g n) = True"
| "is_create (AddStackedItems ns) = True"
| "is_create (UpdateItem n) = False"
| "is_create (UpdateButton g n) = False"
| "is_create (DisableButton g n) = False"
| "is_create (DisableItem n) = False"

fun is_disable :: "item_op \<Rightarrow> bool" where
  "is_disable (DisableButton g n) = True"
| "is_disable (DisableItem n) = True"
| "is_disable (AddItem n) = False"
| "is_disable (AddPushButton g n) = False"
| "is_disable (AddStackedItems ns) = False"
| "is_disable (UpdateItem n) = False"
| "is_disable (UpdateButton g n) = False"

fun creates :: "ribbon_op \<Rightarrow> bool" where
  "creates (CreateRibbonTab t) = True"
| "creates (CreateRibbonPanel t p) = True"
| "creates (PanelOp t p x) = is_create x"

fun disables :: "ribbon_op \<Rightarrow> bool" where
  "disables (CreateRibbonTab t) = False"
| "disables (CreateRibbonPanel t p) = False"
| "disables (PanelOp t p x) = is_disable x"

text \<open>
  A dict comprehension \<open>{key(b): b for b in xs}\<close> over references: a later element
  replaces an earlier one of the same key. \<open>d.pop(k)\<close> is \<open>map_of d k\<close> followed by
  \<open>AList.delete k d\<close>. Python leaves the order of \<open>d.items()\<close> open; the model
  takes the order of first insertion.
\<close>

definition dict_of :: "('a \<Rightarrow> string) \<Rightarrow> 'a list \<Rightarrow> nat list \<Rightarrow> (string \<times> nat) list" where
  "dict_of key xs hs = foldl (\<lambda>d h. AList.update (key (xs ! h)) h d) [] hs"

text \<open>
  A step of a pass either completes or raises; what was written to the ribbon before
  an exception stays written, so an exception comes with the state it left.
\<close>

type_synonym 's result = "(error \<times> 's) + 's"

definition and_then :: "'s result \<Rightarrow> ('s \<Rightarrow> 's result) \<Rightarrow> 's result" where
  "and_then r f = (case r of Inl x \<Rightarrow> Inl x | Inr s \<Rightarrow> f s)"

subsection \<open>The push buttons of a pulldown or split button\<close>

record buttons_state =
  bs_buttons :: "PushButton list"
  bs_dict :: "(string \<times> nat) list"
  bs_new :: nat
  bs_updated :: nat
  bs_log :: "item_op list"

text \<open>
  One round of the loop over \<open>scriptGroup.commands\<close> in the pulldown and split
  branch. \<open>AddPushButton\<close> raises when the button has a push button of that name.
\<close>

definition pushbutton_step ::
  "string \<Rightarrow> string \<Rightarrow> buttons_state \<Rightarrow> ScriptCommand \<Rightarrow> buttons_state result" where
  "pushbutton_step newAssemblyLocation groupName s cmd =
     (case map_of (bs_dict s) (c_className cmd) of
        None \<Rightarrow>
          if c_className cmd \<in> set (map b_Name (bs_buttons s)) then Inl (RevitException, s)
          else Inr (s\<lparr>bs_buttons := bs_buttons s
                        @ [\<lparr>b_Name = c_className cmd, b_ClassName = c_className cmd,
                             b_AssemblyName = newAssemblyLocation, b_Enabled = True\<rparr>],
                      bs_new := bs_new s + 1,
                      bs_log := bs_log s @ [AddPushButton groupName (c_className cmd)]\<rparr>)
      | Some h \<Rightarrow>
          (let pushbutton = (bs_buttons s ! h)\<lparr>b_Enabled := True\<rparr>;
               pushbutton = (if \<not> contains (b_Name pushbutton) reloadScriptsOverrideName
                             then pushbutton\<lparr>b_AssemblyName := newAssemblyLocation\<rparr>
                             else pushbutton)
           in Inr (s\<lparr>bs_buttons := (bs_buttons s)[h := pushbutton],
                      bs_dict := AList.delete (c_className cmd) (bs_dict s),
                      bs_updated := bs_updated s + 1,
                      bs_log := bs_log s @ [UpdateButton groupName (c_className cmd)]\<rparr>)))"

fun pushbuttons_loop ::
  "string \<Rightarrow> string \<Rightarrow> buttons_state \<Rightarrow> ScriptCommand list \<Rightarrow> buttons_state result" where
  "pushbuttons_loop newAssemblyLocation groupName s [] = Inr s"
| "pushbuttons_loop newAssemblyLocation groupName s (cmd # cmds) =
     and_then (pushbutton_step newAssemblyLocation groupName s cmd)
       (\<lambda>s. pushbuttons_loop newAssemblyLocation groupName s cmds)"

text \<open>The loop over what is left in the dict: each is an orphan and is disabled.\<close>

fun disable_buttons :: "string \<Rightarrow> buttons_state \<Rightarrow> (string \<times> nat) list \<Rightarrow> buttons_state" where
  "disable_buttons groupName s [] = s"
| "disable_buttons groupName s ((orphanedButtonName, h) # rest) =
     disable_buttons groupName
       (s\<lparr>bs_buttons := (bs_buttons s)[h := (bs_buttons s ! h)\<lparr>b_Enabled := False\<rparr>],
          bs_log := bs_log s @ [DisableButton groupName orphanedButtonName]\<rparr>)
       rest"

subsection \<open>The items of a panel\<close>

text \<open>
  The state of the pass over a panel: the items of the live panel, the dict of the
  items not yet asked for, the two counters, what was done, and the groups of the
  script panel. The groups are part of the state because the push button and smart
  button branches take a command off a group with \<open>commands.pop()\<close>; a group is
  referred to by its position in \<open>scriptPanel.scriptGroups\<close>.
\<close>

record pass_state =
  ps_groups :: "ScriptGroup list"
  ps_items :: "RibbonItem list"
  ps_dict :: "(string \<times> nat) list"
  newbuttoncount :: nat
  updatedbuttoncount :: nat
  ps_log :: "item_op list"

definition new_item :: "string \<Rightarrow> item_kind \<Rightarrow> string \<Rightarrow> string \<Rightarrow> RibbonItem" where
  "new_item name kind assembly cls =
     \<lparr>i_Name = name, i_kind = kind, i_ClassName = cls, i_AssemblyName = assembly,
      i_Enabled = True, i_IsSynchronizedWithCurrentItem = True, i_items = []\<rparr>"

text \<open>\<open>pyrevitribbonpanel.AddItem\<close>: raises when the panel has an item of that name.\<close>

definition add_item :: "pass_state \<Rightarrow> RibbonItem \<Rightarrow> pass_state result" where
  "add_item s item =
     (if i_Name item \<in> set (map i_Name (ps_items s)) then Inl (RevitException, s)
      else Inr (s\<lparr>ps_items := ps_items s @ [item], ps_log := ps_log s @ [AddItem (i_Name item)]\<rparr>))"

text \<open>
  The assignments \<open>AssemblyName\<close>, \<open>ClassName\<close>, \<open>Enabled\<close> through a reference
  found in the dict, and the count of the update. A pulldown or split button has no
  \<open>AssemblyName\<close> property: the first assignment raises.
\<close>

definition update_pushbutton_item ::
  "pass_state \<Rightarrow> nat \<Rightarrow> string \<Rightarrow> string \<Rightarrow> pass_state result" where
  "update_pushbutton_item s h assembly cls =
     (if i_kind (ps_items s ! h) \<noteq> PushButtonItem then Inl (AttributeError, s)
      else Inr (s\<lparr>ps_items := (ps_items s)[h := (ps_items s ! h)
                       \<lparr>i_AssemblyName := assembly, i_ClassName := cls, i_Enabled := True\<rparr>],
                  updatedbuttoncount := updatedbuttoncount s + 1,
                  ps_log := ps_log s @ [UpdateItem (i_Name (ps_items s ! h))]\<rparr>))"

definition group_item_kind :: "ScriptGroup \<Rightarrow> item_kind" where
  "group_item_kind scriptGroup =
     (if g_groupType scriptGroup = Some pulldownButtonTypeName then PulldownButtonItem
      else SplitButtonItem)"

definition write_back :: "pass_state \<Rightarrow> nat \<Rightarrow> buttons_state \<Rightarrow> pass_state" where
  "write_back s h b =
     s\<lparr>ps_items := (ps_items s)[h := (ps_items s ! h)\<lparr>i_items := bs_buttons b\<rparr>],
       newbuttoncount := newbuttoncount s + bs_new b,
       updatedbuttoncount := updatedbuttoncount s + bs_updated b,
       ps_log := ps_log s @ bs_log b\<rparr>"

text \<open>
  The pulldown and split branch, from the item of the group on (\<open>h\<close> is the reference
  to it): the split-push flag, the images (the group must have icons), the push buttons
  of the commands, and the disabling of the push buttons no command asked for.
\<close>

definition group_buttons :: "string \<Rightarrow> pass_state \<Rightarrow> nat \<Rightarrow> ScriptGroup \<Rightarrow> pass_state result" where
  "group_buttons newAssemblyLocation s h scriptGroup =
     (if g_groupType scriptGroup = Some splitPushButtonTypeName
         \<and> i_kind (ps_items s ! h) \<noteq> SplitButtonItem
      then Inl (AttributeError, s)
      else
        (let s = (if g_groupType scriptGroup = Some splitPushButtonTypeName
                  then s\<lparr>ps_items := (ps_items s)[h := (ps_items s ! h)
                               \<lparr>i_IsSynchronizedWithCurrentItem := False\<rparr>]\<rparr>
                  else s)
         in if \<not> g_buttonIcons scriptGroup then Inl (AttributeError, s)
            else if i_kind (ps_items s ! h) = PushButtonItem then Inl (AttributeError, s)
            else
              (case pushbuttons_loop newAssemblyLocation (g_groupName scriptGroup)
                      \<lparr>bs_buttons = i_items (ps_items s ! h),
                       bs_dict = dict_of b_ClassName (i_items (ps_items s ! h))
                                   [0..<length (i_items (ps_items s ! h))],
                       bs_new = 0, bs_updated = 0, bs_log = []\<rparr>
                      (g_commands scriptGroup) of
                 Inl (e, b) \<Rightarrow> Inl (e, write_back s h b)
               | Inr b \<Rightarrow>
                   Inr (write_back s h
                          (disable_buttons (g_groupName scriptGroup) b (bs_dict b))))))"

definition group_branch :: "string \<Rightarrow> pass_state \<Rightarrow> ScriptGroup \<Rightarrow> pass_state result" where
  "group_branch newAssemblyLocation s scriptGroup =
     (case map_of (ps_dict s) (g_groupName scriptGroup) of
        None \<Rightarrow>
          and_then
            (add_item s (new_item (g_groupName scriptGroup) (group_item_kind scriptGroup) [] []))
            (\<lambda>s'. group_buttons newAssemblyLocation s' (length (ps_items s)) scriptGroup)
      | Some h \<Rightarrow>
          group_buttons newAssemblyLocation
            (s\<lparr>ps_dict := AList.delete (g_groupName scriptGroup) (ps_dict s),
               ps_log := ps_log s @ [UpdateItem (g_groupName scriptGroup)]\<rparr>)
            h scriptGroup)"

text \<open>
  The branch of three stacked buttons. A command not found in the dict is counted as a
  new button when its button data is made; the data are added to the panel only when
  there are exactly three of them. \<open>AddStackedItems\<close> raises when a name is taken.
\<close>

definition stacked_step ::
  "string \<Rightarrow> ScriptGroup \<Rightarrow> pass_state \<times> string list \<Rightarrow> ScriptCommand
     \<Rightarrow> (error \<times> pass_state) + (pass_state \<times> string list)" where
  "stacked_step newAssemblyLocation scriptGroup st cmd =
     (let s = fst st; stackcommands = snd st
      in case map_of (ps_dict s) (c_className cmd) of
           None \<Rightarrow>
             if \<not> c_buttonIcons cmd \<and> \<not> g_buttonIcons scriptGroup then Inl (AttributeError, s)
             else Inr (s\<lparr>newbuttoncount := newbuttoncount s + 1\<rparr>,
                       stackcommands @ [c_className cmd])
         | Some h \<Rightarrow>
             (case update_pushbutton_item
                     (s\<lparr>ps_dict := AList.delete (c_className cmd) (ps_dict s)\<rparr>) h
                     newAssemblyLocation (c_className cmd) of
                Inl x \<Rightarrow> Inl x
              | Inr s \<Rightarrow>
                  if \<not> c_buttonIcons cmd \<and> \<not> g_buttonIcons scriptGroup
                  then Inl (AttributeError, s)
                  else Inr (s, stackcommands)))"

fun stacked_loop ::
  "string \<Rightarrow> ScriptGroup \<Rightarrow> pass_state \<times> string list \<Rightarrow> ScriptCommand list
     \<Rightarrow> (error \<times> pass_state) + (pass_state \<times> string list)" where
  "stacked_loop newAssemblyLocation scriptGroup st [] = Inr st"
| "stacked_loop newAssemblyLocation scriptGroup st (cmd # cmds) =
     (case stacked_step newAssemblyLocation scriptGroup st cmd of
        Inl x \<Rightarrow> Inl x
      | Inr st \<Rightarrow> stacked_loop newAssemblyLocation scriptGroup st cmds)"

definition add_stacked_items :: "string \<Rightarrow> pass_state \<Rightarrow> string list \<Rightarrow> pass_state result" where
  "add_stacked_items newAssemblyLocation s names =
     (if \<not> distinct names \<or> list_ex (\<lambda>n. n \<in> set (map i_Name (ps_items s))) names
      then Inl (RevitException, s)
      else Inr (s\<lparr>ps_items := ps_items s
                     @ map (\<lambda>n. new_item n PushButtonItem newAssemblyLocation n) names,
                  ps_log := ps_log s @ [AddStackedItems names]\<rparr>))"

definition stacked_branch :: "string \<Rightarrow> pass_state \<Rightarrow> ScriptGroup \<Rightarrow> pass_state result" where
  "stacked_branch newAssemblyLocation s scriptGroup =
     (case stacked_loop newAssemblyLocation scriptGroup (s, []) (g_commands scriptGroup) of
        Inl x \<Rightarrow> Inl x
      | Inr (s, stackcommands) \<Rightarrow>
          if length stackcommands = 3 then add_stacked_items newAssemblyLocation s stackcommands
          else Inr s)"

text \<open>
  The push button branch. Its body is inside \<open>try\<close> with a bare \<open>except\<close> that
  goes on to the next group: the branch never raises, and what it did before an
  exception stays done. \<open>commands.pop()\<close> removes the last command from the group
  and returns it, and raises on an empty list. The smart button branch does the same
  to the group and to the ribbon; the script it imports and initialises is outside the
  model.
\<close>

definition pushbutton_branch :: "string \<Rightarrow> pass_state \<Rightarrow> nat \<Rightarrow> pass_state" where
  "pushbutton_branch newAssemblyLocation s g =
     (let scriptGroup = ps_groups s ! g
      in if g_commands scriptGroup = [] then s
         else
           (let cmd = last (g_commands scriptGroup);
                s = s\<lparr>ps_groups := (ps_groups s)
                        [g := scriptGroup\<lparr>g_commands := butlast (g_commands scriptGroup)\<rparr>]\<rparr>
            in case (case map_of (ps_dict s) (c_className cmd) of
                       None \<Rightarrow>
                         and_then
                           (add_item s (new_item (c_className cmd) PushButtonItem
                                          newAssemblyLocation (c_className cmd)))
                           (\<lambda>s. Inr (s\<lparr>newbuttoncount := newbuttoncount s + 1\<rparr>))
                     | Some h \<Rightarrow>
                         update_pushbutton_item
                           (s\<lparr>ps_dict := AList.delete (c_className cmd) (ps_dict s)\<rparr>) h
                           newAssemblyLocation (c_className cmd)) of
                 Inl (e, s) \<Rightarrow> s
               | Inr s \<Rightarrow> s))"

definition smartbutton_branch :: "string \<Rightarrow> pass_state \<Rightarrow> nat \<Rightarrow> pass_state" where
  "smartbutton_branch newAssemblyLocation s g = pushbutton_branch newAssemblyLocation s g"

text \<open>The link button branch: a push button bound to a class of another assembly.\<close>

definition islinkbutton :: "ScriptGroup \<Rightarrow> bool" where
  "islinkbutton self = (g_assemblyName self \<noteq> None)"

definition link_branch :: "pass_state \<Rightarrow> ScriptGroup \<Rightarrow> pass_state result" where
  "link_branch s scriptGroup =
     (case (g_assemblyName scriptGroup, g_assemblyClassName scriptGroup,
            g_assemblyLocation scriptGroup) of
        (Some assemblyName, Some assemblyClassName, Some assemblyLocation) \<Rightarrow>
          and_then
            (case map_of (ps_dict s) (g_groupName scriptGroup) of
               None \<Rightarrow>
                 and_then
                   (add_item s (new_item (g_groupName scriptGroup) PushButtonItem assemblyLocation
                                  (assemblyName @ ''.'' @ assemblyClassName)))
                   (\<lambda>s. Inr (s\<lparr>newbuttoncount := newbuttoncount s + 1\<rparr>))
             | Some h \<Rightarrow>
                 update_pushbutton_item
                   (s\<lparr>ps_dict := AList.delete (g_groupName scriptGroup) (ps_dict s)\<rparr>) h
                   assemblyLocation (assemblyName @ ''.'' @ assemblyClassName))
            (\<lambda>s. if \<not> g_buttonIcons scriptGroup then Inl (AttributeError, s) else Inr s)
      | _ \<Rightarrow> Inl (TypeError, s))"

text \<open>
  The body of the loop over the groups of a panel: the chain of \<open>if\<close> and \<open>elif\<close>,
  for the group at position \<open>g\<close>.
\<close>

definition group_pass :: "string \<Rightarrow> pass_state \<Rightarrow> nat \<Rightarrow> pass_state result" where
  "group_pass newAssemblyLocation s g =
     (let scriptGroup = ps_groups s ! g
      in if g_groupType scriptGroup = Some pulldownButtonTypeName
            \<or> g_groupType scriptGroup = Some splitButtonTypeName
            \<or> g_groupType scriptGroup = Some splitPushButtonTypeName
         then group_branch newAssemblyLocation s scriptGroup
         else if g_groupType scriptGroup = Some stackedThreeTypeName
         then stacked_branch newAssemblyLocation s scriptGroup
         else if g_groupType scriptGroup = Some pushButtonTypeName \<and> \<not> islinkbutton scriptGroup
         then Inr (pushbutton_branch newAssemblyLocation s g)
         else if g_groupType scriptGroup = Some smartButtonTypeName \<and> \<not> islinkbutton scriptGroup
         then Inr (smartbutton_branch newAssemblyLocation s g)
         else if g_groupType scriptGroup = Some linkButtonTypeName \<and> islinkbutton scriptGroup
         then link_branch s scriptGroup
         else Inr s)"

fun groups_loop :: "string \<Rightarrow> pass_state \<Rightarrow> nat list \<Rightarrow> pass_state result" where
  "groups_loop newAssemblyLocation s [] = Inr s"
| "groups_loop newAssemblyLocation s (g # rest) =
     and_then (group_pass newAssemblyLocation s g)
       (\<lambda>s. groups_loop newAssemblyLocation s rest)"

fun disable_items :: "pass_state \<Rightarrow> (string \<times> nat) list \<Rightarrow> pass_state" where
  "disable_items s [] = s"
| "disable_items s ((orphanedRibbonItemName, h) # rest) =
     disable_items
       (s\<lparr>ps_items := (ps_items s)[h := (ps_items s ! h)\<lparr>i_Enabled := False\<rparr>],
          ps_log := ps_log s @ [DisableItem orphanedRibbonItemName]\<rparr>)
       rest"

text \<open>
  The pass over one panel: \<open>items\<close> are the items of the live panel, \<open>buttons\<close> the
  references the tab holds for the panel (\<open>pyRevitUIButtons\<close>), \<open>new\<close> and \<open>updated\<close>
  the two counters as they stand. The loop goes over the groups in the order of
  \<open>get_sorted_scriptgroups\<close>, each taken by reference.
\<close>

definition sorted_refs :: "('a \<Rightarrow> int) \<Rightarrow> 'a list \<Rightarrow> nat list" where
  "sorted_refs key xs = sort_key (\<lambda>i. key (xs ! i)) [0..<length xs]"

definition panel_pass ::
  "string \<Rightarrow> RibbonItem list \<Rightarrow> nat list \<Rightarrow> nat \<Rightarrow> nat \<Rightarrow> ScriptPanel \<Rightarrow> pass_state result" where
  "panel_pass newAssemblyLocation items buttons new updated scriptPanel =
     and_then
       (groups_loop newAssemblyLocation
          \<lparr>ps_groups = p_scriptGroups scriptPanel, ps_items = items,
           ps_dict = dict_of i_Name items buttons, newbuttoncount = new,
           updatedbuttoncount = updated, ps_log = []\<rparr>
          (sorted_refs g_groupOrder (p_scriptGroups scriptPanel)))
       (\<lambda>s. Inr (disable_items s (ps_dict s)))"

subsection \<open>Tabs and panels\<close>

definition ribbon_panels :: "ribbon \<Rightarrow> string \<Rightarrow> RibbonPanel list" where
  "ribbon_panels r tabName = (case map_of r tabName of None \<Rightarrow> [] | Some panels \<Rightarrow> panels)"

record find_state =
  fs_tab :: ScriptTab
  fs_ribbon :: ribbon
  fs_log :: "ribbon_op list"

text \<open>
  The loop over the panels of a tab in \<open>create_or_find_pyrevit_panels\<close>:
  \<open>pyrevitribbonpanels\<close> is the dict of the panels the live tab had when the loop
  began. \<open>CreateRibbonPanel\<close> raises when the live tab has a panel of that name.
\<close>

definition find_panel_step :: "(string \<times> nat) list \<Rightarrow> find_state \<Rightarrow> ScriptPanel \<Rightarrow> find_state result" where
  "find_panel_step pyrevitribbonpanels s panel =
     (let scriptTab = fs_tab s;
          live = ribbon_panels (fs_ribbon s) (t_tabName scriptTab)
      in case map_of pyrevitribbonpanels (p_panelName panel) of
           Some h \<Rightarrow>
             Inr (s\<lparr>fs_tab := scriptTab
                       \<lparr>t_pyRevitUIPanels :=
                          AList.update (p_panelName panel) h (t_pyRevitUIPanels scriptTab),
                        t_pyRevitUIButtons :=
                          AList.update (p_panelName panel) [0..<length (rp_items (live ! h))]
                            (t_pyRevitUIButtons scriptTab)\<rparr>\<rparr>)
         | None \<Rightarrow>
             if p_panelName panel \<in> set (map rp_Name live) then Inl (RevitException, s)
             else
               Inr (s\<lparr>fs_tab := scriptTab
                         \<lparr>t_pyRevitUIPanels :=
                            AList.update (p_panelName panel) (length live)
                              (t_pyRevitUIPanels scriptTab),
                          t_pyRevitUIButtons :=
                            AList.update (p_panelName panel) [] (t_pyRevitUIButtons scriptTab)\<rparr>,
                       fs_ribbon := AList.update (t_tabName scriptTab)
                            (live @ [\<lparr>rp_Name = p_panelName panel, rp_items = []\<rparr>]) (fs_ribbon s),
                       fs_log := fs_log s
                            @ [CreateRibbonPanel (t_tabName scriptTab) (p_panelName panel)]\<rparr>))"

fun find_panels_loop ::
  "(string \<times> nat) list \<Rightarrow> find_state \<Rightarrow> ScriptPanel list \<Rightarrow> find_state result" where
  "find_panels_loop pyrevitribbonpanels s [] = Inr s"
| "find_panels_loop pyrevitribbonpanels s (panel # rest) =
     and_then (find_panel_step pyrevitribbonpanels s panel)
       (\<lambda>s. find_panels_loop pyrevitribbonpanels s rest)"

text \<open>
  The body of the loop over the tabs: a tab without commands is skipped; for the
  others \<open>CreateRibbonTab\<close> is tried, which raises when the ribbon has the tab, and
  then the panels the live tab has are collected.
\<close>

definition create_or_find_tab :: "ribbon \<Rightarrow> ribbon_op list \<Rightarrow> ScriptTab \<Rightarrow> find_state result" where
  "create_or_find_tab r log scriptTab =
     (if hascommands scriptTab then
        (case map_of r (t_tabName scriptTab) of
           None \<Rightarrow>
             find_panels_loop []
               \<lparr>fs_tab = scriptTab, fs_ribbon = r @ [(t_tabName scriptTab, [])],
                fs_log = log @ [CreateRibbonTab (t_tabName scriptTab)]\<rparr>
               (get_sorted_scriptpanels scriptTab)
         | Some panels \<Rightarrow>
             find_panels_loop (dict_of rp_Name panels [0..<length panels])
               \<lparr>fs_tab = scriptTab, fs_ribbon = r, fs_log = log\<rparr>
               (get_sorted_scriptpanels scriptTab))
      else Inr \<lparr>fs_tab = scriptTab, fs_ribbon = r, fs_log = log\<rparr>)"

record ui_state =
  ui_tabs :: "ScriptTab list"
  ui_ribbon :: ribbon
  ui_new :: nat
  ui_updated :: nat
  ui_log :: "ribbon_op list"

fun create_or_find_pyrevit_panels :: "ui_state \<Rightarrow> ScriptTab list \<Rightarrow> ui_state result" where
  "create_or_find_pyrevit_panels s [] = Inr s"
| "create_or_find_pyrevit_panels s (scriptTab # rest) =
     (case create_or_find_tab (ui_ribbon s) (ui_log s) scriptTab of
        Inl (e, f) \<Rightarrow>
          Inl (e, s\<lparr>ui_tabs := ui_tabs s @ fs_tab f # rest, ui_ribbon := fs_ribbon f,
                    ui_log := fs_log f\<rparr>)
      | Inr f \<Rightarrow>
          create_or_find_pyrevit_panels
            (s\<lparr>ui_tabs := ui_tabs s @ [fs_tab f], ui_ribbon := fs_ribbon f, ui_log := fs_log f\<rparr>)
            rest)"

text \<open>
  \<open>createui\<close>: for every tab (with or without commands) and every panel of it, the
  references the tab holds are looked up (a \<open>KeyError\<close> when the tab holds none for
  the panel), the pass over the panel is made, and what it did is written to the
  live panel. A tab is referred to by its position \<open>t\<close> among the tabs of the
  session, a panel by its position \<open>p\<close> among the panels of its tab; the groups as
  the pass left them are the groups of the panel from then on.
\<close>

definition commit_panel :: "ui_state \<Rightarrow> nat \<Rightarrow> nat \<Rightarrow> nat \<Rightarrow> pass_state \<Rightarrow> ui_state" where
  "commit_panel s t p h ps =
     (let scriptTab = ui_tabs s ! t;
          scriptPanel = t_scriptPanels scriptTab ! p;
          tabName = t_tabName scriptTab
      in s\<lparr>ui_tabs := (ui_tabs s)
              [t := scriptTab\<lparr>t_scriptPanels := (t_scriptPanels scriptTab)
                                 [p := scriptPanel\<lparr>p_scriptGroups := ps_groups ps\<rparr>]\<rparr>],
            ui_ribbon := AList.update tabName
              ((ribbon_panels (ui_ribbon s) tabName)
                 [h := (ribbon_panels (ui_ribbon s) tabName ! h)\<lparr>rp_items := ps_items ps\<rparr>])
              (ui_ribbon s),
            ui_new := newbuttoncount ps,
            ui_updated := updatedbuttoncount ps,
            ui_log := ui_log s @ map (PanelOp tabName (p_panelName scriptPanel)) (ps_log ps)\<rparr>)"

definition createui_panel :: "string \<Rightarrow> nat \<Rightarrow> ui_state \<Rightarrow> nat \<Rightarrow> ui_state result" where
  "createui_panel newAssemblyLocation t s p =
     (let scriptTab = ui_tabs s ! t;
          scriptPanel = t_scriptPanels scriptTab ! p
      in case map_of (t_pyRevitUIPanels scriptTab) (p_panelName scriptPanel) of
           None \<Rightarrow> Inl (KeyError, s)
         | Some h \<Rightarrow>
             (case map_of (t_pyRevitUIButtons scriptTab) (p_panelName scriptPanel) of
                None \<Rightarrow> Inl (KeyError, s)
              | Some buttons \<Rightarrow>
                  (case panel_pass newAssemblyLocation
                          (rp_items (ribbon_panels (ui_ribbon s) (t_tabName scriptTab) ! h))
                          buttons (ui_new s) (ui_updated s) scriptPanel of
                     Inl (e, ps) \<Rightarrow> Inl (e, commit_panel s t p h ps)
                   | Inr ps \<Rightarrow> Inr (commit_panel s t p h ps))))"

fun createui_panels :: "string \<Rightarrow> nat \<Rightarrow> ui_state \<Rightarrow> nat list \<Rightarrow> ui_state result" where
  "createui_panels newAssemblyLocation t s [] = Inr s"
| "createui_panels newAssemblyLocation t s (p # rest) =
     and_then (createui_panel newAssemblyLocation t s p)
       (\<lambda>s. createui_panels newAssemblyLocation t s rest)"

definition createui_tab :: "string \<Rightarrow> ui_state \<Rightarrow> nat \<Rightarrow> ui_state result" where
  "createui_tab newAssemblyLocation s t =
     createui_panels newAssemblyLocation t s
       (sorted_refs p_panelOrder (t_scriptPanels (ui_tabs s ! t)))"

fun createui_tabs :: "string \<Rightarrow> ui_state \<Rightarrow> nat list \<Rightarrow> ui_state result" where
  "createui_tabs newAssemblyLocation s [] = Inr s"
| "createui_tabs newAssemblyLocation s (t # rest) =
     and_then (createui_tab newAssemblyLocation s t)
       (\<lambda>s. createui_tabs newAssemblyLocation s rest)"

definition createui :: "string \<Rightarrow> ui_state \<Rightarrow> ui_state result" where
  "createui newAssemblyLocation s =
     createui_tabs newAssemblyLocation (s\<lparr>ui_new := 0, ui_updated := 0\<rparr>)
       [0..<length (ui_tabs s)]"

text \<open>
  \<open>createpyrevitui\<close>, the whole pass: the tabs of the session as discovery left them,
  against the ribbon as it is.
\<close>

definition createpyrevitui :: "string \<Rightarrow> ScriptTab list \<Rightarrow> ribbon \<Rightarrow> ui_state result" where
  "createpyrevitui newAssemblyLocation tabs r =
     and_then
       (create_or_find_pyrevit_panels
          \<lparr>ui_tabs = [], ui_ribbon = r, ui_new = 0, ui_updated = 0, ui_log = []\<rparr> tabs)
       (createui newAssemblyLocation)"

text \<open>
  What a pass leaves to be seen: the exception it ended with, if any, the ribbon, the
  two counters and what was done.
\<close>

definition pass_outcome ::
  "ui_state result \<Rightarrow> error option \<times> ribbon \<times> nat \<times> nat \<times> ribbon_op list" where
  "pass_outcome r =
     (case r of
        Inl (e, s) \<Rightarrow> (Some e, ui_ribbon s, ui_new s, ui_updated s, ui_log s)
      | Inr s \<Rightarrow> (None, ui_ribbon s, ui_new s, ui_updated s, ui_log s))"

text \<open>
  \<open>PyRevitUISession.__init__\<close> from discovery on: the tree is discovered and the pass
  is made with the tabs found (the assembly made in between is given by its location).
\<close>

definition session_ui ::
  "Assembly list \<Rightarrow> string \<Rightarrow> fsnode list \<Rightarrow> string \<Rightarrow> fsnode list \<Rightarrow> string \<Rightarrow> ribbon
     \<Rightarrow> error + ui_state result" where
  "session_ui loaded loaderDir loaderEntries homeDir homeEntries newAssemblyLocation r =
     (case discover loaded loaderDir loaderEntries homeDir homeEntries of
        Inl e \<Rightarrow> Inl e
      | Inr self \<Rightarrow> Inr (createpyrevitui newAssemblyLocation (pyRevitScriptTabs self) r))"

section \<open>What a pass builds\<close>

text \<open>
  The vocabulary of the idempotence property: which branch of the loop body a group
  takes, under which names its items are looked up in the panel, how many new buttons
  the pass counts for it when none is found, and the items a pass adds to an empty
  panel for it.
\<close>

datatype branch = GroupBranch | StackedBranch | PushBranch | SmartBranch | LinkBranch | NoBranch

definition branch_of :: "ScriptGroup \<Rightarrow> branch" where
  "branch_of g =
     (if g_groupType g = Some pulldownButtonTypeName \<or> g_groupType g = Some splitButtonTypeName
         \<or> g_groupType g = Some splitPushButtonTypeName then GroupBranch
      else if g_groupType g = Some stackedThreeTypeName then StackedBranch
      else if g_groupType g = Some pushButtonTypeName \<and> \<not> islinkbutton g then PushBranch
      else if g_groupType g = Some smartButtonTypeName \<and> \<not> islinkbutton g then SmartBranch
      else if g_groupType g = Some linkButtonTypeName \<and> islinkbutton g then LinkBranch
      else NoBranch)"

definition item_keys :: "ScriptGroup \<Rightarrow> string list" where
  "item_keys g =
     (case branch_of g of
        GroupBranch \<Rightarrow> [g_groupName g]
      | StackedBranch \<Rightarrow> map c_className (g_commands g)
      | PushBranch \<Rightarrow> (if g_commands g = [] then [] else [c_className (last (g_commands g))])
      | SmartBranch \<Rightarrow> (if g_commands g = [] then [] else [c_className (last (g_commands g))])
      | LinkBranch \<Rightarrow> [g_groupName g]
      | NoBranch \<Rightarrow> [])"

definition buttons_counted :: "ScriptGroup \<Rightarrow> nat" where
  "buttons_counted g =
     (case branch_of g of
        GroupBranch \<Rightarrow> length (g_commands g)
      | StackedBranch \<Rightarrow> length (g_commands g)
      | PushBranch \<Rightarrow> (if g_commands g = [] then 0 else 1)
      | SmartBranch \<Rightarrow> (if g_commands g = [] then 0 else 1)
      | LinkBranch \<Rightarrow> 1
      | NoBranch \<Rightarrow> 0)"

definition new_button :: "string \<Rightarrow> ScriptCommand \<Rightarrow> PushButton" where
  "new_button newAssemblyLocation cmd =
     \<lparr>b_Name = c_className cmd, b_ClassName = c_className cmd,
      b_AssemblyName = newAssemblyLocation, b_Enabled = True\<rparr>"

definition link_class :: "ScriptGroup \<Rightarrow> string" where
  "link_class g = (case (g_assemblyName g, g_assemblyClassName g) of
                     (Some a, Some c) \<Rightarrow> a @ ''.'' @ c | _ \<Rightarrow> [])"

definition link_location :: "ScriptGroup \<Rightarrow> string" where
  "link_location g = (case g_assemblyLocation g of Some l \<Rightarrow> l | None \<Rightarrow> [])"

definition built_items :: "string \<Rightarrow> ScriptGroup \<Rightarrow> RibbonItem list" where
  "built_items newAssemblyLocation g =
     (case branch_of g of
        GroupBranch \<Rightarrow>
          [(new_item (g_groupName g) (group_item_kind g) [] [])
             \<lparr>i_IsSynchronizedWithCurrentItem := (g_groupType g \<noteq> Some splitPushButtonTypeName),
              i_items := map (new_button newAssemblyLocation) (g_commands g)\<rparr>]
      | StackedBranch \<Rightarrow>
          map (\<lambda>cmd. new_item (c_className cmd) PushButtonItem newAssemblyLocation (c_className cmd))
            (g_commands g)
      | PushBranch \<Rightarrow>
          (if g_commands g = [] then []
           else [new_item (c_className (last (g_commands g))) PushButtonItem newAssemblyLocation
                   (c_className (last (g_commands g)))])
      | SmartBranch \<Rightarrow>
          (if g_commands g = [] then []
           else [new_item (c_className (last (g_commands g))) PushButtonItem newAssemblyLocation
                   (c_className (last (g_commands g)))])
      | LinkBranch \<Rightarrow> [new_item (g_groupName g) PushButtonItem (link_location g) (link_class g)]
      | NoBranch \<Rightarrow> [])"

text \<open>
  The trees the idempotence property is about. A group of the pulldown and split branch
  has icons and commands of distinct class names; a group of three stacked buttons has
  exactly three commands, and icons of its own or on every command; a link group names
  a class and a location and has icons. In a panel no name is asked for twice; in a
  tab no panel name occurs twice; no tab name occurs twice; and every tab has a command
  (or no panel at all).
\<close>

definition wf_group :: "ScriptGroup \<Rightarrow> bool" where
  "wf_group g =
     (case branch_of g of
        GroupBranch \<Rightarrow> g_buttonIcons g \<and> distinct (map c_className (g_commands g))
      | StackedBranch \<Rightarrow>
          length (g_commands g) = 3 \<and> (g_buttonIcons g \<or> list_all c_buttonIcons (g_commands g))
      | PushBranch \<Rightarrow> True
      | SmartBranch \<Rightarrow> True
      | LinkBranch \<Rightarrow>
          g_assemblyClassName g \<noteq> None \<and> g_assemblyLocation g \<noteq> None \<and> g_buttonIcons g
      | NoBranch \<Rightarrow> True)"

definition wf_panel :: "ScriptPanel \<Rightarrow> bool" where
  "wf_panel p =
     (list_all wf_group (get_sorted_scriptgroups p)
      \<and> distinct (concat (map item_keys (get_sorted_scriptgroups p))))"

definition wf_tab :: "ScriptTab \<Rightarrow> bool" where
  "wf_tab t =
     ((hascommands t \<or> t_scriptPanels t = [])
      \<and> list_all wf_panel (get_sorted_scriptpanels t)
      \<and> distinct (map p_panelName (get_sorted_scriptpanels t)))"

definition wf_tree :: "ScriptTab list \<Rightarrow> bool" where
  "wf_tree tabs = (list_all wf_tab tabs \<and> distinct (map t_tabName tabs))"

definition buttons_in_panel :: "ScriptPanel \<Rightarrow> nat" where
  "buttons_in_panel p = sum_list (map buttons_counted (get_sorted_scriptgroups p))"

definition buttons_in_tab :: "ScriptTab \<Rightarrow> nat" where
  "buttons_in_tab t = sum_list (map buttons_in_panel (get_sorted_scriptpanels t))"

definition buttons_in_tree :: "ScriptTab list \<Rightarrow> nat" where
  "buttons_in_tree tabs = sum_list (map buttons_in_tab tabs)"

text \<open>The items and the live panel a pass builds for a panel of the tree.\<close>

definition built_panel_items :: "string \<Rightarrow> ScriptPanel \<Rightarrow> RibbonItem list" where
  "built_panel_items newAssemblyLocation p =
     concat (map (built_items newAssemblyLocation) (get_sorted_scriptgroups p))"

definition built_panel :: "string \<Rightarrow> ScriptPanel \<Rightarrow> RibbonPanel" where
  "built_panel newAssemblyLocation p =
     \<lparr>rp_Name = p_panelName p, rp_items = built_panel_items newAssemblyLocation p\<rparr>"

definition empty_panel :: "ScriptPanel \<Rightarrow> RibbonPanel" where
  "empty_panel p = \<lparr>rp_Name = p_panelName p, rp_items = []\<rparr>"

text \<open>
  The state of a pass over a panel agrees with itself when no two items of the panel
  have a name in common and every reference in the dict is to the item of that name.
  An item fits a group when it has the kind the group's branch works on and, for a
  pulldown or split button, push buttons for exactly the classes of the group's
  commands. A group is present in a state when each of its names is still in the dict
  and the item of that name fits it.
\<close>

definition consistent :: "pass_state \<Rightarrow> bool" where
  "consistent s =
     (distinct (map i_Name (ps_items s))
      \<and> (\<forall>k h. map_of (ps_dict s) k = Some h \<longrightarrow>
            h < length (ps_items s) \<and> i_Name (ps_items s ! h) = k))"

definition item_ok :: "ScriptGroup \<Rightarrow> RibbonItem \<Rightarrow> bool" where
  "item_ok g it =
     (case branch_of g of
        GroupBranch \<Rightarrow>
          i_kind it = group_item_kind g
          \<and> b_ClassName ` set (i_items it) = c_className ` set (g_commands g)
      | NoBranch \<Rightarrow> True
      | _ \<Rightarrow> i_kind it = PushButtonItem)"

definition present :: "ScriptGroup \<Rightarrow> pass_state \<Rightarrow> bool" where
  "present g s =
     (\<forall>k \<in> set (item_keys g).
        k \<in> fst ` set (ps_dict s)
        \<and> (\<forall>it \<in> set (ps_items s). i_Name it = k \<longrightarrow> item_ok g it))"

text \<open>
  What a step on the names \<open>K\<close> may change: the entries of the dict for \<open>K\<close> go, the
  other entries stay; the items keep their names, and an item whose name is not in
  \<open>K\<close> stays as it is.
\<close>

definition frame :: "string set \<Rightarrow> pass_state \<Rightarrow> pass_state \<Rightarrow> bool" where
  "frame K s s' =
     (fst ` set (ps_dict s') = fst ` set (ps_dict s) - K
      \<and> (\<forall>k. k \<notin> K \<longrightarrow> map_of (ps_dict s') k = map_of (ps_dict s) k)
      \<and> map i_Name (ps_items s') = map i_Name (ps_items s)
      \<and> (\<forall>h < length (ps_items s). i_Name (ps_items s ! h) \<notin> K \<longrightarrow>
            ps_items s' ! h = ps_items s ! h))"


text \<open>
  A live tab holds a tab of the tree, with the items \<open>I\<close> gives for each panel, when
  it has a live panel for each panel of the tab, in sorted order, of the panel's name
  and with those items. A tab of the session is ready for the pass when, in addition,
  it is the tab of the tree with, for each panel, the reference to the live panel and
  the references to its items.
\<close>

definition ribbon_holds :: "(ScriptPanel \<Rightarrow> RibbonItem list) \<Rightarrow> ribbon \<Rightarrow> ScriptTab \<Rightarrow> bool" where
  "ribbon_holds I R T =
     (t_scriptPanels T \<noteq> [] \<longrightarrow>
        (\<exists>live. map_of R (t_tabName T) = Some live
           \<and> map rp_Name live = map p_panelName (get_sorted_scriptpanels T)
           \<and> map rp_items live = map I (get_sorted_scriptpanels T)))"

definition holds_refs :: "(ScriptPanel \<Rightarrow> RibbonItem list) \<Rightarrow> ScriptTab \<Rightarrow> ScriptTab \<Rightarrow> bool" where
  "holds_refs I T T' =
     (t_tabName T' = t_tabName T \<and> t_scriptPanels T' = t_scriptPanels T
      \<and> (\<forall>j < length (t_scriptPanels T).
            map_of (t_pyRevitUIPanels T') (p_panelName (get_sorted_scriptpanels T ! j)) = Some j
            \<and> map_of (t_pyRevitUIButtons T') (p_panelName (get_sorted_scriptpanels T ! j)) =
                Some [0..<length (I (get_sorted_scriptpanels T ! j))]))"


text \<open>
  A live tab answers a tab of the tree up to \<open>Q\<close> when it has a live panel for each
  panel of the tab, in sorted order and of the panel's name, whose items are as \<open>Q\<close>
  asks of the panel.
\<close>

definition ribbon_rel ::
  "(ScriptPanel \<Rightarrow> RibbonItem list \<Rightarrow> bool) \<Rightarrow> ribbon \<Rightarrow> ScriptTab \<Rightarrow> bool" where
  "ribbon_rel Q R T =
     (t_scriptPanels T \<noteq> [] \<longrightarrow>
        (\<exists>live. map_of R (t_tabName T) = Some live
           \<and> map rp_Name live = map p_panelName (get_sorted_scriptpanels T)
           \<and> (\<forall>j < length (t_scriptPanels T).
                 Q (get_sorted_scriptpanels T ! j) (rp_items (live ! j)))))"


text \<open>What is compared between two passes: the creations and the disablings of a pass.\<close>

definition creations :: "ui_state \<Rightarrow> ribbon_op list" where
  "creations s = filter creates (ui_log s)"

definition disablings :: "ui_state \<Rightarrow> ribbon_op list" where
  "disablings s = filter disables (ui_log s)"

text \<open>
  Two passes one after the other: the second is made with the same tree, on the ribbon
  the first has left.
\<close>

definition twice :: "string \<Rightarrow> string \<Rightarrow> ScriptTab list \<Rightarrow> ribbon \<Rightarrow> ui_state result" where
  "twice loc1 loc2 tabs r =
     and_then (createpyrevitui loc1 tabs r) (\<lambda>s1. createpyrevitui loc2 tabs (ui_ribbon s1))"

text \<open>
  A tree of one tab and one panel with a pulldown button of two commands, three stacked
  buttons and a push button; a tree with the push button alone; and a live tab whose
  panel holds one item that no group of the tree asks for.
\<close>

definition example_tree :: "ScriptTab list" where
  "example_tree =
     [example_tab [example_panel
        [example_group ''G'' ''PulldownButton''
           [example_command ''G_a.py'' ''XGa'', example_command ''G_b.py'' ''XGb''],
         example_group ''S'' ''Stack3''
           [example_command ''S_a.py'' ''XSa'', example_command ''S_b.py'' ''XSb'',
            example_command ''S_c.py'' ''XSc''],
         example_group ''B'' ''PushButton'' [example_command ''B_a.py'' ''XBa'']]]]"

definition small_tree :: "ScriptTab list" where
  "small_tree =
     [example_tab [example_panel
        [example_group ''B'' ''PushButton'' [example_command ''B_a.py'' ''XBa'']]]]"

definition ribbon_with_orphan :: ribbon where
  "ribbon_with_orphan =
     [(''X'', [\<lparr>rp_Name = ''P'', rp_items = [new_item ''Old'' PushButtonItem ''dll0'' ''Old'']\<rparr>])]"

section \<open>Properties of identifier decoding\<close>















text \<open>
  C4, where the code departs from the claim: the icon file \<open>10_a_b_c_d.png\<close>, whose
  base name has five tokens. The group constructor has a branch for four or six tokens
  and one for three, and no \<open>else\<close>: with five tokens neither runs, and the
  constructor returns a group (with no type, an empty name and order 0) instead of
  raising \<open>UnknownFileNameFormat\<close>. The panel constructor and the command
  constructor have the \<open>else\<close> and raise on a name of five tokens.
\<close>

theorem decode_group_five_tokens_no_error:
  "ScriptGroup_init (files_in ''dir'' [File ''10_a_b_c_d.png'' 0]) [] ''dir'' ''10_a_b_c_d.png''
     ''Tab'' [] =
     Inr \<lparr>g_commands = [], g_sourceDir = ''dir'', g_sourceFile = ''10_a_b_c_d.png'',
          g_sourceFileName = ''10_a_b_c_d'', g_sourceFileExt = ''.png'', g_groupOrder = 0,
          g_panelName = [], g_groupType = None, g_groupName = [], g_buttonIcons = False,
          g_assemblyName = None, g_assemblyClassName = None, g_assemblyLocation = None,
          g_tabName = ''Tab''\<rparr>
   \<and> ScriptPanel_init ''dir'' ''100_a_b_c_d.png'' ''Tab'' False = Inl UnknownFileNameFormat
   \<and> ScriptCommand_init (files_in ''dir'' [File ''a_b_c_d_e.py'' 0]) ''dir'' ''a_b_c_d_e.py'' ''Tab'' =
     Inl UnknownFileNameFormat"
  by code_simp

section \<open>Properties of the content hash cache\<close>

lemma files_loop_sum:
  "files_loop s files =
     s + sum_list (map snd (filter (\<lambda>(filename, modtime). patfile_search filename) files))"
  by (induction files arbitrary: s) auto

lemma walk_loop_sum: "walk_loop s w = s + fingerprint_sum w"
proof (induction w arbitrary: s)
  case Nil
  then show ?case by (simp add: fingerprint_sum_def)
next
  case (Cons x w)
  obtain root mtime files where x: "x = (root, mtime, files)"
    by (cases x) auto
  show ?case
    using Cons.IH [of "if pat_search root then files_loop (s + mtime) files else s"]
    by (simp add: x fingerprint_sum_def files_loop_sum)
qed

text \<open>
  The hash is taken of the sum the specification describes (with "matches" read as the
  source's two unanchored, case-blind searches).
\<close>

lemma calculate_hash_is_fingerprint:
  "calculate_hash md5_hexdigest tabFolder mtime entries =
     md5_hexdigest (fingerprint_sum (walk tabFolder mtime entries))"
  by (simp add: calculate_hash_def mtime_sum_of_def walk_loop_sum)

text \<open>A file whose name does not contain \<open>.py\<close> adds nothing to the sum.\<close>

lemma files_loop_skips:
  "\<not> patfile_search filename \<Longrightarrow>
     files_loop s (pre @ (filename, m) # post) = files_loop s (pre @ (filename, m') # post)"
  by (simp add: files_loop_sum)

lemma get_cached_tab_accepts_iff:
  "get_cached_tab running load_from_cache tabHash cf = Inr t \<longleftrightarrow>
     (\<exists>d. cf = Parsed d \<and> map_of d ''tabHash'' = Some (JStr tabHash)
          \<and> map_of d ''cacheVersion'' = Some (JStr running) \<and> load_from_cache d = Inr t)"
  by (cases cf)
    (auto simp add: get_cached_tab_def read_cache_for_def get_cached_tab_body_def
      split: option.splits sum.splits if_splits)

lemma get_cached_tab_errors:
  "get_cached_tab running load_from_cache tabHash cf = Inl e \<Longrightarrow>
     e = PyRevitCacheReadError \<or> e = PyRevitCacheError"
  by (cases cf)
    (auto simp add: get_cached_tab_def read_cache_for_def split: sum.splits)

lemma is_cache_valid_cases: "is_cache_valid pkg_info = (pkg_info = [])"
  by (cases pkg_info) (simp_all add: is_cached_tab_valid_def)

lemma load_package_cases:
  "load_package env st pkg_info =
     (if pkg_info = [] then Inr (st\<lparr>calls := calls st @ [CreateAssembly None]\<rparr>)
      else
        (case update_cache env (get_parsed_package env pkg_info)
                (st\<lparr>calls := calls st @ [GetParsedPackage pkg_info]\<rparr>) of
           Inl x \<Rightarrow> Inl x
         | Inr st' \<Rightarrow>
             Inr (st'\<lparr>calls := calls st'
                        @ [CreateAssembly (Some (get_parsed_package env pkg_info))]\<rparr>)))"
  by (simp add: load_package_def is_cache_valid_cases Let_def)

text \<open>
  C10: \<open>is_cached_tab_valid\<close> returns \<open>None\<close> for every tab, so \<open>is_cache_valid\<close> is
  true exactly for a package with no tab. For a package with a tab, whatever the cache
  holds, \<open>load\<close> calls the parser and then \<open>update_cache\<close> on what the parser
  returned, and goes on to the assembly and the next package only if \<open>update_cache\<close>
  returns; it takes the cached branch (no parse, no write, the assembly made from
  \<open>None\<close>) only for a package with no tab. \<open>update_cache\<close> writes the cache file
  of a package that is not marked as loaded from the cache; so when the parsed package
  is not so marked and the file can be written, \<open>load\<close> of the one package returns
  with the serialized package in the cache file, after exactly the calls to the parser
  and to the assembly maker.
\<close>

theorem load_parses_and_writes_unless_package_empty:
  "is_cached_tab_valid cached_tab = PyNone
   \<and> is_cache_valid pkg_info = (pkg_info = [])
   \<and> load env st (pkg_info # rest) =
       (if pkg_info = [] then load env (st\<lparr>calls := calls st @ [CreateAssembly None]\<rparr>) rest
        else
          (case update_cache env (get_parsed_package env pkg_info)
                  (st\<lparr>calls := calls st @ [GetParsedPackage pkg_info]\<rparr>) of
             Inl x \<Rightarrow> Inl x
           | Inr st' \<Rightarrow>
               load env
                 (st'\<lparr>calls := calls st'
                        @ [CreateAssembly (Some (get_parsed_package env pkg_info))]\<rparr>)
                 rest))
   \<and> (pkg_info \<noteq> [] \<and> \<not> pk_loaded_from_cache (get_parsed_package env pkg_info)
        \<and> opens_for_writing env (get_cache_file env (get_parsed_package env pkg_info))
        \<and> serialize env (get_parsed_package env pkg_info) = Some contents \<longrightarrow>
      load env st [pkg_info] =
        Inr \<lparr>cache_files =
               AList.update (get_cache_file env (get_parsed_package env pkg_info)) contents
                 (cache_files st),
             calls = calls st @ [GetParsedPackage pkg_info,
                                 CreateAssembly (Some (get_parsed_package env pkg_info))]\<rparr>)"
proof (intro conjI impI)
  show "is_cached_tab_valid cached_tab = PyNone"
    by (simp add: is_cached_tab_valid_def)
next
  show "is_cache_valid pkg_info = (pkg_info = [])"
    by (rule is_cache_valid_cases)
next
  show "load env st (pkg_info # rest) =
       (if pkg_info = [] then load env (st\<lparr>calls := calls st @ [CreateAssembly None]\<rparr>) rest
        else
          (case update_cache env (get_parsed_package env pkg_info)
                  (st\<lparr>calls := calls st @ [GetParsedPackage pkg_info]\<rparr>) of
             Inl x \<Rightarrow> Inl x
           | Inr st' \<Rightarrow>
               load env
                 (st'\<lparr>calls := calls st'
                        @ [CreateAssembly (Some (get_parsed_package env pkg_info))]\<rparr>)
                 rest))"
    by (simp add: load_package_cases split: sum.splits)
next
  assume "pkg_info \<noteq> [] \<and> \<not> pk_loaded_from_cache (get_parsed_package env pkg_info)
        \<and> opens_for_writing env (get_cache_file env (get_parsed_package env pkg_info))
        \<and> serialize env (get_parsed_package env pkg_info) = Some contents"
  then show "load env st [pkg_info] =
        Inr \<lparr>cache_files =
               AList.update (get_cache_file env (get_parsed_package env pkg_info)) contents
                 (cache_files st),
             calls = calls st @ [GetParsedPackage pkg_info,
                                 CreateAssembly (Some (get_parsed_package env pkg_info))]\<rparr>"
    by (simp add: load_package_cases update_cache_def write_cache_for_def)
qed

theorem load_parses_and_writes_unless_package_empty_witness:
  "[Component ''h'' []] \<noteq> []
   \<and> \<not> pk_loaded_from_cache (get_parsed_package example_environment [Component ''h'' []])
   \<and> opens_for_writing example_environment
       (get_cache_file example_environment
          (get_parsed_package example_environment [Component ''h'' []]))
   \<and> serialize example_environment (get_parsed_package example_environment [Component ''h'' []])
       = Some (''{'' @ [CHR 0x0A] @ ''    '' @ [CHR 0x22] @ ''cacheVersion'' @ [CHR 0x22] @ '': ''
               @ [CHR 0x22] @ ''4.0'' @ [CHR 0x22] @ '', }'')
   \<and> load example_environment \<lparr>cache_files = [], calls = []\<rparr> [[Component ''h'' []]] =
       Inr \<lparr>cache_files =
              [(''tmp'' @ [backslash] @ ''pyRevit_cache_X.json'',
                ''{'' @ [CHR 0x0A] @ ''    '' @ [CHR 0x22] @ ''cacheVersion'' @ [CHR 0x22] @ '': ''
                @ [CHR 0x22] @ ''4.0'' @ [CHR 0x22] @ '', }'')],
            calls = [GetParsedPackage [Component ''h'' []],
                     CreateAssembly (Some \<lparr>pk_name = ''X'', pk_tabName = ''X'',
                                            pk_loaded_from_cache = False\<rparr>)]\<rparr>"
proof -
  let ?contents = "''{'' @ [CHR 0x0A] @ ''    '' @ [CHR 0x22] @ ''cacheVersion'' @ [CHR 0x22]
               @ '': '' @ [CHR 0x22] @ ''4.0'' @ [CHR 0x22] @ '', }''"
  note inst = load_parses_and_writes_unless_package_empty
    [where env = example_environment and pkg_info = "[Component ''h'' []]"
       and st = "\<lparr>cache_files = [], calls = []\<rparr>" and contents = ?contents,
     THEN conjunct2, THEN conjunct2, THEN conjunct2]
  have hyps: "[Component ''h'' []] \<noteq> []
      \<and> \<not> pk_loaded_from_cache (get_parsed_package example_environment [Component ''h'' []])
      \<and> opens_for_writing example_environment
          (get_cache_file example_environment
             (get_parsed_package example_environment [Component ''h'' []]))
      \<and> serialize example_environment (get_parsed_package example_environment [Component ''h'' []])
          = Some ?contents"
    by (simp add: example_environment_def serialize_def)
  from mp [OF inst hyps]
  have "load example_environment \<lparr>cache_files = [], calls = []\<rparr> [[Component ''h'' []]] =
       Inr \<lparr>cache_files = [(''tmp'' @ [backslash] @ ''pyRevit_cache_X.json'', ?contents)],
            calls = [GetParsedPackage [Component ''h'' []],
                     CreateAssembly (Some \<lparr>pk_name = ''X'', pk_tabName = ''X'',
                                            pk_loaded_from_cache = False\<rparr>)]\<rparr>"
    by (simp add: example_environment_def get_cache_file_def join_def)
  with hyps show ?thesis
    by simp
qed

text \<open>
  C5, where the code departs from the claim: a package with one tab whose cache file
  holds the running version and the tab's current hash. \<open>get_cached_tab\<close> would load
  the snapshot, but \<open>load\<close> never reaches it: \<open>is_cache_valid\<close> is false, the package
  is parsed in full and the cache rewritten.
\<close>

theorem valid_snapshot_not_used_by_load:
  "get_cached_tab ''4.0'' (\<lambda>d. Inr d) ''h''
      (Parsed [(''cacheVersion'', JStr ''4.0''), (''tabHash'', JStr ''h'')]) =
     Inr [(''cacheVersion'', JStr ''4.0''), (''tabHash'', JStr ''h'')]
   \<and> load example_environment
       \<lparr>cache_files = [(''tmp'' @ [backslash] @ ''pyRevit_cache_X.json'', ''snapshot'')],
        calls = []\<rparr>
       [[Component ''h'' []]] =
     Inr \<lparr>cache_files =
            [(''tmp'' @ [backslash] @ ''pyRevit_cache_X.json'',
              ''{'' @ [CHR 0x0A] @ ''    '' @ [CHR 0x22] @ ''cacheVersion'' @ [CHR 0x22] @ '': ''
              @ [CHR 0x22] @ ''4.0'' @ [CHR 0x22] @ '', }'')],
          calls = [GetParsedPackage [Component ''h'' []],
                   CreateAssembly (Some \<lparr>pk_name = ''X'', pk_tabName = ''X'',
                                          pk_loaded_from_cache = False\<rparr>)]\<rparr>"
  by (simp add: get_cached_tab_def read_cache_for_def get_cached_tab_body_def load_package_cases
      update_cache_def write_cache_for_def example_environment_def serialize_def
      get_cache_file_def join_def)

text \<open>
  C6, where the code departs from the claim: a tab folder \<open>X.tab\<close> that holds the one
  image file \<open>a.py.png\<close>. The unanchored file pattern finds \<open>.py\<close> in the name, the
  file's modification time is added, and an edit of the image alone (its time going
  from 5 to 6) changes the sum that is hashed.
\<close>

theorem image_file_changes_fingerprint_sum:
  "mtime_sum_of ''X.tab'' 100 [File ''a.py.png'' 5] = 105
   \<and> mtime_sum_of ''X.tab'' 100 [File ''a.py.png'' 6] = 106"
  by code_simp

section \<open>Properties of tree discovery\<close>


















text \<open>
  C2, where the code departs from the claim: a tab folder \<open>X.tab\<close> that holds the icon
  file \<open>10_MyPanel_PullDown_MyGroup.png\<close>, beside a well-formed tab \<open>Y.tab\<close>. The
  group constructor raises \<open>ValueError\<close> on the icon's name; \<open>find_scriptgroups\<close>
  catches only \<open>UnknownFileNameFormat\<close> and \<open>UnknownAssembly\<close>, so the exception
  leaves it, \<open>find_scriptpanels\<close> and \<open>find_scripttabs\<close>: the walk stops and no tab
  is discovered, where \<open>find_scriptcommands\<close> skips an entry on every exception.
\<close>

theorem malformed_icon_name_aborts_discovery:
  "discover [] ''L'' [File ''__init__.py'' 0] ''H''
     [Dir ''X.tab'' 0 [File ''10_MyPanel_PullDown_MyGroup.png'' 0],
      Dir ''Y.tab'' 0 [Dir ''A.panel'' 0 [File ''G_a.py'' 0, File ''10_PulldownButton_G.png'' 0]]] =
     Inl ValueError"
  by code_simp

text \<open>
  C8, where the code departs from the claim: a tab folder with the two bundled panels
  \<open>A.panel\<close> and \<open>B.panel\<close>. A bundled panel has order 0, the sort by order is
  stable, and only \<open>find_scriptcommands\<close> sorts the directory listing: the panels of
  the tab come out in the order the listing gives them.
\<close>

theorem panel_sequence_follows_listing_order:
  "map_sum id sorted_panel_names
     (discover [] ''L'' [] ''H'' [Dir ''X.tab'' 0 [Dir ''A.panel'' 0 [], Dir ''B.panel'' 0 []]]) =
     Inr [(''X'', [''A'', ''B''])]
   \<and> map_sum id sorted_panel_names
     (discover [] ''L'' [] ''H'' [Dir ''X.tab'' 0 [Dir ''B.panel'' 0 [], Dir ''A.panel'' 0 []]]) =
     Inr [(''X'', [''B'', ''A''])]"
  by code_simp

section \<open>Properties of the ribbon pass\<close>

lemma map_insort_key:
  "map f (insort_key (\<lambda>i. key (f i)) x xs) = insort_key key (f x) (map f xs)"
  by (induction xs) simp_all

lemma map_sort_key: "map f (sort_key (\<lambda>i. key (f i)) xs) = sort_key key (map f xs)"
  by (induction xs) (simp_all add: map_insort_key)

text \<open>
  The references the pass goes over are the elements of the sorted list: the loop over
  the groups of a panel visits \<open>get_sorted_scriptgroups\<close>, the loop over the panels of
  a tab visits \<open>get_sorted_scriptpanels\<close>.
\<close>

lemma sorted_refs_groups:
  "map (\<lambda>i. p_scriptGroups p ! i) (sorted_refs g_groupOrder (p_scriptGroups p)) =
     get_sorted_scriptgroups p"
  by (simp add: sorted_refs_def get_sorted_scriptgroups_def map_sort_key map_nth)

lemma sorted_refs_panels:
  "map (\<lambda>i. t_scriptPanels t ! i) (sorted_refs p_panelOrder (t_scriptPanels t)) =
     get_sorted_scriptpanels t"
  by (simp add: sorted_refs_def get_sorted_scriptpanels_def map_sort_key map_nth)

text \<open>
  C9, where the code departs from the claim: a tab folder \<open>X.tab\<close> that holds the
  empty bundled panel \<open>A.panel\<close>, followed by a tab folder \<open>Y.tab\<close> whose panel
  \<open>A.panel\<close> holds the push button \<open>P\<close> with its script. 
  \<open>create_or_find_pyrevit_panels\<close> skips \<open>X\<close>, which has no command, and so
  records no live panel for it; \<open>createui\<close> does not ask whether a tab has commands,
  looks up the live panel of \<open>A\<close> in what \<open>X\<close> recorded and raises \<open>KeyError\<close>. The
  exception ends the pass: the tab and the panel of \<open>Y\<close> have been created, its
  button never is. With \<open>Y.tab\<close> alone the button is created.
\<close>

theorem tab_without_commands_aborts_pass:
  "map_sum id pass_outcome
     (session_ui [] ''L'' [] ''H''
        [Dir ''X.tab'' 0 [Dir ''A.panel'' 0 []],
         Dir ''Y.tab'' 0 [Dir ''A.panel'' 0 [File ''P_a.py'' 0, File ''30_PushButton_P.png'' 0]]]
        ''dll'' []) =
     Inr (Some KeyError, [(''Y'', [\<lparr>rp_Name = ''A'', rp_items = []\<rparr>])], 0, 0,
          [CreateRibbonTab ''Y'', CreateRibbonPanel ''Y'' ''A''])
   \<and> map_sum id pass_outcome
     (session_ui [] ''L'' [] ''H''
        [Dir ''Y.tab'' 0 [Dir ''A.panel'' 0 [File ''P_a.py'' 0, File ''30_PushButton_P.png'' 0]]]
        ''dll'' []) =
     Inr (None,
          [(''Y'', [\<lparr>rp_Name = ''A'',
                     rp_items = [\<lparr>i_Name = ''YPa'', i_kind = PushButtonItem, i_ClassName = ''YPa'',
                                   i_AssemblyName = ''dll'', i_Enabled = True,
                                   i_IsSynchronizedWithCurrentItem = True, i_items = []\<rparr>]\<rparr>])],
          1, 0,
          [CreateRibbonTab ''Y'', CreateRibbonPanel ''Y'' ''A'', PanelOp ''Y'' ''A'' (AddItem ''YPa'')])"
  by code_simp

section \<open>Idempotence of the ribbon pass\<close>

subsection \<open>dicts\<close>

lemma dict_of_snoc:
  "dict_of key xs (hs @ [h]) = AList.update (key (xs ! h)) h (dict_of key xs hs)"
  by (simp add: dict_of_def)

lemma dict_of_nil [simp]: "dict_of key xs [] = []"
  by (simp add: dict_of_def)

lemma dict_of_keys: "fst ` set (dict_of key xs hs) = (\<lambda>h. key (xs ! h)) ` set hs"
  by (induction hs rule: rev_induct) (auto simp add: dict_of_snoc dom_update)

lemma dict_of_all_keys: "fst ` set (dict_of key xs [0..<length xs]) = key ` set xs"
proof -
  have "(\<lambda>h. key (xs ! h)) ` set [0..<length xs] = key ` set xs"
    by (force simp add: in_set_conv_nth)
  then show ?thesis by (simp add: dict_of_keys)
qed

lemma dict_of_upto_lookup:
  "distinct (map key xs) \<Longrightarrow> n \<le> length xs \<Longrightarrow> h < n \<Longrightarrow>
     map_of (dict_of key xs [0..<n]) (key (xs ! h)) = Some h"
proof (induction n)
  case 0
  then show ?case by simp
next
  case (Suc n)
  have neq: "h < n \<Longrightarrow> key (xs ! h) \<noteq> key (xs ! n)"
    using Suc.prems by (auto simp add: distinct_conv_nth)
  show ?case
    using Suc neq by (cases "h = n") (auto simp add: dict_of_snoc update_conv')
qed

lemma dict_of_lookup:
  "distinct (map key xs) \<Longrightarrow> h < length xs \<Longrightarrow>
     map_of (dict_of key xs [0..<length xs]) (key (xs ! h)) = Some h"
  by (rule dict_of_upto_lookup) simp_all

lemma dict_of_range:
  "map_of (dict_of key xs hs) k = Some h \<Longrightarrow> h \<in> set hs \<and> key (xs ! h) = k"
  by (induction hs arbitrary: h rule: rev_induct)
    (auto simp add: dict_of_snoc update_conv' split: if_splits)

lemma in_keys_lookup: "k \<in> fst ` set d \<Longrightarrow> \<exists>h. map_of d k = Some h"
  by (cases "map_of d k") (simp_all add: map_of_eq_None_iff)

lemma keys_delete: "fst ` set (AList.delete k d) = fst ` set d - {k}"
  by (force simp add: AList.delete_eq)

lemma keys_empty_nil: "fst ` set d = {} \<Longrightarrow> d = []"
  by simp

subsection \<open>push buttons of a group\<close>

lemma and_then_Inr [simp]: "and_then (Inr s) f = f s"
  by (simp add: and_then_def)

lemma and_then_Inl [simp]: "and_then (Inl x) f = Inl x"
  by (simp add: and_then_def)

lemma pushbuttons_loop_create:
  "bs_dict s = [] \<Longrightarrow> distinct (map c_className cmds) \<Longrightarrow>
   set (map c_className cmds) \<inter> set (map b_Name (bs_buttons s)) = {} \<Longrightarrow>
   pushbuttons_loop loc gname s cmds =
     Inr (s\<lparr>bs_buttons := bs_buttons s @ map (new_button loc) cmds,
            bs_new := bs_new s + length cmds,
            bs_log := bs_log s @ map (\<lambda>c. AddPushButton gname (c_className c)) cmds\<rparr>)"
proof (induction cmds arbitrary: s)
  case Nil
  then show ?case by simp
next
  case (Cons c cmds)
  let ?s = "s\<lparr>bs_buttons := bs_buttons s @ [new_button loc c], bs_new := bs_new s + 1,
               bs_log := bs_log s @ [AddPushButton gname (c_className c)]\<rparr>"
  have step: "pushbutton_step loc gname s c = Inr ?s"
    using Cons.prems by (simp add: pushbutton_step_def new_button_def)
  have "pushbuttons_loop loc gname ?s cmds =
     Inr (?s\<lparr>bs_buttons := bs_buttons ?s @ map (new_button loc) cmds,
            bs_new := bs_new ?s + length cmds,
            bs_log := bs_log ?s @ map (\<lambda>c. AddPushButton gname (c_className c)) cmds\<rparr>)"
    using Cons.prems by (intro Cons.IH) (auto simp add: new_button_def)
  then show ?case
    using step by simp
qed

lemma pushbuttons_loop_update:
  "distinct (map c_className cmds) \<Longrightarrow>
   \<forall>c \<in> set cmds. c_className c \<in> fst ` set (bs_dict s) \<Longrightarrow>
   \<exists>s'. pushbuttons_loop loc gname s cmds = Inr s'
      \<and> bs_new s' = bs_new s
      \<and> bs_updated s' = bs_updated s + length cmds
      \<and> filter is_create (bs_log s') = filter is_create (bs_log s)
      \<and> filter is_disable (bs_log s') = filter is_disable (bs_log s)
      \<and> fst ` set (bs_dict s') = fst ` set (bs_dict s) - set (map c_className cmds)"
proof (induction cmds arbitrary: s)
  case Nil
  then show ?case by simp
next
  case (Cons c cmds)
  from Cons.prems obtain h where h: "map_of (bs_dict s) (c_className c) = Some h"
    using in_keys_lookup [of "c_className c" "bs_dict s"] by auto
  obtain s1 where s1: "pushbutton_step loc gname s c = Inr s1"
    and new: "bs_new s1 = bs_new s" and upd: "bs_updated s1 = bs_updated s + 1"
    and cr: "filter is_create (bs_log s1) = filter is_create (bs_log s)"
    and di: "filter is_disable (bs_log s1) = filter is_disable (bs_log s)"
    and dict: "bs_dict s1 = AList.delete (c_className c) (bs_dict s)"
    using h by (simp add: pushbutton_step_def Let_def)
  have other: "\<forall>c' \<in> set cmds. c_className c' \<noteq> c_className c"
    using Cons.prems(1) by (simp add: image_iff) metis
  have "\<forall>c' \<in> set cmds. c_className c' \<in> fst ` set (bs_dict s1)"
    using Cons.prems(2) other by (simp add: dict keys_delete)
  with Cons.IH [of s1] Cons.prems obtain s' where
    "pushbuttons_loop loc gname s1 cmds = Inr s'" "bs_new s' = bs_new s1"
    "bs_updated s' = bs_updated s1 + length cmds"
    "filter is_create (bs_log s') = filter is_create (bs_log s1)"
    "filter is_disable (bs_log s') = filter is_disable (bs_log s1)"
    "fst ` set (bs_dict s') = fst ` set (bs_dict s1) - set (map c_className cmds)"
    by auto
  then show ?case
    using s1 new upd cr di dict by (auto simp add: keys_delete)
qed

subsection \<open>groups: the first pass\<close>

lemma type_names_distinct [simp]:
  "pulldownButtonTypeName \<noteq> splitPushButtonTypeName"
  "pulldownButtonTypeName \<noteq> splitButtonTypeName"
  "splitButtonTypeName \<noteq> splitPushButtonTypeName"
  "splitPushButtonTypeName \<noteq> pulldownButtonTypeName"
  "splitButtonTypeName \<noteq> pulldownButtonTypeName"
  "splitPushButtonTypeName \<noteq> splitButtonTypeName"
  by (simp_all add: pulldownButtonTypeName_def splitPushButtonTypeName_def splitButtonTypeName_def)

lemma group_pass_branch:
  "group_pass loc s i =
     (case branch_of (ps_groups s ! i) of
        GroupBranch \<Rightarrow> group_branch loc s (ps_groups s ! i)
      | StackedBranch \<Rightarrow> stacked_branch loc s (ps_groups s ! i)
      | PushBranch \<Rightarrow> Inr (pushbutton_branch loc s i)
      | SmartBranch \<Rightarrow> Inr (smartbutton_branch loc s i)
      | LinkBranch \<Rightarrow> link_branch s (ps_groups s ! i)
      | NoBranch \<Rightarrow> Inr s)"
  by (simp add: group_pass_def branch_of_def Let_def)

lemma group_kind_split:
  "g_groupType g = Some splitPushButtonTypeName \<Longrightarrow> group_item_kind g = SplitButtonItem"
  by (simp add: group_item_kind_def)

lemma group_kind_not_push [simp]: "group_item_kind g \<noteq> PushButtonItem"
  by (simp add: group_item_kind_def)

lemma built_names: "wf_group g \<Longrightarrow> map i_Name (built_items loc g) = item_keys g"
  by (cases "branch_of g")
    (simp_all add: built_items_def item_keys_def new_item_def wf_group_def comp_def)

lemma group_branch_create:
  assumes "ps_dict s = []" and "branch_of g = GroupBranch" and "wf_group g"
    and "g_groupName g \<notin> set (map i_Name (ps_items s))"
  shows "group_branch loc s g =
     Inr (s\<lparr>ps_items := ps_items s @ built_items loc g,
            newbuttoncount := newbuttoncount s + length (g_commands g),
            ps_log := ps_log s @ AddItem (g_groupName g)
               # map (\<lambda>c. AddPushButton (g_groupName g) (c_className c)) (g_commands g)\<rparr>)"
proof -
  let ?it = "new_item (g_groupName g) (group_item_kind g) [] []"
  let ?s1 = "s\<lparr>ps_items := ps_items s @ [?it], ps_log := ps_log s @ [AddItem (g_groupName g)]\<rparr>"
  have add: "add_item s ?it = Inr ?s1"
    using assms(4) by (simp add: add_item_def new_item_def)
  have icons: "g_buttonIcons g" and dist: "distinct (map c_className (g_commands g))"
    using assms(2,3) by (simp_all add: wf_group_def)
  have loop: "pushbuttons_loop loc (g_groupName g)
      \<lparr>bs_buttons = [], bs_dict = [], bs_new = 0, bs_updated = 0, bs_log = []\<rparr> (g_commands g) =
     Inr \<lparr>bs_buttons = map (new_button loc) (g_commands g), bs_dict = [],
          bs_new = length (g_commands g), bs_updated = 0,
          bs_log = map (\<lambda>c. AddPushButton (g_groupName g) (c_className c)) (g_commands g)\<rparr>"
    using pushbuttons_loop_create [of "\<lparr>bs_buttons = [], bs_dict = [], bs_new = 0, bs_updated = 0,
        bs_log = []\<rparr>" "g_commands g" loc "g_groupName g"] dist
    by simp
  show ?thesis
    using add icons loop assms(1,2)
    by (simp add: group_branch_def group_buttons_def Let_def write_back_def built_items_def
        new_item_def group_kind_split)
qed

lemma stacked_loop_create:
  assumes "ps_dict s = []"
    and "g_buttonIcons g \<or> list_all c_buttonIcons cmds"
  shows "stacked_loop loc g (s, st) cmds =
     Inr (s\<lparr>newbuttoncount := newbuttoncount s + length cmds\<rparr>, st @ map c_className cmds)"
  using assms
proof (induction cmds arbitrary: s st)
  case Nil
  then show ?case by simp
next
  case (Cons c cmds)
  have step: "stacked_step loc g (s, st) c =
      Inr (s\<lparr>newbuttoncount := newbuttoncount s + 1\<rparr>, st @ [c_className c])"
    using Cons.prems by (auto simp add: stacked_step_def)
  show ?case
    using step Cons.IH [of "s\<lparr>newbuttoncount := newbuttoncount s + 1\<rparr>" "st @ [c_className c]"]
      Cons.prems
    by auto
qed

lemma stacked_branch_create:
  assumes "ps_dict s = []" and "branch_of g = StackedBranch" and "wf_group g"
    and "distinct (item_keys g)"
    and "set (item_keys g) \<inter> set (map i_Name (ps_items s)) = {}"
  shows "stacked_branch loc s g =
     Inr (s\<lparr>ps_items := ps_items s @ built_items loc g,
            newbuttoncount := newbuttoncount s + length (g_commands g),
            ps_log := ps_log s @ [AddStackedItems (item_keys g)]\<rparr>)"
proof -
  have three: "length (g_commands g) = 3"
    and icons: "g_buttonIcons g \<or> list_all c_buttonIcons (g_commands g)"
    using assms(2,3) by (simp_all add: wf_group_def)
  have keys: "item_keys g = map c_className (g_commands g)"
    using assms(2) by (simp add: item_keys_def)
  have free: "\<not> list_ex (\<lambda>n. n \<in> set (map i_Name (ps_items s))) (map c_className (g_commands g))"
    using assms(5) keys by (auto simp add: list_ex_iff)
  show ?thesis
    using stacked_loop_create [OF assms(1) icons, of loc "[]"] three assms(2,4) keys free
    by (simp add: stacked_branch_def add_stacked_items_def built_items_def comp_def)
qed

lemma pushbutton_branch_create:
  assumes "ps_dict s = []" and "branch_of g = PushBranch \<or> branch_of g = SmartBranch"
    and "g = ps_groups s ! i"
    and "set (item_keys g) \<inter> set (map i_Name (ps_items s)) = {}"
  shows "ps_items (pushbutton_branch loc s i) = ps_items s @ built_items loc g
      \<and> ps_dict (pushbutton_branch loc s i) = []
      \<and> newbuttoncount (pushbutton_branch loc s i) = newbuttoncount s + buttons_counted g
      \<and> updatedbuttoncount (pushbutton_branch loc s i) = updatedbuttoncount s
      \<and> filter is_disable (ps_log (pushbutton_branch loc s i)) = filter is_disable (ps_log s)
      \<and> length (ps_groups (pushbutton_branch loc s i)) = length (ps_groups s)
      \<and> (\<forall>j. j \<noteq> i \<longrightarrow> ps_groups (pushbutton_branch loc s i) ! j = ps_groups s ! j)"
  using assms
  by (auto simp add: pushbutton_branch_def item_keys_def built_items_def buttons_counted_def
      add_item_def new_item_def Let_def)

lemma link_branch_create:
  assumes "ps_dict s = []" and "branch_of g = LinkBranch" and "wf_group g"
    and "set (item_keys g) \<inter> set (map i_Name (ps_items s)) = {}"
  shows "link_branch s g =
     Inr (s\<lparr>ps_items := ps_items s @ built_items loc g,
            newbuttoncount := newbuttoncount s + buttons_counted g,
            ps_log := ps_log s @ map AddItem (item_keys g)\<rparr>)"
proof -
  have link: "islinkbutton g"
    using assms(2) by (auto simp add: branch_of_def split: if_splits)
  then obtain a where a: "g_assemblyName g = Some a"
    by (auto simp add: islinkbutton_def)
  from assms(2,3) obtain c l where c: "g_assemblyClassName g = Some c"
    and l: "g_assemblyLocation g = Some l" and icons: "g_buttonIcons g"
    by (auto simp add: wf_group_def)
  show ?thesis
    using assms(1,2,4) a c l icons
    by (simp add: link_branch_def item_keys_def built_items_def buttons_counted_def
        add_item_def new_item_def link_class_def link_location_def)
qed

lemma group_pass_create:
  assumes "ps_dict s = []" and "wf_group g" and "distinct (item_keys g)"
    and "g = ps_groups s ! i"
    and "set (item_keys g) \<inter> set (map i_Name (ps_items s)) = {}"
  shows "\<exists>s'. group_pass loc s i = Inr s'
      \<and> ps_items s' = ps_items s @ built_items loc g
      \<and> ps_dict s' = []
      \<and> newbuttoncount s' = newbuttoncount s + buttons_counted g
      \<and> updatedbuttoncount s' = updatedbuttoncount s
      \<and> filter is_disable (ps_log s') = filter is_disable (ps_log s)
      \<and> length (ps_groups s') = length (ps_groups s)
      \<and> (\<forall>j. j \<noteq> i \<longrightarrow> ps_groups s' ! j = ps_groups s ! j)"
proof (cases "branch_of g")
  case GroupBranch
  then show ?thesis
    using group_branch_create [OF assms(1) GroupBranch assms(2), of loc] assms(1,4,5)
    by (simp add: group_pass_branch item_keys_def buttons_counted_def comp_def)
next
  case StackedBranch
  then show ?thesis
    using stacked_branch_create [OF assms(1) StackedBranch assms(2,3,5), of loc] assms(1,4)
    by (simp add: group_pass_branch buttons_counted_def)
next
  case PushBranch
  then show ?thesis
    using pushbutton_branch_create [OF assms(1) _ assms(4,5), of loc] assms(4)
    by (simp add: group_pass_branch)
next
  case SmartBranch
  then show ?thesis
    using pushbutton_branch_create [OF assms(1) _ assms(4,5), of loc] assms(4)
    by (simp add: group_pass_branch smartbutton_branch_def)
next
  case LinkBranch
  then show ?thesis
    using link_branch_create [OF assms(1) LinkBranch assms(2,5), of loc] assms(1,4)
    by (simp add: group_pass_branch comp_def)
next
  case NoBranch
  then show ?thesis
    using assms(1,4) by (simp add: group_pass_branch built_items_def buttons_counted_def)
qed

lemma groups_loop_create:
  assumes "ps_dict s = []" and "distinct is"
    and "\<forall>i \<in> set is. ps_groups s ! i = gs ! i"
    and "list_all wf_group (map (\<lambda>i. gs ! i) is)"
    and "distinct (concat (map item_keys (map (\<lambda>i. gs ! i) is)))"
    and "set (concat (map item_keys (map (\<lambda>i. gs ! i) is))) \<inter> set (map i_Name (ps_items s)) = {}"
  shows "\<exists>s'. groups_loop loc s is = Inr s'
      \<and> ps_items s' = ps_items s @ concat (map (built_items loc) (map (\<lambda>i. gs ! i) is))
      \<and> ps_dict s' = []
      \<and> newbuttoncount s' = newbuttoncount s + sum_list (map buttons_counted (map (\<lambda>i. gs ! i) is))
      \<and> updatedbuttoncount s' = updatedbuttoncount s
      \<and> filter is_disable (ps_log s') = filter is_disable (ps_log s)"
  using assms
proof (induction "is" arbitrary: s)
  case Nil
  then show ?case by simp
next
  case (Cons i "is")
  let ?g = "gs ! i"
  have gi: "?g = ps_groups s ! i"
    using Cons.prems(3) by simp
  have wf: "wf_group ?g" and dk: "distinct (item_keys ?g)"
    and free: "set (item_keys ?g) \<inter> set (map i_Name (ps_items s)) = {}"
    using Cons.prems by auto
  from group_pass_create [OF Cons.prems(1) wf dk gi free, of loc] obtain s1 where
    s1: "group_pass loc s i = Inr s1" "ps_items s1 = ps_items s @ built_items loc ?g"
      "ps_dict s1 = []" "newbuttoncount s1 = newbuttoncount s + buttons_counted ?g"
      "updatedbuttoncount s1 = updatedbuttoncount s"
      "filter is_disable (ps_log s1) = filter is_disable (ps_log s)"
      "\<forall>j. j \<noteq> i \<longrightarrow> ps_groups s1 ! j = ps_groups s ! j"
    by blast
  have names: "set (map i_Name (ps_items s1)) = set (map i_Name (ps_items s)) \<union> set (item_keys ?g)"
    using s1(2) built_names [OF wf, of loc] by (metis map_append set_append)
  have free1: "set (concat (map item_keys (map (\<lambda>i. gs ! i) is))) \<inter> set (map i_Name (ps_items s1)) = {}"
    using Cons.prems(5,6) names by auto
  have rest: "\<forall>j \<in> set is. ps_groups s1 ! j = gs ! j"
    using s1(7) Cons.prems(2,3) by auto
  have d: "distinct is" using Cons.prems(2) by simp
  from Cons.IH [OF s1(3) d rest _ _ free1] Cons.prems(4,5) obtain s' where
    "groups_loop loc s1 is = Inr s'"
    "ps_items s' = ps_items s1 @ concat (map (built_items loc) (map (\<lambda>i. gs ! i) is))"
    "ps_dict s' = []"
    "newbuttoncount s' = newbuttoncount s1 + sum_list (map buttons_counted (map (\<lambda>i. gs ! i) is))"
    "updatedbuttoncount s' = updatedbuttoncount s1"
    "filter is_disable (ps_log s') = filter is_disable (ps_log s1)"
    by auto
  then show ?case
    using s1 by simp
qed

subsection \<open>frames\<close>

lemma frame_refl: "frame {} s s"
  by (simp add: frame_def)

lemma frame_length:
  assumes "frame K s s'"
  shows "length (ps_items s') = length (ps_items s)"
proof -
  have "map i_Name (ps_items s') = map i_Name (ps_items s)"
    using assms by (simp add: frame_def)
  then have "length (map i_Name (ps_items s')) = length (map i_Name (ps_items s))"
    by (rule arg_cong)
  then show ?thesis by simp
qed

lemma frame_name:
  assumes "frame K s s'" and "h < length (ps_items s)"
  shows "i_Name (ps_items s' ! h) = i_Name (ps_items s ! h)"
proof -
  have "map i_Name (ps_items s') = map i_Name (ps_items s)"
    using assms(1) by (simp add: frame_def)
  then have "map i_Name (ps_items s') ! h = map i_Name (ps_items s) ! h"
    by (rule arg_cong)
  then show ?thesis
    using assms(2) frame_length [OF assms(1)] by simp
qed

lemma frame_trans:
  assumes "frame K1 s s1" and "frame K2 s1 s2"
  shows "frame (K1 \<union> K2) s s2"
proof -
  have len: "length (ps_items s1) = length (ps_items s)"
    using assms(1) by (rule frame_length)
  have items: "\<forall>h < length (ps_items s). i_Name (ps_items s ! h) \<notin> K1 \<union> K2 \<longrightarrow>
      ps_items s2 ! h = ps_items s ! h"
  proof (intro allI impI)
    fix h assume h: "h < length (ps_items s)" and k: "i_Name (ps_items s ! h) \<notin> K1 \<union> K2"
    have a: "ps_items s1 ! h = ps_items s ! h"
      using assms(1) h k by (simp add: frame_def)
    have "ps_items s2 ! h = ps_items s1 ! h"
      using assms(2) h k a len by (simp add: frame_def)
    with a show "ps_items s2 ! h = ps_items s ! h" by simp
  qed
  have keys: "fst ` set (ps_dict s2) = fst ` set (ps_dict s) - (K1 \<union> K2)"
    using assms by (auto simp add: frame_def)
  have look: "\<forall>k. k \<notin> K1 \<union> K2 \<longrightarrow> map_of (ps_dict s2) k = map_of (ps_dict s) k"
    using assms by (simp add: frame_def)
  have names: "map i_Name (ps_items s2) = map i_Name (ps_items s)"
    using assms by (simp add: frame_def)
  show ?thesis
    using items keys look names by (simp add: frame_def)
qed

lemma frame_weaken_eq: "frame K s s' \<Longrightarrow> K = K' \<Longrightarrow> frame K' s s'"
  by simp

lemma frame_consistent:
  assumes "consistent s" and "frame K s s'"
  shows "consistent s'"
proof -
  have d: "distinct (map i_Name (ps_items s'))"
    using assms by (simp add: consistent_def frame_def)
  have "\<forall>k h. map_of (ps_dict s') k = Some h \<longrightarrow>
      h < length (ps_items s') \<and> i_Name (ps_items s' ! h) = k"
  proof (intro allI impI)
    fix k h assume kh: "map_of (ps_dict s') k = Some h"
    then have "k \<in> fst ` set (ps_dict s')"
      by (rule_tac ccontr) (simp add: map_of_eq_None_iff [symmetric])
    then have "k \<notin> K"
      using assms(2) by (simp add: frame_def)
    then have "map_of (ps_dict s) k = Some h"
      using assms(2) kh by (simp add: frame_def)
    then have h: "h < length (ps_items s)" "i_Name (ps_items s ! h) = k"
      using assms(1) by (simp_all add: consistent_def)
    then show "h < length (ps_items s') \<and> i_Name (ps_items s' ! h) = k"
      using frame_length [OF assms(2)] frame_name [OF assms(2)] by simp
  qed
  with d show ?thesis by (simp add: consistent_def)
qed

lemma frame_items_pred:
  assumes "frame K s s'" and "k \<notin> K"
    and "\<forall>it \<in> set (ps_items s). i_Name it = k \<longrightarrow> P it"
  shows "\<forall>it \<in> set (ps_items s'). i_Name it = k \<longrightarrow> P it"
proof (intro ballI impI)
  fix it assume "it \<in> set (ps_items s')" and name: "i_Name it = k"
  then obtain h where h: "h < length (ps_items s')" "ps_items s' ! h = it"
    by (auto simp add: in_set_conv_nth)
  then have h0: "h < length (ps_items s)"
    using frame_length [OF assms(1)] by simp
  have "i_Name (ps_items s ! h) = k"
    using frame_name [OF assms(1) h0] h name by simp
  then have "ps_items s' ! h = ps_items s ! h"
    using assms(1,2) h0 by (simp add: frame_def)
  then have "it \<in> set (ps_items s)"
    using h h0 nth_mem [of h "ps_items s"] by simp
  then show "P it"
    using assms(3) name by simp
qed

lemma frame_present:
  assumes "present g s" and "frame K s s'" and "set (item_keys g) \<inter> K = {}"
  shows "present g s'"
  unfolding present_def
proof (rule ballI, rule conjI)
  fix k assume k: "k \<in> set (item_keys g)"
  then have nk: "k \<notin> K" using assms(3) by auto
  show "k \<in> fst ` set (ps_dict s')"
    using assms(1,2) k nk by (simp add: present_def frame_def)
  have "\<forall>it \<in> set (ps_items s). i_Name it = k \<longrightarrow> item_ok g it"
    using assms(1) k by (simp add: present_def)
  then show "\<forall>it \<in> set (ps_items s'). i_Name it = k \<longrightarrow> item_ok g it"
    by (rule frame_items_pred [OF assms(2) nk])
qed

subsection \<open>an item found and updated\<close>

lemma frame_update_item:
  assumes "consistent s" and "map_of (ps_dict s) k = Some h"
    and "i_Name it = k"
  shows "frame {k} s (s\<lparr>ps_dict := AList.delete k (ps_dict s),
                        ps_items := (ps_items s)[h := it], ps_log := l,
                        newbuttoncount := n, updatedbuttoncount := u\<rparr>)"
proof -
  have h: "h < length (ps_items s)" "i_Name (ps_items s ! h) = k"
    using assms(1,2) by (simp_all add: consistent_def)
  show ?thesis
    unfolding frame_def
  proof (intro conjI)
    show "fst ` set (ps_dict (s\<lparr>ps_dict := AList.delete k (ps_dict s),
                        ps_items := (ps_items s)[h := it], ps_log := l,
                        newbuttoncount := n, updatedbuttoncount := u\<rparr>)) = fst ` set (ps_dict s) - {k}"
      by (simp add: keys_delete)
    show "\<forall>k'. k' \<notin> {k} \<longrightarrow> map_of (ps_dict (s\<lparr>ps_dict := AList.delete k (ps_dict s),
                        ps_items := (ps_items s)[h := it], ps_log := l,
                        newbuttoncount := n, updatedbuttoncount := u\<rparr>)) k' = map_of (ps_dict s) k'"
      by simp
    show "map i_Name (ps_items (s\<lparr>ps_dict := AList.delete k (ps_dict s),
                        ps_items := (ps_items s)[h := it], ps_log := l,
                        newbuttoncount := n, updatedbuttoncount := u\<rparr>)) = map i_Name (ps_items s)"
      using h assms(3) by (simp add: map_update list_update_same_conv)
    show "\<forall>h' < length (ps_items s). i_Name (ps_items s ! h') \<notin> {k} \<longrightarrow>
       ps_items (s\<lparr>ps_dict := AList.delete k (ps_dict s),
                        ps_items := (ps_items s)[h := it], ps_log := l,
                        newbuttoncount := n, updatedbuttoncount := u\<rparr>) ! h' = ps_items s ! h'"
    proof (intro allI impI)
      fix h' assume "h' < length (ps_items s)" and "i_Name (ps_items s ! h') \<notin> {k}"
      then have "h' \<noteq> h" using h by auto
      then show "ps_items (s\<lparr>ps_dict := AList.delete k (ps_dict s),
                        ps_items := (ps_items s)[h := it], ps_log := l,
                        newbuttoncount := n, updatedbuttoncount := u\<rparr>) ! h' = ps_items s ! h'"
        by simp
    qed
  qed
qed

subsection \<open>groups: the second pass\<close>

lemma pop_update:
  assumes "consistent s" and "map_of (ps_dict s) k = Some h"
    and "\<forall>it \<in> set (ps_items s). i_Name it = k \<longrightarrow> i_kind it = PushButtonItem"
  shows "\<exists>s'. update_pushbutton_item (s\<lparr>ps_dict := AList.delete k (ps_dict s)\<rparr>) h a c = Inr s'
      \<and> frame {k} s s'
      \<and> newbuttoncount s' = newbuttoncount s
      \<and> updatedbuttoncount s' = updatedbuttoncount s + 1
      \<and> filter is_create (ps_log s') = filter is_create (ps_log s)
      \<and> filter is_disable (ps_log s') = filter is_disable (ps_log s)
      \<and> ps_groups s' = ps_groups s"
proof -
  have h: "h < length (ps_items s)" "i_Name (ps_items s ! h) = k"
    using assms(1,2) by (simp_all add: consistent_def)
  then have kind: "i_kind (ps_items s ! h) = PushButtonItem"
    using assms(3) nth_mem [of h "ps_items s"] by simp
  let ?it = "(ps_items s ! h)\<lparr>i_AssemblyName := a, i_ClassName := c, i_Enabled := True\<rparr>"
  let ?s' = "s\<lparr>ps_dict := AList.delete k (ps_dict s), ps_items := (ps_items s)[h := ?it],
               ps_log := ps_log s @ [UpdateItem k],
               newbuttoncount := newbuttoncount s,
               updatedbuttoncount := updatedbuttoncount s + 1\<rparr>"
  have eq: "update_pushbutton_item (s\<lparr>ps_dict := AList.delete k (ps_dict s)\<rparr>) h a c = Inr ?s'"
    using kind h by (simp add: update_pushbutton_item_def)
  have fr: "frame {k} s ?s'"
    using assms(1,2) h by (intro frame_update_item) simp_all
  show ?thesis
    using eq fr by simp
qed

lemma stacked_loop_update:
  assumes "consistent s" and "distinct (map c_className cmds)"
    and "\<forall>c \<in> set cmds. c_className c \<in> fst ` set (ps_dict s)
           \<and> (\<forall>it \<in> set (ps_items s). i_Name it = c_className c \<longrightarrow> i_kind it = PushButtonItem)"
    and "g_buttonIcons g \<or> list_all c_buttonIcons cmds"
  shows "\<exists>s'. stacked_loop loc g (s, st) cmds = Inr (s', st)
      \<and> frame (set (map c_className cmds)) s s'
      \<and> newbuttoncount s' = newbuttoncount s
      \<and> updatedbuttoncount s' = updatedbuttoncount s + length cmds
      \<and> filter is_create (ps_log s') = filter is_create (ps_log s)
      \<and> filter is_disable (ps_log s') = filter is_disable (ps_log s)
      \<and> ps_groups s' = ps_groups s"
  using assms
proof (induction cmds arbitrary: s)
  case Nil
  then show ?case by (simp add: frame_refl)
next
  case (Cons c cmds)
  let ?k = "c_className c"
  from Cons.prems(3) obtain h where h: "map_of (ps_dict s) ?k = Some h"
    using in_keys_lookup [of ?k "ps_dict s"] by auto
  have kind: "\<forall>it \<in> set (ps_items s). i_Name it = ?k \<longrightarrow> i_kind it = PushButtonItem"
    using Cons.prems(3) by simp
  from pop_update [OF Cons.prems(1) h kind, of loc ?k] obtain s1 where
    s1: "update_pushbutton_item (s\<lparr>ps_dict := AList.delete ?k (ps_dict s)\<rparr>) h loc ?k = Inr s1"
      "frame {?k} s s1" "newbuttoncount s1 = newbuttoncount s"
      "updatedbuttoncount s1 = updatedbuttoncount s + 1"
      "filter is_create (ps_log s1) = filter is_create (ps_log s)"
      "filter is_disable (ps_log s1) = filter is_disable (ps_log s)"
      "ps_groups s1 = ps_groups s"
    by blast
  have icons: "c_buttonIcons c \<or> g_buttonIcons g"
    using Cons.prems(4) by auto
  have step: "stacked_step loc g (s, st) c = Inr (s1, st)"
    using h s1(1) icons by (auto simp add: stacked_step_def)
  have cons1: "consistent s1"
    using Cons.prems(1) s1(2) by (rule frame_consistent)
  have other: "\<forall>c' \<in> set cmds. c_className c' \<noteq> ?k"
    using Cons.prems(2) by (simp add: image_iff) metis
  have pre1: "\<forall>c' \<in> set cmds. c_className c' \<in> fst ` set (ps_dict s1)
           \<and> (\<forall>it \<in> set (ps_items s1). i_Name it = c_className c' \<longrightarrow> i_kind it = PushButtonItem)"
  proof
    fix c' assume c': "c' \<in> set cmds"
    then have nk: "c_className c' \<notin> {?k}" using other by simp
    have "c_className c' \<in> fst ` set (ps_dict s1)"
      using s1(2) Cons.prems(3) c' nk by (simp add: frame_def)
    moreover have "\<forall>it \<in> set (ps_items s). i_Name it = c_className c' \<longrightarrow> i_kind it = PushButtonItem"
      using Cons.prems(3) c' by simp
    then have "\<forall>it \<in> set (ps_items s1). i_Name it = c_className c' \<longrightarrow> i_kind it = PushButtonItem"
      by (rule frame_items_pred [OF s1(2) nk])
    ultimately show "c_className c' \<in> fst ` set (ps_dict s1)
           \<and> (\<forall>it \<in> set (ps_items s1). i_Name it = c_className c' \<longrightarrow> i_kind it = PushButtonItem)"
      by simp
  qed
  have icons1: "g_buttonIcons g \<or> list_all c_buttonIcons cmds"
    using Cons.prems(4) by auto
  from Cons.IH [OF cons1 _ pre1 icons1] Cons.prems(2) obtain s' where
    s': "stacked_loop loc g (s1, st) cmds = Inr (s', st)"
      "frame (set (map c_className cmds)) s1 s'" "newbuttoncount s' = newbuttoncount s1"
      "updatedbuttoncount s' = updatedbuttoncount s1 + length cmds"
      "filter is_create (ps_log s') = filter is_create (ps_log s1)"
      "filter is_disable (ps_log s') = filter is_disable (ps_log s1)"
      "ps_groups s' = ps_groups s1"
    by auto
  have fr: "frame (set (map c_className (c # cmds))) s s'"
    using frame_trans [OF s1(2) s'(2)] by simp
  show ?case
    using step s' s1 fr by simp
qed

lemma frame_groups [simp]:
  "frame K (s\<lparr>ps_groups := G\<rparr>) s' = frame K s s'"
  "frame K s (s'\<lparr>ps_groups := G\<rparr>) = frame K s s'"
  by (simp_all add: frame_def)

lemma consistent_groups [simp]: "consistent (s\<lparr>ps_groups := G\<rparr>) = consistent s"
  by (simp add: consistent_def)

lemma present_groups [simp]: "present g (s\<lparr>ps_groups := G\<rparr>) = present g s"
  by (simp add: present_def)

lemma present_key:
  assumes "present g s" and "k \<in> set (item_keys g)"
  shows "\<exists>h. map_of (ps_dict s) k = Some h"
proof -
  have "k \<in> fst ` set (ps_dict s)"
    using assms by (simp add: present_def)
  then show ?thesis by (rule in_keys_lookup)
qed

lemma present_ok:
  assumes "present g s" and "k \<in> set (item_keys g)" and "it \<in> set (ps_items s)"
    and "i_Name it = k"
  shows "item_ok g it"
  using assms by (simp add: present_def)

lemma stacked_branch_update:
  assumes "consistent s" and "branch_of g = StackedBranch" and "wf_group g"
    and "present g s" and "distinct (item_keys g)"
  shows "\<exists>s'. stacked_branch loc s g = Inr s'
      \<and> frame (set (item_keys g)) s s'
      \<and> newbuttoncount s' = newbuttoncount s
      \<and> updatedbuttoncount s' = updatedbuttoncount s + buttons_counted g
      \<and> filter is_create (ps_log s') = filter is_create (ps_log s)
      \<and> filter is_disable (ps_log s') = filter is_disable (ps_log s)
      \<and> ps_groups s' = ps_groups s"
proof -
  have keys: "item_keys g = map c_className (g_commands g)"
    using assms(2) by (simp add: item_keys_def)
  have icons: "g_buttonIcons g \<or> list_all c_buttonIcons (g_commands g)"
    and three: "length (g_commands g) = 3"
    using assms(2,3) by (simp_all add: wf_group_def)
  have pre: "\<forall>c \<in> set (g_commands g). c_className c \<in> fst ` set (ps_dict s)
           \<and> (\<forall>it \<in> set (ps_items s). i_Name it = c_className c \<longrightarrow> i_kind it = PushButtonItem)"
    using assms(2,4) keys by (simp add: present_def item_ok_def)
  from stacked_loop_update [OF assms(1) _ pre icons, of loc "[]"] assms(5) keys obtain s' where
    s': "stacked_loop loc g (s, []) (g_commands g) = Inr (s', [])"
      "frame (set (map c_className (g_commands g))) s s'" "newbuttoncount s' = newbuttoncount s"
      "updatedbuttoncount s' = updatedbuttoncount s + length (g_commands g)"
      "filter is_create (ps_log s') = filter is_create (ps_log s)"
      "filter is_disable (ps_log s') = filter is_disable (ps_log s)"
      "ps_groups s' = ps_groups s"
    by auto
  show ?thesis
    using s' keys assms(2) by (simp add: stacked_branch_def buttons_counted_def)
qed

lemma pushbutton_branch_update:
  assumes "consistent s" and "branch_of g = PushBranch \<or> branch_of g = SmartBranch"
    and "g = ps_groups s ! i" and "present g s"
  shows "\<exists>s'. pushbutton_branch loc s i = s'
      \<and> frame (set (item_keys g)) s s'
      \<and> newbuttoncount s' = newbuttoncount s
      \<and> updatedbuttoncount s' = updatedbuttoncount s + buttons_counted g
      \<and> filter is_create (ps_log s') = filter is_create (ps_log s)
      \<and> filter is_disable (ps_log s') = filter is_disable (ps_log s)
      \<and> length (ps_groups s') = length (ps_groups s)
      \<and> (\<forall>j. j \<noteq> i \<longrightarrow> ps_groups s' ! j = ps_groups s ! j)"
proof (cases "g_commands g = []")
  case True
  then show ?thesis
    using assms(2,3)
    by (auto simp add: pushbutton_branch_def item_keys_def buttons_counted_def frame_refl)
next
  case False
  let ?k = "c_className (last (g_commands g))"
  let ?s0 = "s\<lparr>ps_groups := (ps_groups s)[i := g\<lparr>g_commands := butlast (g_commands g)\<rparr>]\<rparr>"
  have keys: "item_keys g = [?k]" and cnt: "buttons_counted g = 1"
    using False assms(2) by (auto simp add: item_keys_def buttons_counted_def)
  from present_key [OF assms(4), of ?k] keys obtain h where
    h: "map_of (ps_dict s) ?k = Some h"
    by auto
  have kind: "\<forall>it \<in> set (ps_items ?s0). i_Name it = ?k \<longrightarrow> i_kind it = PushButtonItem"
    using assms(2,4) keys by (auto simp add: present_def item_ok_def)
  have c0: "consistent ?s0" using assms(1) by simp
  have h0: "map_of (ps_dict ?s0) ?k = Some h" using h by simp
  from pop_update [OF c0 h0 kind, of loc ?k] obtain s1 where
    s1: "update_pushbutton_item (?s0\<lparr>ps_dict := AList.delete ?k (ps_dict ?s0)\<rparr>) h loc ?k = Inr s1"
      "frame {?k} ?s0 s1" "newbuttoncount s1 = newbuttoncount ?s0"
      "updatedbuttoncount s1 = updatedbuttoncount ?s0 + 1"
      "filter is_create (ps_log s1) = filter is_create (ps_log ?s0)"
      "filter is_disable (ps_log s1) = filter is_disable (ps_log ?s0)"
      "ps_groups s1 = ps_groups ?s0"
    by blast
  have "pushbutton_branch loc s i = s1"
    using False h s1(1) assms(3) by (simp add: pushbutton_branch_def Let_def)
  then show ?thesis
    using s1 keys cnt by simp
qed

lemma link_branch_update:
  assumes "consistent s" and "branch_of g = LinkBranch" and "wf_group g" and "present g s"
  shows "\<exists>s'. link_branch s g = Inr s'
      \<and> frame (set (item_keys g)) s s'
      \<and> newbuttoncount s' = newbuttoncount s
      \<and> updatedbuttoncount s' = updatedbuttoncount s + buttons_counted g
      \<and> filter is_create (ps_log s') = filter is_create (ps_log s)
      \<and> filter is_disable (ps_log s') = filter is_disable (ps_log s)
      \<and> ps_groups s' = ps_groups s"
proof -
  let ?k = "g_groupName g"
  have keys: "item_keys g = [?k]" and cnt: "buttons_counted g = 1"
    using assms(2) by (auto simp add: item_keys_def buttons_counted_def)
  have link: "islinkbutton g"
    using assms(2) by (auto simp add: branch_of_def split: if_splits)
  then obtain a where a: "g_assemblyName g = Some a"
    by (auto simp add: islinkbutton_def)
  from assms(2,3) obtain c l where c: "g_assemblyClassName g = Some c"
    and l: "g_assemblyLocation g = Some l" and icons: "g_buttonIcons g"
    by (auto simp add: wf_group_def)
  from present_key [OF assms(4), of ?k] keys obtain h where
    h: "map_of (ps_dict s) ?k = Some h"
    by auto
  have kind: "\<forall>it \<in> set (ps_items s). i_Name it = ?k \<longrightarrow> i_kind it = PushButtonItem"
    using assms(2,4) keys by (auto simp add: present_def item_ok_def)
  from pop_update [OF assms(1) h kind, of l "a @ ''.'' @ c"] obtain s1 where
    s1: "update_pushbutton_item (s\<lparr>ps_dict := AList.delete ?k (ps_dict s)\<rparr>) h l (a @ ''.'' @ c) = Inr s1"
      "frame {?k} s s1" "newbuttoncount s1 = newbuttoncount s"
      "updatedbuttoncount s1 = updatedbuttoncount s + 1"
      "filter is_create (ps_log s1) = filter is_create (ps_log s)"
      "filter is_disable (ps_log s1) = filter is_disable (ps_log s)"
      "ps_groups s1 = ps_groups s"
    by blast
  have "link_branch s g = Inr s1"
    using a c l icons h s1(1) by (simp add: link_branch_def)
  then show ?thesis
    using s1 keys cnt by simp
qed

lemma disable_buttons_nil [simp]: "disable_buttons n b [] = b"
  by simp

lemma group_branch_update:
  assumes "consistent s" and "branch_of g = GroupBranch" and "wf_group g" and "present g s"
  shows "\<exists>s'. group_branch loc s g = Inr s'
      \<and> frame (set (item_keys g)) s s'
      \<and> newbuttoncount s' = newbuttoncount s
      \<and> updatedbuttoncount s' = updatedbuttoncount s + buttons_counted g
      \<and> filter is_create (ps_log s') = filter is_create (ps_log s)
      \<and> filter is_disable (ps_log s') = filter is_disable (ps_log s)
      \<and> ps_groups s' = ps_groups s"
proof -
  let ?k = "g_groupName g"
  have keys: "item_keys g = [?k]" and cnt: "buttons_counted g = length (g_commands g)"
    using assms(2) by (auto simp add: item_keys_def buttons_counted_def)
  have icons: "g_buttonIcons g" and dist: "distinct (map c_className (g_commands g))"
    using assms(2,3) by (simp_all add: wf_group_def)
  from present_key [OF assms(4), of ?k] keys obtain h where
    h: "map_of (ps_dict s) ?k = Some h"
    by auto
  have hl: "h < length (ps_items s)" and hn: "i_Name (ps_items s ! h) = ?k"
    using assms(1) h by (simp_all add: consistent_def)
  let ?it = "ps_items s ! h"
  have mem: "?it \<in> set (ps_items s)" using hl by simp
  have ok: "item_ok g ?it"
    using present_ok [OF assms(4) _ mem hn] keys by simp
  have kind: "i_kind ?it = group_item_kind g"
    and cls: "b_ClassName ` set (i_items ?it) = c_className ` set (g_commands g)"
    using ok assms(2) by (simp_all add: item_ok_def)
  let ?it1 = "(if g_groupType g = Some splitPushButtonTypeName
               then ?it\<lparr>i_IsSynchronizedWithCurrentItem := False\<rparr> else ?it)"
  let ?b0 = "\<lparr>bs_buttons = i_items ?it,
             bs_dict = dict_of b_ClassName (i_items ?it) [0..<length (i_items ?it)],
             bs_new = 0, bs_updated = 0, bs_log = []\<rparr>"
  have pre: "\<forall>c \<in> set (g_commands g). c_className c \<in> fst ` set (bs_dict ?b0)"
    using cls by (simp add: dict_of_all_keys)
  from pushbuttons_loop_update [OF dist pre, of loc ?k] obtain b where
    b: "pushbuttons_loop loc ?k ?b0 (g_commands g) = Inr b" "bs_new b = 0"
      "bs_updated b = length (g_commands g)"
      "filter is_create (bs_log b) = []" "filter is_disable (bs_log b) = []"
      "fst ` set (bs_dict b) = fst ` set (bs_dict ?b0) - set (map c_className (g_commands g))"
    by auto
  have "fst ` set (bs_dict b) = {}"
    using b(6) cls by (simp add: dict_of_all_keys)
  then have bnil: "bs_dict b = []" by simp
  let ?s' = "s\<lparr>ps_dict := AList.delete ?k (ps_dict s),
               ps_items := (ps_items s)[h := ?it1\<lparr>i_items := bs_buttons b\<rparr>],
               ps_log := ps_log s @ UpdateItem ?k # bs_log b,
               newbuttoncount := newbuttoncount s,
               updatedbuttoncount := updatedbuttoncount s + length (g_commands g)\<rparr>"
  have split: "g_groupType g = Some splitPushButtonTypeName \<Longrightarrow> i_kind ?it = SplitButtonItem"
    using kind by (simp add: group_kind_split)
  have notpush: "i_kind ?it \<noteq> PushButtonItem"
    using kind by simp
  have eq: "group_branch loc s g = Inr ?s'"
    using h hl icons b(1,2,3) bnil split notpush
    by (simp add: group_branch_def group_buttons_def Let_def write_back_def)
  have n1: "i_Name (?it1\<lparr>i_items := bs_buttons b\<rparr>) = ?k"
    using hn by simp
  have fr: "frame {?k} s ?s'"
    using assms(1) h n1 by (rule frame_update_item)
  show ?thesis
    using eq fr keys cnt b(4,5) by simp
qed

lemma group_pass_update:
  assumes "consistent s" and "wf_group g" and "distinct (item_keys g)"
    and "g = ps_groups s ! i" and "present g s"
  shows "\<exists>s'. group_pass loc s i = Inr s'
      \<and> frame (set (item_keys g)) s s'
      \<and> newbuttoncount s' = newbuttoncount s
      \<and> updatedbuttoncount s' = updatedbuttoncount s + buttons_counted g
      \<and> filter is_create (ps_log s') = filter is_create (ps_log s)
      \<and> filter is_disable (ps_log s') = filter is_disable (ps_log s)
      \<and> length (ps_groups s') = length (ps_groups s)
      \<and> (\<forall>j. j \<noteq> i \<longrightarrow> ps_groups s' ! j = ps_groups s ! j)"
proof (cases "branch_of g")
  case GroupBranch
  from group_branch_update [OF assms(1) GroupBranch assms(2,5), of loc] obtain s' where
    "group_branch loc s g = Inr s'" "frame (set (item_keys g)) s s'"
    "newbuttoncount s' = newbuttoncount s"
    "updatedbuttoncount s' = updatedbuttoncount s + buttons_counted g"
    "filter is_create (ps_log s') = filter is_create (ps_log s)"
    "filter is_disable (ps_log s') = filter is_disable (ps_log s)"
    "ps_groups s' = ps_groups s"
    by blast
  then show ?thesis
    using GroupBranch assms(4) by (simp add: group_pass_branch)
next
  case StackedBranch
  from stacked_branch_update [OF assms(1) StackedBranch assms(2,5,3), of loc] obtain s' where
    "stacked_branch loc s g = Inr s'" "frame (set (item_keys g)) s s'"
    "newbuttoncount s' = newbuttoncount s"
    "updatedbuttoncount s' = updatedbuttoncount s + buttons_counted g"
    "filter is_create (ps_log s') = filter is_create (ps_log s)"
    "filter is_disable (ps_log s') = filter is_disable (ps_log s)"
    "ps_groups s' = ps_groups s"
    by blast
  then show ?thesis
    using StackedBranch assms(4) by (simp add: group_pass_branch)
next
  case PushBranch
  then show ?thesis
    using pushbutton_branch_update [OF assms(1) _ assms(4,5), of loc] assms(4)
    by (simp add: group_pass_branch)
next
  case SmartBranch
  then show ?thesis
    using pushbutton_branch_update [OF assms(1) _ assms(4,5), of loc] assms(4)
    by (simp add: group_pass_branch smartbutton_branch_def)
next
  case LinkBranch
  from link_branch_update [OF assms(1) LinkBranch assms(2,5)] obtain s' where
    "link_branch s g = Inr s'" "frame (set (item_keys g)) s s'"
    "newbuttoncount s' = newbuttoncount s"
    "updatedbuttoncount s' = updatedbuttoncount s + buttons_counted g"
    "filter is_create (ps_log s') = filter is_create (ps_log s)"
    "filter is_disable (ps_log s') = filter is_disable (ps_log s)"
    "ps_groups s' = ps_groups s"
    by blast
  then show ?thesis
    using LinkBranch assms(4) by (simp add: group_pass_branch)
next
  case NoBranch
  then show ?thesis
    using assms(4) by (simp add: group_pass_branch item_keys_def buttons_counted_def frame_refl)
qed

lemma groups_loop_update:
  assumes "consistent s" and "distinct is"
    and "\<forall>i \<in> set is. ps_groups s ! i = gs ! i"
    and "list_all wf_group (map (\<lambda>i. gs ! i) is)"
    and "distinct (concat (map item_keys (map (\<lambda>i. gs ! i) is)))"
    and "\<forall>i \<in> set is. present (gs ! i) s"
  shows "\<exists>s'. groups_loop loc s is = Inr s'
      \<and> frame (set (concat (map item_keys (map (\<lambda>i. gs ! i) is)))) s s'
      \<and> newbuttoncount s' = newbuttoncount s
      \<and> updatedbuttoncount s' = updatedbuttoncount s + sum_list (map buttons_counted (map (\<lambda>i. gs ! i) is))
      \<and> filter is_create (ps_log s') = filter is_create (ps_log s)
      \<and> filter is_disable (ps_log s') = filter is_disable (ps_log s)"
  using assms
proof (induction "is" arbitrary: s)
  case Nil
  then show ?case by (simp add: frame_refl)
next
  case (Cons i "is")
  let ?g = "gs ! i"
  let ?K = "set (concat (map item_keys (map (\<lambda>i. gs ! i) is)))"
  have gi: "?g = ps_groups s ! i"
    using Cons.prems(3) by simp
  have wf: "wf_group ?g" and dk: "distinct (item_keys ?g)" and pr: "present ?g s"
    using Cons.prems by auto
  from group_pass_update [OF Cons.prems(1) wf dk gi pr, of loc] obtain s1 where
    s1: "group_pass loc s i = Inr s1" "frame (set (item_keys ?g)) s s1"
      "newbuttoncount s1 = newbuttoncount s"
      "updatedbuttoncount s1 = updatedbuttoncount s + buttons_counted ?g"
      "filter is_create (ps_log s1) = filter is_create (ps_log s)"
      "filter is_disable (ps_log s1) = filter is_disable (ps_log s)"
      "\<forall>j. j \<noteq> i \<longrightarrow> ps_groups s1 ! j = ps_groups s ! j"
    by blast
  have c1: "consistent s1"
    using Cons.prems(1) s1(2) by (rule frame_consistent)
  have d: "distinct is" using Cons.prems(2) by simp
  have rest: "\<forall>j \<in> set is. ps_groups s1 ! j = gs ! j"
    using s1(7) Cons.prems(2,3) by auto
  have disj: "set (item_keys ?g) \<inter> ?K = {}"
    using Cons.prems(5) by auto
  have pr1: "\<forall>j \<in> set is. present (gs ! j) s1"
  proof
    fix j assume j: "j \<in> set is"
    then have "set (item_keys (gs ! j)) \<subseteq> ?K" by auto
    then have dj: "set (item_keys (gs ! j)) \<inter> set (item_keys ?g) = {}"
      using disj by auto
    have "present (gs ! j) s" using Cons.prems(6) j by simp
    then show "present (gs ! j) s1"
      using s1(2) dj by (rule frame_present)
  qed
  from Cons.IH [OF c1 d rest _ _ pr1] Cons.prems(4,5) obtain s' where
    s': "groups_loop loc s1 is = Inr s'" "frame ?K s1 s'"
      "newbuttoncount s' = newbuttoncount s1"
      "updatedbuttoncount s' = updatedbuttoncount s1 + sum_list (map buttons_counted (map (\<lambda>i. gs ! i) is))"
      "filter is_create (ps_log s') = filter is_create (ps_log s1)"
      "filter is_disable (ps_log s') = filter is_disable (ps_log s1)"
    by auto
  have fr: "frame (set (concat (map item_keys (map (\<lambda>i. gs ! i) (i # is))))) s s'"
    using frame_trans [OF s1(2) s'(2)] by simp
  show ?case
    using s1 s' fr by simp
qed

subsection \<open>panels\<close>

lemma sorted_refs_distinct: "distinct (sorted_refs key xs)"
  by (simp add: sorted_refs_def)

lemma sorted_refs_set: "set (sorted_refs key xs) = {0..<length xs}"
  by (simp add: sorted_refs_def)

lemma built_ok:
  assumes "wf_group g" and "it \<in> set (built_items loc g)"
  shows "item_ok g it"
  using assms
  by (cases "branch_of g")
    (auto simp add: built_items_def item_ok_def new_item_def new_button_def wf_group_def
      image_image split: if_splits)

lemma built_panel_names:
  "list_all wf_group gs \<Longrightarrow>
     map i_Name (concat (map (built_items loc) gs)) = concat (map item_keys gs)"
  by (induction gs) (simp_all add: built_names)

lemma present_built:
  assumes "list_all wf_group gs" and "distinct (concat (map item_keys gs))"
    and "g \<in> set gs" and "it \<in> set (concat (map (built_items loc) gs))"
    and "i_Name it \<in> set (item_keys g)"
  shows "item_ok g it"
  using assms
proof (induction gs)
  case Nil
  then show ?case by simp
next
  case (Cons g0 gs)
  have wf0: "wf_group g0" using Cons.prems(1) by simp
  have disj: "set (item_keys g0) \<inter> set (concat (map item_keys gs)) = {}"
    using Cons.prems(2) by simp
  show ?case
  proof (cases "it \<in> set (built_items loc g0)")
    case True
    then have inb: "it \<in> set (built_items loc g0)" by simp
    then have "i_Name it \<in> set (map i_Name (built_items loc g0))" by simp
    then have n0: "i_Name it \<in> set (item_keys g0)"
      using built_names [OF wf0, of loc] by simp
    show ?thesis
    proof (cases "g = g0")
      case True
      then show ?thesis using wf0 inb by (simp add: built_ok)
    next
      case False
      then have "g \<in> set gs" using Cons.prems(3) by simp
      then have "i_Name it \<in> set (concat (map item_keys gs))"
        using Cons.prems(5) by auto
      then show ?thesis using n0 disj by auto
    qed
  next
    case False
    then have rest: "it \<in> set (concat (map (built_items loc) gs))"
      using Cons.prems(4) by simp
    have wfs: "list_all wf_group gs" using Cons.prems(1) by simp
    have "i_Name it \<in> set (map i_Name (concat (map (built_items loc) gs)))"
      using rest by simp
    then have nr: "i_Name it \<in> set (concat (map item_keys gs))"
      using built_panel_names [OF wfs, of loc] by simp
    show ?thesis
    proof (cases "g = g0")
      case True
      then show ?thesis using nr Cons.prems(5) disj by auto
    next
      case False
      then have "g \<in> set gs" using Cons.prems(3) by simp
      then show ?thesis
        using Cons.IH [OF wfs _ _ rest Cons.prems(5)] Cons.prems(2) by simp
    qed
  qed
qed

lemma disable_items_nil [simp]: "disable_items s [] = s"
  by simp

lemma panel_pass_create:
  assumes "wf_panel p"
  shows "\<exists>s'. panel_pass loc [] [] new upd p = Inr s'
      \<and> ps_items s' = built_panel_items loc p
      \<and> newbuttoncount s' = new + buttons_in_panel p
      \<and> updatedbuttoncount s' = upd"
proof -
  let ?gs = "p_scriptGroups p"
  let ?is = "sorted_refs g_groupOrder ?gs"
  let ?s0 = "\<lparr>ps_groups = ?gs, ps_items = [], ps_dict = dict_of i_Name ([]::RibbonItem list) [],
              newbuttoncount = new, updatedbuttoncount = upd, ps_log = []\<rparr>"
  have m: "map (\<lambda>i. ?gs ! i) ?is = get_sorted_scriptgroups p"
    by (rule sorted_refs_groups)
  have wf: "list_all wf_group (map (\<lambda>i. ?gs ! i) ?is)"
    and dk: "distinct (concat (map item_keys (map (\<lambda>i. ?gs ! i) ?is)))"
    using assms m by (simp_all add: wf_panel_def)
  have "\<exists>s'. groups_loop loc ?s0 ?is = Inr s'
      \<and> ps_items s' = ps_items ?s0 @ concat (map (built_items loc) (map (\<lambda>i. ?gs ! i) ?is))
      \<and> ps_dict s' = []
      \<and> newbuttoncount s' = newbuttoncount ?s0 + sum_list (map buttons_counted (map (\<lambda>i. ?gs ! i) ?is))
      \<and> updatedbuttoncount s' = updatedbuttoncount ?s0
      \<and> filter is_disable (ps_log s') = filter is_disable (ps_log ?s0)"
    using wf dk
    by (intro groups_loop_create) (simp_all add: sorted_refs_distinct)
  then obtain s' where s': "groups_loop loc ?s0 ?is = Inr s'"
      "ps_items s' = concat (map (built_items loc) (get_sorted_scriptgroups p))"
      "ps_dict s' = []"
      "newbuttoncount s' = new + sum_list (map buttons_counted (get_sorted_scriptgroups p))"
      "updatedbuttoncount s' = upd"
    using m by auto
  show ?thesis
    using s' by (simp add: panel_pass_def built_panel_items_def buttons_in_panel_def)
qed

lemma built_consistent:
  assumes "distinct (map i_Name B)" and "ps_items s = B"
    and "ps_dict s = dict_of i_Name B [0..<length B]"
  shows "consistent s"
proof -
  have look: "\<forall>k h. map_of (dict_of i_Name B [0..<length B]) k = Some h \<longrightarrow>
      h < length B \<and> i_Name (B ! h) = k"
  proof (intro allI impI)
    fix k h assume "map_of (dict_of i_Name B [0..<length B]) k = Some h"
    then have "h \<in> set [0..<length B] \<and> i_Name (B ! h) = k"
      by (rule dict_of_range)
    then show "h < length B \<and> i_Name (B ! h) = k" by simp
  qed
  show ?thesis
    using assms look by (simp add: consistent_def)
qed

lemma built_present:
  assumes "list_all wf_group gs" and "distinct (concat (map item_keys gs))"
    and "ps_items s = concat (map (built_items loc) gs)"
    and "ps_dict s = dict_of i_Name (ps_items s) [0..<length (ps_items s)]"
    and "g \<in> set gs"
  shows "present g s"
  unfolding present_def
proof (rule ballI, rule conjI)
  fix k assume k: "k \<in> set (item_keys g)"
  have names: "map i_Name (ps_items s) = concat (map item_keys gs)"
    using built_panel_names [OF assms(1), of loc] assms(3) by simp
  have "fst ` set (ps_dict s) = i_Name ` set (ps_items s)"
    using assms(4) dict_of_all_keys [of i_Name "ps_items s"] by simp
  also have "\<dots> = set (map i_Name (ps_items s))" by simp
  also have "\<dots> = set (concat (map item_keys gs))" using names by simp
  finally have dkeys: "fst ` set (ps_dict s) = set (concat (map item_keys gs))" .
  have "k \<in> set (concat (map item_keys gs))" using k assms(5) by auto
  then show "k \<in> fst ` set (ps_dict s)" using dkeys by simp
  show "\<forall>it \<in> set (ps_items s). i_Name it = k \<longrightarrow> item_ok g it"
  proof (intro ballI impI)
    fix it assume "it \<in> set (ps_items s)" and n: "i_Name it = k"
    then have "it \<in> set (concat (map (built_items loc) gs))"
      using assms(3) by simp
    then show "item_ok g it"
      using present_built [OF assms(1,2,5), of it loc] k n by simp
  qed
qed

lemma built_keys:
  assumes "list_all wf_group gs"
    and "ps_items s = concat (map (built_items loc) gs)"
    and "ps_dict s = dict_of i_Name (ps_items s) [0..<length (ps_items s)]"
  shows "fst ` set (ps_dict s) = set (concat (map item_keys gs))"
proof -
  have names: "map i_Name (ps_items s) = concat (map item_keys gs)"
    using built_panel_names [OF assms(1), of loc] assms(2) by simp
  have "fst ` set (ps_dict s) = i_Name ` set (ps_items s)"
    using assms(3) dict_of_all_keys [of i_Name "ps_items s"] by simp
  also have "\<dots> = set (map i_Name (ps_items s))" by simp
  also have "\<dots> = set (concat (map item_keys gs))" using names by simp
  finally show ?thesis .
qed

lemma groups_loop_built:
  assumes "list_all wf_group (map (\<lambda>i. gs ! i) is)"
    and "distinct (concat (map item_keys (map (\<lambda>i. gs ! i) is)))"
    and "distinct is"
    and "ps_groups s = gs"
    and "ps_items s = concat (map (built_items loc1) (map (\<lambda>i. gs ! i) is))"
    and "ps_dict s = dict_of i_Name (ps_items s) [0..<length (ps_items s)]"
  shows "\<exists>s'. groups_loop loc2 s is = Inr s'
      \<and> ps_dict s' = []
      \<and> newbuttoncount s' = newbuttoncount s
      \<and> updatedbuttoncount s' = updatedbuttoncount s
            + sum_list (map buttons_counted (map (\<lambda>i. gs ! i) is))
      \<and> filter is_create (ps_log s') = filter is_create (ps_log s)
      \<and> filter is_disable (ps_log s') = filter is_disable (ps_log s)"
proof -
  let ?sg = "map (\<lambda>i. gs ! i) is"
  have names: "map i_Name (ps_items s) = concat (map item_keys ?sg)"
    using built_panel_names [OF assms(1), of loc1] assms(5) by simp
  have dn: "distinct (map i_Name (ps_items s))"
    using names assms(2) by simp
  have cons: "consistent s"
    using dn _ assms(6) by (rule built_consistent) simp
  have pr: "\<forall>i \<in> set is. present (gs ! i) s"
  proof
    fix i assume "i \<in> set is"
    then have "gs ! i \<in> set ?sg" by simp
    then show "present (gs ! i) s"
      by (rule built_present [OF assms(1,2,5,6)])
  qed
  have same: "\<forall>i \<in> set is. ps_groups s ! i = gs ! i"
    using assms(4) by simp
  from groups_loop_update [OF cons assms(3) same assms(1,2) pr, of loc2] obtain s' where
    s': "groups_loop loc2 s is = Inr s'"
      "frame (set (concat (map item_keys ?sg))) s s'"
      "newbuttoncount s' = newbuttoncount s"
      "updatedbuttoncount s' = updatedbuttoncount s + sum_list (map buttons_counted ?sg)"
      "filter is_create (ps_log s') = filter is_create (ps_log s)"
      "filter is_disable (ps_log s') = filter is_disable (ps_log s)"
    by blast
  have "fst ` set (ps_dict s') = fst ` set (ps_dict s) - set (concat (map item_keys ?sg))"
    using s'(2) by (simp add: frame_def)
  then have "fst ` set (ps_dict s') = {}"
    using built_keys [OF assms(1,5,6)] by simp
  then have "ps_dict s' = []" by simp
  then show ?thesis
    using s' by simp
qed

lemma panel_pass_update:
  assumes "wf_panel p"
  shows "\<exists>s'. panel_pass loc2 (built_panel_items loc1 p)
          [0..<length (built_panel_items loc1 p)] new upd p = Inr s'
      \<and> newbuttoncount s' = new
      \<and> updatedbuttoncount s' = upd + buttons_in_panel p
      \<and> filter is_create (ps_log s') = []
      \<and> filter is_disable (ps_log s') = []"
proof -
  let ?gs = "p_scriptGroups p"
  let ?is = "sorted_refs g_groupOrder ?gs"
  let ?B = "built_panel_items loc1 p"
  let ?s0 = "\<lparr>ps_groups = ?gs, ps_items = ?B, ps_dict = dict_of i_Name ?B [0..<length ?B],
              newbuttoncount = new, updatedbuttoncount = upd, ps_log = []\<rparr>"
  have m: "map (\<lambda>i. ?gs ! i) ?is = get_sorted_scriptgroups p"
    by (rule sorted_refs_groups)
  have wf: "list_all wf_group (map (\<lambda>i. ?gs ! i) ?is)"
    and dk: "distinct (concat (map item_keys (map (\<lambda>i. ?gs ! i) ?is)))"
    using assms m by (simp_all add: wf_panel_def)
  have di: "distinct ?is" by (rule sorted_refs_distinct)
  have g0: "ps_groups ?s0 = ?gs" by simp
  have i0: "ps_items ?s0 = concat (map (built_items loc1) (map (\<lambda>i. ?gs ! i) ?is))"
    using m by (simp add: built_panel_items_def)
  have d0: "ps_dict ?s0 = dict_of i_Name (ps_items ?s0) [0..<length (ps_items ?s0)]"
    by simp
  from groups_loop_built [OF wf dk di g0 i0 d0, of loc2] obtain s' where
    s': "groups_loop loc2 ?s0 ?is = Inr s'" "ps_dict s' = []"
      "newbuttoncount s' = newbuttoncount ?s0"
      "updatedbuttoncount s' = updatedbuttoncount ?s0
            + sum_list (map buttons_counted (map (\<lambda>i. ?gs ! i) ?is))"
      "filter is_create (ps_log s') = filter is_create (ps_log ?s0)"
      "filter is_disable (ps_log s') = filter is_disable (ps_log ?s0)"
    by blast
  have cnt: "sum_list (map buttons_counted (map (\<lambda>i. ?gs ! i) ?is)) = buttons_in_panel p"
    using m by (simp add: buttons_in_panel_def)
  have pp: "panel_pass loc2 ?B [0..<length ?B] new upd p = Inr s'"
    using s'(1,2) by (simp add: panel_pass_def)
  show ?thesis
    using pp s'(3-6) cnt by simp
qed

subsection \<open>finding or creating the panels of a tab\<close>

lemma find_panels_new:
  assumes "map_of (fs_ribbon s) (t_tabName (fs_tab s)) = Some live"
    and "distinct (map p_panelName ps)"
    and "set (map p_panelName ps) \<inter> set (map rp_Name live) = {}"
  shows "\<exists>s'. find_panels_loop [] s ps = Inr s'
     \<and> map_of (fs_ribbon s') (t_tabName (fs_tab s)) = Some (live @ map empty_panel ps)
     \<and> (\<forall>n. n \<noteq> t_tabName (fs_tab s) \<longrightarrow> map_of (fs_ribbon s') n = map_of (fs_ribbon s) n)
     \<and> t_tabName (fs_tab s') = t_tabName (fs_tab s)
     \<and> t_scriptPanels (fs_tab s') = t_scriptPanels (fs_tab s)
     \<and> (\<forall>j < length ps.
          map_of (t_pyRevitUIPanels (fs_tab s')) (p_panelName (ps ! j)) = Some (length live + j)
          \<and> map_of (t_pyRevitUIButtons (fs_tab s')) (p_panelName (ps ! j)) = Some [])
     \<and> (\<forall>k. k \<notin> set (map p_panelName ps) \<longrightarrow>
          map_of (t_pyRevitUIPanels (fs_tab s')) k = map_of (t_pyRevitUIPanels (fs_tab s)) k
          \<and> map_of (t_pyRevitUIButtons (fs_tab s')) k = map_of (t_pyRevitUIButtons (fs_tab s)) k)"
  using assms
proof (induction ps arbitrary: s live)
  case Nil
  then show ?case by simp
next
  case (Cons p ps)
  let ?T = "fs_tab s"
  let ?n = "t_tabName ?T"
  let ?s1 = "s\<lparr>fs_tab := ?T\<lparr>t_pyRevitUIPanels :=
                   AList.update (p_panelName p) (length live) (t_pyRevitUIPanels ?T),
                 t_pyRevitUIButtons := AList.update (p_panelName p) [] (t_pyRevitUIButtons ?T)\<rparr>,
               fs_ribbon := AList.update ?n (live @ [\<lparr>rp_Name = p_panelName p, rp_items = []\<rparr>])
                   (fs_ribbon s),
               fs_log := fs_log s @ [CreateRibbonPanel ?n (p_panelName p)]\<rparr>"
  have fresh: "p_panelName p \<notin> set (map rp_Name live)"
    using Cons.prems(3) by auto
  have step: "find_panel_step [] s p = Inr ?s1"
    using Cons.prems(1) fresh by (simp add: find_panel_step_def ribbon_panels_def Let_def)
  have live1: "map_of (fs_ribbon ?s1) (t_tabName (fs_tab ?s1)) = Some (live @ [empty_panel p])"
    by (simp add: update_conv' empty_panel_def)
  have d1: "distinct (map p_panelName ps)" using Cons.prems(2) by simp
  have f1: "set (map p_panelName ps) \<inter> set (map rp_Name (live @ [empty_panel p])) = {}"
    using Cons.prems(2,3) by (auto simp add: empty_panel_def)
  from Cons.IH [OF live1 d1 f1] obtain s' where
    s': "find_panels_loop [] ?s1 ps = Inr s'"
      "map_of (fs_ribbon s') (t_tabName (fs_tab ?s1)) = Some ((live @ [empty_panel p]) @ map empty_panel ps)"
      "\<forall>n. n \<noteq> t_tabName (fs_tab ?s1) \<longrightarrow> map_of (fs_ribbon s') n = map_of (fs_ribbon ?s1) n"
      "t_tabName (fs_tab s') = t_tabName (fs_tab ?s1)"
      "t_scriptPanels (fs_tab s') = t_scriptPanels (fs_tab ?s1)"
      "\<forall>j < length ps.
          map_of (t_pyRevitUIPanels (fs_tab s')) (p_panelName (ps ! j))
            = Some (length (live @ [empty_panel p]) + j)
          \<and> map_of (t_pyRevitUIButtons (fs_tab s')) (p_panelName (ps ! j)) = Some []"
      "\<forall>k. k \<notin> set (map p_panelName ps) \<longrightarrow>
          map_of (t_pyRevitUIPanels (fs_tab s')) k = map_of (t_pyRevitUIPanels (fs_tab ?s1)) k
          \<and> map_of (t_pyRevitUIButtons (fs_tab s')) k = map_of (t_pyRevitUIButtons (fs_tab ?s1)) k"
    by blast
  have notin: "p_panelName p \<notin> set (map p_panelName ps)"
    using Cons.prems(2) by simp
  have c1: "find_panels_loop [] s (p # ps) = Inr s'"
    using step s'(1) by simp
  have c2: "map_of (fs_ribbon s') ?n = Some (live @ map empty_panel (p # ps))"
    using s'(2) by simp
  have c3: "\<forall>n. n \<noteq> ?n \<longrightarrow> map_of (fs_ribbon s') n = map_of (fs_ribbon s) n"
    using s'(3) by (simp add: update_conv')
  have c4: "t_tabName (fs_tab s') = ?n" "t_scriptPanels (fs_tab s') = t_scriptPanels ?T"
    using s'(4,5) by simp_all
  have c5: "\<forall>j < length (p # ps).
          map_of (t_pyRevitUIPanels (fs_tab s')) (p_panelName ((p # ps) ! j)) = Some (length live + j)
          \<and> map_of (t_pyRevitUIButtons (fs_tab s')) (p_panelName ((p # ps) ! j)) = Some []"
  proof (intro allI impI)
    fix j assume j: "j < length (p # ps)"
    show "map_of (t_pyRevitUIPanels (fs_tab s')) (p_panelName ((p # ps) ! j)) = Some (length live + j)
          \<and> map_of (t_pyRevitUIButtons (fs_tab s')) (p_panelName ((p # ps) ! j)) = Some []"
    proof (cases j)
      case 0
      then show ?thesis
        using s'(7) notin by (simp add: update_conv')
    next
      case (Suc i)
      then have "i < length ps" using j by simp
      then show ?thesis
        using s'(6) Suc by simp
    qed
  qed
  have c6: "\<forall>k. k \<notin> set (map p_panelName (p # ps)) \<longrightarrow>
          map_of (t_pyRevitUIPanels (fs_tab s')) k = map_of (t_pyRevitUIPanels ?T) k
          \<and> map_of (t_pyRevitUIButtons (fs_tab s')) k = map_of (t_pyRevitUIButtons ?T) k"
    using s'(7) by (simp add: update_conv')
  show ?case
    using c1 c2 c3 c4 c5 c6 by blast
qed

lemma find_panels_found:
  assumes "map_of (fs_ribbon s) (t_tabName (fs_tab s)) = Some live"
    and "\<forall>P \<in> set ps. map_of D (p_panelName P) \<noteq> None"
  shows "\<exists>s'. find_panels_loop D s ps = Inr s'
     \<and> fs_ribbon s' = fs_ribbon s \<and> fs_log s' = fs_log s
     \<and> t_tabName (fs_tab s') = t_tabName (fs_tab s)
     \<and> t_scriptPanels (fs_tab s') = t_scriptPanels (fs_tab s)
     \<and> (\<forall>P \<in> set ps.
          map_of (t_pyRevitUIPanels (fs_tab s')) (p_panelName P) = map_of D (p_panelName P)
          \<and> map_of (t_pyRevitUIButtons (fs_tab s')) (p_panelName P) =
              Some [0..<length (rp_items (live ! the (map_of D (p_panelName P))))])
     \<and> (\<forall>k. k \<notin> set (map p_panelName ps) \<longrightarrow>
          map_of (t_pyRevitUIPanels (fs_tab s')) k = map_of (t_pyRevitUIPanels (fs_tab s)) k
          \<and> map_of (t_pyRevitUIButtons (fs_tab s')) k = map_of (t_pyRevitUIButtons (fs_tab s)) k)"
  using assms
proof (induction ps arbitrary: s)
  case Nil
  then show ?case by simp
next
  case (Cons p ps)
  let ?T = "fs_tab s"
  from Cons.prems(2) obtain h where h: "map_of D (p_panelName p) = Some h"
    by auto
  let ?s1 = "s\<lparr>fs_tab := ?T\<lparr>t_pyRevitUIPanels :=
                   AList.update (p_panelName p) h (t_pyRevitUIPanels ?T),
                 t_pyRevitUIButtons := AList.update (p_panelName p)
                   [0..<length (rp_items (live ! h))] (t_pyRevitUIButtons ?T)\<rparr>\<rparr>"
  have step: "find_panel_step D s p = Inr ?s1"
    using Cons.prems(1) h by (simp add: find_panel_step_def ribbon_panels_def Let_def)
  have live1: "map_of (fs_ribbon ?s1) (t_tabName (fs_tab ?s1)) = Some live"
    using Cons.prems(1) by simp
  have rest: "\<forall>P \<in> set ps. map_of D (p_panelName P) \<noteq> None"
    using Cons.prems(2) by simp
  from Cons.IH [OF live1 rest] obtain s' where
    s': "find_panels_loop D ?s1 ps = Inr s'"
      "fs_ribbon s' = fs_ribbon ?s1" "fs_log s' = fs_log ?s1"
      "t_tabName (fs_tab s') = t_tabName (fs_tab ?s1)"
      "t_scriptPanels (fs_tab s') = t_scriptPanels (fs_tab ?s1)"
      "\<forall>P \<in> set ps.
          map_of (t_pyRevitUIPanels (fs_tab s')) (p_panelName P) = map_of D (p_panelName P)
          \<and> map_of (t_pyRevitUIButtons (fs_tab s')) (p_panelName P) =
              Some [0..<length (rp_items (live ! the (map_of D (p_panelName P))))]"
      "\<forall>k. k \<notin> set (map p_panelName ps) \<longrightarrow>
          map_of (t_pyRevitUIPanels (fs_tab s')) k = map_of (t_pyRevitUIPanels (fs_tab ?s1)) k
          \<and> map_of (t_pyRevitUIButtons (fs_tab s')) k = map_of (t_pyRevitUIButtons (fs_tab ?s1)) k"
    by blast
  have c1: "find_panels_loop D s (p # ps) = Inr s'"
    using step s'(1) by simp
  have c5: "\<forall>P \<in> set (p # ps).
          map_of (t_pyRevitUIPanels (fs_tab s')) (p_panelName P) = map_of D (p_panelName P)
          \<and> map_of (t_pyRevitUIButtons (fs_tab s')) (p_panelName P) =
              Some [0..<length (rp_items (live ! the (map_of D (p_panelName P))))]"
  proof
    fix P assume P: "P \<in> set (p # ps)"
    show "map_of (t_pyRevitUIPanels (fs_tab s')) (p_panelName P) = map_of D (p_panelName P)
          \<and> map_of (t_pyRevitUIButtons (fs_tab s')) (p_panelName P) =
              Some [0..<length (rp_items (live ! the (map_of D (p_panelName P))))]"
    proof (cases "P \<in> set ps")
      case True
      then show ?thesis using s'(6) by simp
    next
      case False
      then have Pp: "P = p" using P by simp
      show ?thesis
      proof (cases "p_panelName p \<in> set (map p_panelName ps)")
        case True
        then obtain P' where "P' \<in> set ps" "p_panelName P' = p_panelName p" by auto
        then show ?thesis using s'(6) Pp by metis
      next
        case False
        then show ?thesis
          using s'(7) Pp h by (simp add: update_conv')
      qed
    qed
  qed
  have c6: "\<forall>k. k \<notin> set (map p_panelName (p # ps)) \<longrightarrow>
          map_of (t_pyRevitUIPanels (fs_tab s')) k = map_of (t_pyRevitUIPanels ?T) k
          \<and> map_of (t_pyRevitUIButtons (fs_tab s')) k = map_of (t_pyRevitUIButtons ?T) k"
    using s'(7) by (simp add: update_conv')
  show ?case
    using c1 s'(2,3,4,5) c5 c6 by simp
qed

subsection \<open>finding or creating the tabs\<close>

lemma sorted_panels_length [simp]:
  "length (get_sorted_scriptpanels T) = length (t_scriptPanels T)"
  by (simp add: get_sorted_scriptpanels_def)

lemma ribbon_holds_cong:
  "map_of R' (t_tabName T) = map_of R (t_tabName T) \<Longrightarrow> ribbon_holds I R' T = ribbon_holds I R T"
  by (simp add: ribbon_holds_def)

lemma no_commands_no_panels:
  "wf_tab T \<Longrightarrow> \<not> hascommands T \<Longrightarrow> t_scriptPanels T = []"
  by (simp add: wf_tab_def)

lemma create_or_find_tab_new:
  assumes "wf_tab T" and "map_of r (t_tabName T) = None"
  shows "\<exists>f. create_or_find_tab r log T = Inr f
      \<and> holds_refs (\<lambda>P. []) T (fs_tab f)
      \<and> ribbon_holds (\<lambda>P. []) (fs_ribbon f) T
      \<and> (\<forall>n. n \<noteq> t_tabName T \<longrightarrow> map_of (fs_ribbon f) n = map_of r n)"
proof (cases "hascommands T")
  case False
  have "t_scriptPanels T = []" using assms(1) False by (rule no_commands_no_panels)
  then show ?thesis
    using False by (simp add: create_or_find_tab_def holds_refs_def ribbon_holds_def)
next
  case True
  let ?sp = "get_sorted_scriptpanels T"
  let ?s0 = "\<lparr>fs_tab = T, fs_ribbon = r @ [(t_tabName T, [])],
              fs_log = log @ [CreateRibbonTab (t_tabName T)]\<rparr>"
  have eq: "create_or_find_tab r log T = find_panels_loop [] ?s0 ?sp"
    using True assms(2) by (simp add: create_or_find_tab_def)
  have live: "map_of (fs_ribbon ?s0) (t_tabName (fs_tab ?s0)) = Some []"
    using assms(2) by (simp add: map_add_def)
  have d: "distinct (map p_panelName ?sp)"
    using assms(1) by (simp add: wf_tab_def)
  have other: "\<forall>n. n \<noteq> t_tabName T \<longrightarrow> map_of (fs_ribbon ?s0) n = map_of r n"
    by (simp add: map_add_def split: option.splits)
  from find_panels_new [OF live d] obtain f where
    f: "find_panels_loop [] ?s0 ?sp = Inr f"
      "map_of (fs_ribbon f) (t_tabName (fs_tab ?s0)) = Some ([] @ map empty_panel ?sp)"
      "\<forall>n. n \<noteq> t_tabName (fs_tab ?s0) \<longrightarrow> map_of (fs_ribbon f) n = map_of (fs_ribbon ?s0) n"
      "t_tabName (fs_tab f) = t_tabName (fs_tab ?s0)"
      "t_scriptPanels (fs_tab f) = t_scriptPanels (fs_tab ?s0)"
      "\<forall>j < length ?sp.
          map_of (t_pyRevitUIPanels (fs_tab f)) (p_panelName (?sp ! j)) = Some (length ([]::RibbonPanel list) + j)
          \<and> map_of (t_pyRevitUIButtons (fs_tab f)) (p_panelName (?sp ! j)) = Some []"
    by auto
  have refs: "holds_refs (\<lambda>P. []) T (fs_tab f)"
    using f(4,5,6) by (simp add: holds_refs_def)
  have rib: "ribbon_holds (\<lambda>P. []) (fs_ribbon f) T"
    using f(2) by (simp add: ribbon_holds_def empty_panel_def comp_def)
  have oth: "\<forall>n. n \<noteq> t_tabName T \<longrightarrow> map_of (fs_ribbon f) n = map_of r n"
    using f(3) other by simp
  show ?thesis
    using eq f(1) refs rib oth by simp
qed

lemma create_or_find_tab_found:
  assumes "wf_tab T" and "ribbon_holds I r T"
  shows "\<exists>f. create_or_find_tab r log T = Inr f
      \<and> holds_refs I T (fs_tab f) \<and> fs_ribbon f = r \<and> fs_log f = log"
proof (cases "hascommands T")
  case False
  have "t_scriptPanels T = []" using assms(1) False by (rule no_commands_no_panels)
  then show ?thesis
    using False by (simp add: create_or_find_tab_def holds_refs_def)
next
  case True
  note hc = True
  show ?thesis
  proof (cases "t_scriptPanels T = []")
    case True
    then have "\<not> hascommands T" by (simp add: hascommands_def)
    then show ?thesis using hc by simp
  next
    case False
    let ?sp = "get_sorted_scriptpanels T"
    from assms(2) False obtain live where
      live: "map_of r (t_tabName T) = Some live"
        "map rp_Name live = map p_panelName ?sp" "map rp_items live = map I ?sp"
      by (auto simp add: ribbon_holds_def)
    let ?D = "dict_of rp_Name live [0..<length live]"
    let ?s0 = "\<lparr>fs_tab = T, fs_ribbon = r, fs_log = log\<rparr>"
    have eq: "create_or_find_tab r log T = find_panels_loop ?D ?s0 ?sp"
      using True live(1) by (simp add: create_or_find_tab_def)
    have len: "length live = length ?sp"
      using live(2) by (metis length_map)
    have dl: "distinct (map rp_Name live)"
      using assms(1) live(2) by (simp add: wf_tab_def)
    have look: "\<forall>j < length ?sp. map_of ?D (p_panelName (?sp ! j)) = Some j"
    proof (intro allI impI)
      fix j assume j: "j < length ?sp"
      then have "rp_Name (live ! j) = p_panelName (?sp ! j)"
        using live(2) len by (metis nth_map)
      then show "map_of ?D (p_panelName (?sp ! j)) = Some j"
        using dict_of_lookup [OF dl, of j] j len by simp
    qed
    have items: "\<forall>j < length ?sp. rp_items (live ! j) = I (?sp ! j)"
    proof (intro allI impI)
      fix j assume j: "j < length ?sp"
      then show "rp_items (live ! j) = I (?sp ! j)"
        using live(3) len by (metis nth_map)
    qed
    have found: "\<forall>P \<in> set ?sp. map_of ?D (p_panelName P) \<noteq> None"
      using look by (auto simp add: in_set_conv_nth)
    have live0: "map_of (fs_ribbon ?s0) (t_tabName (fs_tab ?s0)) = Some live"
      using live(1) by simp
    from find_panels_found [OF live0 found] obtain f where
      f: "find_panels_loop ?D ?s0 ?sp = Inr f"
        "fs_ribbon f = fs_ribbon ?s0" "fs_log f = fs_log ?s0"
        "t_tabName (fs_tab f) = t_tabName (fs_tab ?s0)"
        "t_scriptPanels (fs_tab f) = t_scriptPanels (fs_tab ?s0)"
        "\<forall>P \<in> set ?sp.
          map_of (t_pyRevitUIPanels (fs_tab f)) (p_panelName P) = map_of ?D (p_panelName P)
          \<and> map_of (t_pyRevitUIButtons (fs_tab f)) (p_panelName P) =
              Some [0..<length (rp_items (live ! the (map_of ?D (p_panelName P))))]"
      by blast
    have refs: "holds_refs I T (fs_tab f)"
      unfolding holds_refs_def
    proof (intro conjI allI impI)
      show "t_tabName (fs_tab f) = t_tabName T" using f(4) by simp
      show "t_scriptPanels (fs_tab f) = t_scriptPanels T" using f(5) by simp
    next
      fix j assume "j < length (t_scriptPanels T)"
      then have j: "j < length ?sp" by simp
      then have mem: "?sp ! j \<in> set ?sp" by simp
      have l: "map_of ?D (p_panelName (?sp ! j)) = Some j" using look j by simp
      show "map_of (t_pyRevitUIPanels (fs_tab f)) (p_panelName (?sp ! j)) = Some j"
        using f(6) mem l by simp
      show "map_of (t_pyRevitUIButtons (fs_tab f)) (p_panelName (?sp ! j)) =
          Some [0..<length (I (?sp ! j))]"
        using f(6) mem l items j by simp
    qed
    show ?thesis
      using eq f(1,2,3) refs by simp
  qed
qed

lemma cofpp_new:
  assumes "list_all wf_tab ts" and "distinct (map t_tabName ts)"
    and "\<forall>T \<in> set ts. map_of (ui_ribbon s) (t_tabName T) = None"
  shows "\<exists>s' Ts. create_or_find_pyrevit_panels s ts = Inr s'
      \<and> ui_tabs s' = ui_tabs s @ Ts \<and> list_all2 (holds_refs (\<lambda>P. [])) ts Ts
      \<and> (\<forall>T \<in> set ts. ribbon_holds (\<lambda>P. []) (ui_ribbon s') T)
      \<and> (\<forall>n. n \<notin> set (map t_tabName ts) \<longrightarrow> map_of (ui_ribbon s') n = map_of (ui_ribbon s) n)
      \<and> ui_new s' = ui_new s \<and> ui_updated s' = ui_updated s"
  using assms
proof (induction ts arbitrary: s)
  case Nil
  then show ?case by simp
next
  case (Cons T ts)
  have wf: "wf_tab T" and none: "map_of (ui_ribbon s) (t_tabName T) = None"
    using Cons.prems by simp_all
  from create_or_find_tab_new [OF wf none, of "ui_log s"] obtain f where
    f1: "create_or_find_tab (ui_ribbon s) (ui_log s) T = Inr f"
    and f2: "holds_refs (\<lambda>P. []) T (fs_tab f)"
    and f3: "ribbon_holds (\<lambda>P. []) (fs_ribbon f) T"
    and f4: "\<forall>n. n \<noteq> t_tabName T \<longrightarrow> map_of (fs_ribbon f) n = map_of (ui_ribbon s) n"
    by blast
  define s1 where "s1 = s\<lparr>ui_tabs := ui_tabs s @ [fs_tab f], ui_ribbon := fs_ribbon f,
      ui_log := fs_log f\<rparr>"
  have s1_fields: "ui_tabs s1 = ui_tabs s @ [fs_tab f]" "ui_ribbon s1 = fs_ribbon f"
      "ui_new s1 = ui_new s" "ui_updated s1 = ui_updated s"
    by (simp_all add: s1_def)
  have notin: "t_tabName T \<notin> set (map t_tabName ts)"
    using Cons.prems(2) by simp
  have none1: "\<forall>T' \<in> set ts. map_of (ui_ribbon s1) (t_tabName T') = None"
  proof
    fix T' assume T': "T' \<in> set ts"
    then have "t_tabName T' \<in> set (map t_tabName ts)" by simp
    then have ne: "t_tabName T' \<noteq> t_tabName T" using notin by auto
    have "map_of (ui_ribbon s) (t_tabName T') = None"
      using Cons.prems(3) T' by simp
    moreover have "map_of (fs_ribbon f) (t_tabName T') = map_of (ui_ribbon s) (t_tabName T')"
      using f4 ne by blast
    ultimately show "map_of (ui_ribbon s1) (t_tabName T') = None"
      by (simp add: s1_fields)
  qed
  have wfs: "list_all wf_tab ts" and d: "distinct (map t_tabName ts)"
    using Cons.prems by simp_all
  from Cons.IH [OF wfs d none1] obtain s' Ts where
    r1: "create_or_find_pyrevit_panels s1 ts = Inr s'"
    and r2: "ui_tabs s' = ui_tabs s1 @ Ts"
    and r3: "list_all2 (holds_refs (\<lambda>P. [])) ts Ts"
    and r4: "\<forall>T \<in> set ts. ribbon_holds (\<lambda>P. []) (ui_ribbon s') T"
    and r5: "\<forall>n. n \<notin> set (map t_tabName ts) \<longrightarrow> map_of (ui_ribbon s') n = map_of (ui_ribbon s1) n"
    and r6: "ui_new s' = ui_new s1" and r7: "ui_updated s' = ui_updated s1"
    by blast
  have c1: "create_or_find_pyrevit_panels s (T # ts) = Inr s'"
    using f1 r1 by (simp add: s1_def)
  have c2: "ui_tabs s' = ui_tabs s @ (fs_tab f # Ts)"
    using r2 by (simp add: s1_fields)
  have c3: "list_all2 (holds_refs (\<lambda>P. [])) (T # ts) (fs_tab f # Ts)"
    using f2 r3 by simp
  have "map_of (ui_ribbon s') (t_tabName T) = map_of (ui_ribbon s1) (t_tabName T)"
    using r5 notin by blast
  then have "map_of (ui_ribbon s') (t_tabName T) = map_of (fs_ribbon f) (t_tabName T)"
    by (simp add: s1_fields)
  then have "ribbon_holds (\<lambda>P. []) (ui_ribbon s') T = ribbon_holds (\<lambda>P. []) (fs_ribbon f) T"
    by (rule ribbon_holds_cong)
  then have h: "ribbon_holds (\<lambda>P. []) (ui_ribbon s') T"
    using f3 by simp
  have c4: "\<forall>T' \<in> set (T # ts). ribbon_holds (\<lambda>P. []) (ui_ribbon s') T'"
  proof
    fix T' assume "T' \<in> set (T # ts)"
    then have "T' = T \<or> T' \<in> set ts" by simp
    then show "ribbon_holds (\<lambda>P. []) (ui_ribbon s') T'"
      using h r4 by blast
  qed
  have c5: "\<forall>n. n \<notin> set (map t_tabName (T # ts)) \<longrightarrow>
      map_of (ui_ribbon s') n = map_of (ui_ribbon s) n"
  proof (intro allI impI)
    fix n assume n: "n \<notin> set (map t_tabName (T # ts))"
    then have a: "n \<noteq> t_tabName T" and b: "n \<notin> set (map t_tabName ts)" by simp_all
    have "map_of (ui_ribbon s') n = map_of (ui_ribbon s1) n" using r5 b by blast
    also have "\<dots> = map_of (fs_ribbon f) n" by (simp add: s1_fields)
    also have "\<dots> = map_of (ui_ribbon s) n" using f4 a by blast
    finally show "map_of (ui_ribbon s') n = map_of (ui_ribbon s) n" .
  qed
  have c6: "ui_new s' = ui_new s" "ui_updated s' = ui_updated s"
    using r6 r7 by (simp_all add: s1_fields)
  from c1 c2 c3 c4 c5 c6 show ?case
    by blast
qed

lemma cofpp_found:
  assumes "list_all wf_tab ts" and "\<forall>T \<in> set ts. ribbon_holds I (ui_ribbon s) T"
  shows "\<exists>s' Ts. create_or_find_pyrevit_panels s ts = Inr s'
      \<and> ui_tabs s' = ui_tabs s @ Ts \<and> list_all2 (holds_refs I) ts Ts
      \<and> ui_ribbon s' = ui_ribbon s \<and> ui_log s' = ui_log s
      \<and> ui_new s' = ui_new s \<and> ui_updated s' = ui_updated s"
  using assms
proof (induction ts arbitrary: s)
  case Nil
  then show ?case by simp
next
  case (Cons T ts)
  have wf: "wf_tab T" and rh: "ribbon_holds I (ui_ribbon s) T"
    using Cons.prems by simp_all
  from create_or_find_tab_found [OF wf rh, of "ui_log s"] obtain f where
    f1: "create_or_find_tab (ui_ribbon s) (ui_log s) T = Inr f"
    and f2: "holds_refs I T (fs_tab f)" and f3: "fs_ribbon f = ui_ribbon s"
    and f4: "fs_log f = ui_log s"
    by blast
  define s1 where "s1 = s\<lparr>ui_tabs := ui_tabs s @ [fs_tab f], ui_ribbon := fs_ribbon f,
      ui_log := fs_log f\<rparr>"
  have s1_fields: "ui_tabs s1 = ui_tabs s @ [fs_tab f]" "ui_ribbon s1 = ui_ribbon s"
      "ui_log s1 = ui_log s" "ui_new s1 = ui_new s" "ui_updated s1 = ui_updated s"
    using f3 f4 by (simp_all add: s1_def)
  have wfs: "list_all wf_tab ts" using Cons.prems by simp
  have rh1: "\<forall>T \<in> set ts. ribbon_holds I (ui_ribbon s1) T"
    using Cons.prems(2) by (simp add: s1_fields)
  from Cons.IH [OF wfs rh1] obtain s' Ts where
    r1: "create_or_find_pyrevit_panels s1 ts = Inr s'"
    and r2: "ui_tabs s' = ui_tabs s1 @ Ts" and r3: "list_all2 (holds_refs I) ts Ts"
    and r4: "ui_ribbon s' = ui_ribbon s1" and r5: "ui_log s' = ui_log s1"
    and r6: "ui_new s' = ui_new s1" and r7: "ui_updated s' = ui_updated s1"
    by blast
  have c1: "create_or_find_pyrevit_panels s (T # ts) = Inr s'"
    using f1 r1 by (simp add: s1_def)
  have c2: "ui_tabs s' = ui_tabs s @ (fs_tab f # Ts)"
    using r2 by (simp add: s1_fields)
  have c3: "list_all2 (holds_refs I) (T # ts) (fs_tab f # Ts)"
    using f2 r3 by simp
  have c4: "ui_ribbon s' = ui_ribbon s" "ui_log s' = ui_log s" "ui_new s' = ui_new s"
      "ui_updated s' = ui_updated s"
    using r4 r5 r6 r7 by (simp_all add: s1_fields)
  from c1 c2 c3 c4 show ?case
    by blast
qed

subsection \<open>the pass over a panel, committed\<close>

lemma createui_panel_step:
  assumes "t < length (ui_tabs s)" and "q < length (t_scriptPanels (ui_tabs s ! t))"
    and "t_scriptPanels (ui_tabs s ! t) ! q = P"
    and "map_of (t_pyRevitUIPanels (ui_tabs s ! t)) (p_panelName P) = Some h"
    and "map_of (t_pyRevitUIButtons (ui_tabs s ! t)) (p_panelName P) = Some btns"
    and "map_of (ui_ribbon s) (t_tabName (ui_tabs s ! t)) = Some live"
    and "panel_pass loc (rp_items (live ! h)) btns (ui_new s) (ui_updated s) P = Inr ps"
  shows "\<exists>s'. createui_panel loc t s q = Inr s'
     \<and> map_of (ui_ribbon s') (t_tabName (ui_tabs s ! t)) =
         Some (live[h := (live ! h)\<lparr>rp_items := ps_items ps\<rparr>])
     \<and> (\<forall>n. n \<noteq> t_tabName (ui_tabs s ! t) \<longrightarrow> map_of (ui_ribbon s') n = map_of (ui_ribbon s) n)
     \<and> length (ui_tabs s') = length (ui_tabs s)
     \<and> (\<forall>t'. t' \<noteq> t \<longrightarrow> ui_tabs s' ! t' = ui_tabs s ! t')
     \<and> t_tabName (ui_tabs s' ! t) = t_tabName (ui_tabs s ! t)
     \<and> t_pyRevitUIPanels (ui_tabs s' ! t) = t_pyRevitUIPanels (ui_tabs s ! t)
     \<and> t_pyRevitUIButtons (ui_tabs s' ! t) = t_pyRevitUIButtons (ui_tabs s ! t)
     \<and> length (t_scriptPanels (ui_tabs s' ! t)) = length (t_scriptPanels (ui_tabs s ! t))
     \<and> (\<forall>q'. q' \<noteq> q \<longrightarrow>
           t_scriptPanels (ui_tabs s' ! t) ! q' = t_scriptPanels (ui_tabs s ! t) ! q')
     \<and> ui_new s' = newbuttoncount ps \<and> ui_updated s' = updatedbuttoncount ps
     \<and> ui_log s' = ui_log s
          @ map (PanelOp (t_tabName (ui_tabs s ! t)) (p_panelName P)) (ps_log ps)"
proof -
  let ?s' = "commit_panel s t q h ps"
  have eq: "createui_panel loc t s q = Inr ?s'"
    using assms(3,4,5,6,7) by (simp add: createui_panel_def Let_def ribbon_panels_def)
  have rib: "ui_ribbon ?s' = AList.update (t_tabName (ui_tabs s ! t))
      (live[h := (live ! h)\<lparr>rp_items := ps_items ps\<rparr>]) (ui_ribbon s)"
    using assms(6) by (simp add: commit_panel_def Let_def ribbon_panels_def)
  have tabs: "ui_tabs ?s' = (ui_tabs s)[t := (ui_tabs s ! t)\<lparr>t_scriptPanels :=
      (t_scriptPanels (ui_tabs s ! t))[q := P\<lparr>p_scriptGroups := ps_groups ps\<rparr>]\<rparr>]"
    using assms(3) by (simp add: commit_panel_def Let_def)
  have c2: "map_of (ui_ribbon ?s') (t_tabName (ui_tabs s ! t)) =
         Some (live[h := (live ! h)\<lparr>rp_items := ps_items ps\<rparr>])"
    by (simp add: rib update_conv')
  have c3: "\<forall>n. n \<noteq> t_tabName (ui_tabs s ! t) \<longrightarrow>
      map_of (ui_ribbon ?s') n = map_of (ui_ribbon s) n"
    by (simp add: rib update_conv')
  have c4: "length (ui_tabs ?s') = length (ui_tabs s)"
    by (simp add: tabs)
  have c5: "\<forall>t'. t' \<noteq> t \<longrightarrow> ui_tabs ?s' ! t' = ui_tabs s ! t'"
    by (simp add: tabs)
  have tt: "ui_tabs ?s' ! t = (ui_tabs s ! t)\<lparr>t_scriptPanels :=
      (t_scriptPanels (ui_tabs s ! t))[q := P\<lparr>p_scriptGroups := ps_groups ps\<rparr>]\<rparr>"
    using assms(1) by (simp add: tabs)
  have c6: "t_tabName (ui_tabs ?s' ! t) = t_tabName (ui_tabs s ! t)"
      "t_pyRevitUIPanels (ui_tabs ?s' ! t) = t_pyRevitUIPanels (ui_tabs s ! t)"
      "t_pyRevitUIButtons (ui_tabs ?s' ! t) = t_pyRevitUIButtons (ui_tabs s ! t)"
      "length (t_scriptPanels (ui_tabs ?s' ! t)) = length (t_scriptPanels (ui_tabs s ! t))"
    by (simp_all add: tt)
  have c7: "\<forall>q'. q' \<noteq> q \<longrightarrow>
           t_scriptPanels (ui_tabs ?s' ! t) ! q' = t_scriptPanels (ui_tabs s ! t) ! q'"
    by (simp add: tt)
  have c8: "ui_new ?s' = newbuttoncount ps" "ui_updated ?s' = updatedbuttoncount ps"
      "ui_log ?s' = ui_log s
          @ map (PanelOp (t_tabName (ui_tabs s ! t)) (p_panelName P)) (ps_log ps)"
    using assms(3) by (simp_all add: commit_panel_def Let_def)
  from eq c2 c3 c4 c5 c6 c7 c8 show ?thesis
    by blast
qed

lemma names_update_items:
  "map rp_Name (live[h := (live ! h)\<lparr>rp_items := x\<rparr>]) = map rp_Name live"
proof (rule nth_equalityI)
  show "length (map rp_Name (live[h := (live ! h)\<lparr>rp_items := x\<rparr>])) = length (map rp_Name live)"
    by simp
next
  fix i assume "i < length (map rp_Name (live[h := (live ! h)\<lparr>rp_items := x\<rparr>]))"
  then have i: "i < length live" by simp
  show "map rp_Name (live[h := (live ! h)\<lparr>rp_items := x\<rparr>]) ! i = map rp_Name live ! i"
    using i by (cases "i = h") simp_all
qed

lemma createui_panels_loop:
  assumes pass: "\<And>P new upd. wf_panel P \<Longrightarrow>
      \<exists>ps. panel_pass loc (I P) [0..<length (I P)] new upd P = Inr ps
        \<and> newbuttoncount ps = new + dn P \<and> updatedbuttoncount ps = upd + du P
        \<and> okl (ps_log ps) \<and> oki P (ps_items ps)"
    and plog: "\<And>L l tn pn. Plog L \<Longrightarrow> okl l \<Longrightarrow> Plog (L @ map (PanelOp tn pn) l)"
    and "t < length (ui_tabs s)"
    and "t_tabName (ui_tabs s ! t) = name"
    and "t_pyRevitUIPanels (ui_tabs s ! t) = UP"
    and "t_pyRevitUIButtons (ui_tabs s ! t) = UB"
    and "map_of (ui_ribbon s) name = Some live"
    and "distinct qs" and "length Ps = length qs"
    and "\<forall>j < length qs. qs ! j < length (t_scriptPanels (ui_tabs s ! t))
           \<and> t_scriptPanels (ui_tabs s ! t) ! (qs ! j) = Ps ! j"
    and "k + length qs \<le> length live"
    and "\<forall>j < length qs. wf_panel (Ps ! j)
           \<and> map_of UP (p_panelName (Ps ! j)) = Some (k + j)
           \<and> map_of UB (p_panelName (Ps ! j)) = Some [0..<length (I (Ps ! j))]
           \<and> rp_items (live ! (k + j)) = I (Ps ! j)"
    and "Plog (ui_log s)"
  shows "\<exists>s' live'. createui_panels loc t s qs = Inr s'
     \<and> map_of (ui_ribbon s') name = Some live'
     \<and> map rp_Name live' = map rp_Name live
     \<and> (\<forall>i < length live. i < k \<or> k + length qs \<le> i \<longrightarrow> live' ! i = live ! i)
     \<and> (\<forall>j < length qs. oki (Ps ! j) (rp_items (live' ! (k + j))))
     \<and> (\<forall>n. n \<noteq> name \<longrightarrow> map_of (ui_ribbon s') n = map_of (ui_ribbon s) n)
     \<and> length (ui_tabs s') = length (ui_tabs s)
     \<and> (\<forall>t'. t' \<noteq> t \<longrightarrow> ui_tabs s' ! t' = ui_tabs s ! t')
     \<and> ui_new s' = ui_new s + sum_list (map dn Ps)
     \<and> ui_updated s' = ui_updated s + sum_list (map du Ps)
     \<and> Plog (ui_log s')"
  using assms(3-)
proof (induction qs arbitrary: s live k Ps)
  case Nil
  then show ?case by simp
next
  case (Cons q qs)
  from Cons.prems(7) obtain P Ps' where Ps: "Ps = P # Ps'" and lenPs: "length Ps' = length qs"
    by (cases Ps) simp_all
  let ?T = "ui_tabs s ! t"
  have q0: "q < length (t_scriptPanels ?T)" "t_scriptPanels ?T ! q = P"
    using Cons.prems(8) Ps by auto
  have h0: "wf_panel P" "map_of UP (p_panelName P) = Some k"
      "map_of UB (p_panelName P) = Some [0..<length (I P)]" "rp_items (live ! k) = I P"
    using Cons.prems(10) Ps by auto
  from pass [OF h0(1), of "ui_new s" "ui_updated s"] obtain ps where
    ps: "panel_pass loc (I P) [0..<length (I P)] (ui_new s) (ui_updated s) P = Inr ps"
      "newbuttoncount ps = ui_new s + dn P" "updatedbuttoncount ps = ui_updated s + du P"
      "okl (ps_log ps)" "oki P (ps_items ps)"
    by blast
  have a4: "map_of (t_pyRevitUIPanels ?T) (p_panelName P) = Some k"
    using h0(2) Cons.prems(3) by simp
  have a5: "map_of (t_pyRevitUIButtons ?T) (p_panelName P) = Some [0..<length (I P)]"
    using h0(3) Cons.prems(4) by simp
  have a6: "map_of (ui_ribbon s) (t_tabName ?T) = Some live"
    using Cons.prems(5,2) by simp
  have a7: "panel_pass loc (rp_items (live ! k)) [0..<length (I P)] (ui_new s) (ui_updated s) P
      = Inr ps"
    using ps(1) h0(4) by simp
  let ?live1 = "live[k := (live ! k)\<lparr>rp_items := ps_items ps\<rparr>]"
  from createui_panel_step [OF Cons.prems(1) q0(1) q0(2) a4 a5 a6 a7] obtain s1 where
    s1: "createui_panel loc t s q = Inr s1"
    and r1: "map_of (ui_ribbon s1) (t_tabName ?T) = Some ?live1"
    and r2: "\<forall>n. n \<noteq> t_tabName ?T \<longrightarrow> map_of (ui_ribbon s1) n = map_of (ui_ribbon s) n"
    and r3: "length (ui_tabs s1) = length (ui_tabs s)"
    and r4: "\<forall>t'. t' \<noteq> t \<longrightarrow> ui_tabs s1 ! t' = ui_tabs s ! t'"
    and r5: "t_tabName (ui_tabs s1 ! t) = t_tabName ?T"
    and r6: "t_pyRevitUIPanels (ui_tabs s1 ! t) = t_pyRevitUIPanels ?T"
    and r7: "t_pyRevitUIButtons (ui_tabs s1 ! t) = t_pyRevitUIButtons ?T"
    and r8: "length (t_scriptPanels (ui_tabs s1 ! t)) = length (t_scriptPanels ?T)"
    and r9: "\<forall>q'. q' \<noteq> q \<longrightarrow> t_scriptPanels (ui_tabs s1 ! t) ! q' = t_scriptPanels ?T ! q'"
    and r10: "ui_new s1 = newbuttoncount ps" and r11: "ui_updated s1 = updatedbuttoncount ps"
    and r12: "ui_log s1 = ui_log s @ map (PanelOp (t_tabName ?T) (p_panelName P)) (ps_log ps)"
    by blast
  have i1: "t < length (ui_tabs s1)" using r3 Cons.prems(1) by simp
  have i2: "t_tabName (ui_tabs s1 ! t) = name" using r5 Cons.prems(2) by simp
  have i3: "t_pyRevitUIPanels (ui_tabs s1 ! t) = UP" using r6 Cons.prems(3) by simp
  have i4: "t_pyRevitUIButtons (ui_tabs s1 ! t) = UB" using r7 Cons.prems(4) by simp
  have i5: "map_of (ui_ribbon s1) name = Some ?live1" using r1 Cons.prems(2) by simp
  have i6: "distinct qs" and qnot: "q \<notin> set qs" using Cons.prems(6) by simp_all
  have i8: "\<forall>j < length qs. qs ! j < length (t_scriptPanels (ui_tabs s1 ! t))
           \<and> t_scriptPanels (ui_tabs s1 ! t) ! (qs ! j) = Ps' ! j"
  proof (intro allI impI)
    fix j assume j: "j < length qs"
    then have ne: "qs ! j \<noteq> q" using qnot nth_mem by metis
    have "Suc j < length (q # qs)" using j by simp
    then have "(q # qs) ! Suc j < length (t_scriptPanels ?T)
        \<and> t_scriptPanels ?T ! ((q # qs) ! Suc j) = Ps ! Suc j"
      using Cons.prems(8) by blast
    then have a: "qs ! j < length (t_scriptPanels ?T)" "t_scriptPanels ?T ! (qs ! j) = Ps' ! j"
      using Ps by simp_all
    have "t_scriptPanels (ui_tabs s1 ! t) ! (qs ! j) = t_scriptPanels ?T ! (qs ! j)"
      using r9 ne by blast
    then show "qs ! j < length (t_scriptPanels (ui_tabs s1 ! t))
           \<and> t_scriptPanels (ui_tabs s1 ! t) ! (qs ! j) = Ps' ! j"
      using a r8 by simp
  qed
  have i9: "Suc k + length qs \<le> length ?live1" using Cons.prems(9) by simp
  have i10: "\<forall>j < length qs. wf_panel (Ps' ! j)
           \<and> map_of UP (p_panelName (Ps' ! j)) = Some (Suc k + j)
           \<and> map_of UB (p_panelName (Ps' ! j)) = Some [0..<length (I (Ps' ! j))]
           \<and> rp_items (?live1 ! (Suc k + j)) = I (Ps' ! j)"
  proof (intro allI impI)
    fix j assume j: "j < length qs"
    then have "Suc j < length (q # qs)" by simp
    then have "wf_panel (Ps ! Suc j)
           \<and> map_of UP (p_panelName (Ps ! Suc j)) = Some (k + Suc j)
           \<and> map_of UB (p_panelName (Ps ! Suc j)) = Some [0..<length (I (Ps ! Suc j))]
           \<and> rp_items (live ! (k + Suc j)) = I (Ps ! Suc j)"
      using Cons.prems(10) by blast
    then show "wf_panel (Ps' ! j)
           \<and> map_of UP (p_panelName (Ps' ! j)) = Some (Suc k + j)
           \<and> map_of UB (p_panelName (Ps' ! j)) = Some [0..<length (I (Ps' ! j))]
           \<and> rp_items (?live1 ! (Suc k + j)) = I (Ps' ! j)"
      using Ps by simp
  qed
  have i11: "Plog (ui_log s1)"
    using plog [OF Cons.prems(11) ps(4)] r12 by simp
  from Cons.IH [OF i1 i2 i3 i4 i5 i6 lenPs i8 i9 i10 i11] obtain s' live' where
    e1: "createui_panels loc t s1 qs = Inr s'"
    and e2: "map_of (ui_ribbon s') name = Some live'"
    and e3: "map rp_Name live' = map rp_Name ?live1"
    and e4: "\<forall>i < length ?live1. i < Suc k \<or> Suc k + length qs \<le> i \<longrightarrow> live' ! i = ?live1 ! i"
    and e5: "\<forall>j < length qs. oki (Ps' ! j) (rp_items (live' ! (Suc k + j)))"
    and e6: "\<forall>n. n \<noteq> name \<longrightarrow> map_of (ui_ribbon s') n = map_of (ui_ribbon s1) n"
    and e7: "length (ui_tabs s') = length (ui_tabs s1)"
    and e8: "\<forall>t'. t' \<noteq> t \<longrightarrow> ui_tabs s' ! t' = ui_tabs s1 ! t'"
    and e9: "ui_new s' = ui_new s1 + sum_list (map dn Ps')"
    and e10: "ui_updated s' = ui_updated s1 + sum_list (map du Ps')"
    and e11: "Plog (ui_log s')"
    by blast
  have klt: "k < length live" using Cons.prems(9) by simp
  have c1: "createui_panels loc t s (q # qs) = Inr s'"
    using s1 e1 by simp
  have c3: "map rp_Name live' = map rp_Name live"
    using e3 by (simp add: names_update_items)
  have c4: "\<forall>i < length live. i < k \<or> k + length (q # qs) \<le> i \<longrightarrow> live' ! i = live ! i"
  proof (intro allI impI)
    fix i assume i: "i < length live" and o: "i < k \<or> k + length (q # qs) \<le> i"
    then have o1: "i < Suc k \<or> Suc k + length qs \<le> i" by auto
    have il: "i < length ?live1" using i by simp
    from e4 il o1 have "live' ! i = ?live1 ! i" by blast
    moreover have "i \<noteq> k" using o by auto
    ultimately show "live' ! i = live ! i" by simp
  qed
  have kl1: "k < length ?live1" using klt by simp
  have "k < Suc k \<or> Suc k + length qs \<le> k" by simp
  with e4 kl1 have "live' ! k = ?live1 ! k" by blast
  then have lk: "rp_items (live' ! k) = ps_items ps" using klt by simp
  have c5: "\<forall>j < length (q # qs). oki (Ps ! j) (rp_items (live' ! (k + j)))"
  proof (intro allI impI)
    fix j assume j: "j < length (q # qs)"
    show "oki (Ps ! j) (rp_items (live' ! (k + j)))"
    proof (cases j)
      case 0
      then show ?thesis using lk ps(5) Ps by simp
    next
      case (Suc i)
      then have "i < length qs" using j by simp
      then have "oki (Ps' ! i) (rp_items (live' ! (Suc k + i)))" using e5 by blast
      then show ?thesis using Suc Ps by simp
    qed
  qed
  have c6: "\<forall>n. n \<noteq> name \<longrightarrow> map_of (ui_ribbon s') n = map_of (ui_ribbon s) n"
  proof (intro allI impI)
    fix n assume n: "n \<noteq> name"
    have "map_of (ui_ribbon s') n = map_of (ui_ribbon s1) n" using e6 n by blast
    also have "\<dots> = map_of (ui_ribbon s) n" using r2 n Cons.prems(2) by simp
    finally show "map_of (ui_ribbon s') n = map_of (ui_ribbon s) n" .
  qed
  have c7: "length (ui_tabs s') = length (ui_tabs s)" using e7 r3 by simp
  have c8: "\<forall>t'. t' \<noteq> t \<longrightarrow> ui_tabs s' ! t' = ui_tabs s ! t'"
  proof (intro allI impI)
    fix t' assume t': "t' \<noteq> t"
    have "ui_tabs s' ! t' = ui_tabs s1 ! t'" using e8 t' by blast
    also have "\<dots> = ui_tabs s ! t'" using r4 t' by blast
    finally show "ui_tabs s' ! t' = ui_tabs s ! t'" .
  qed
  have c9: "ui_new s' = ui_new s + sum_list (map dn Ps)"
    using e9 r10 ps(2) Ps by simp
  have c10: "ui_updated s' = ui_updated s + sum_list (map du Ps)"
    using e10 r11 ps(3) Ps by simp
  from c1 e2 c3 c4 c5 c6 c7 c8 c9 c10 e11 show ?case
    by blast
qed

subsection \<open>the pass over a tab and over the tabs\<close>

lemma ribbon_rel_cong:
  "map_of R' (t_tabName T) = map_of R (t_tabName T) \<Longrightarrow> ribbon_rel Q R' T = ribbon_rel Q R T"
  by (simp add: ribbon_rel_def)

lemma ribbon_rel_holds:
  assumes "ribbon_rel (\<lambda>P items. items = I P) R T"
  shows "ribbon_holds I R T"
  unfolding ribbon_holds_def
proof
  assume ne: "t_scriptPanels T \<noteq> []"
  let ?sp = "get_sorted_scriptpanels T"
  from assms ne obtain live where
    live: "map_of R (t_tabName T) = Some live" "map rp_Name live = map p_panelName ?sp"
      "\<forall>j < length (t_scriptPanels T). rp_items (live ! j) = I (?sp ! j)"
    by (auto simp add: ribbon_rel_def)
  have len: "length live = length ?sp"
    using live(2) by (metis length_map)
  have "map rp_items live = map I ?sp"
  proof (rule nth_equalityI)
    show "length (map rp_items live) = length (map I ?sp)" using len by simp
  next
    fix j assume "j < length (map rp_items live)"
    then have j: "j < length live" by simp
    then have "rp_items (live ! j) = I (?sp ! j)" using live(3) len by simp
    then show "map rp_items live ! j = map I ?sp ! j" using j len by simp
  qed
  then show "\<exists>live. map_of R (t_tabName T) = Some live
           \<and> map rp_Name live = map p_panelName ?sp \<and> map rp_items live = map I ?sp"
    using live(1,2) by blast
qed

lemma sorted_refs_length [simp]: "length (sorted_refs key xs) = length xs"
  by (simp add: sorted_refs_def)

lemma sorted_refs_nth:
  assumes "j < length xs"
  shows "sorted_refs key xs ! j < length xs
      \<and> xs ! (sorted_refs key xs ! j) = sort_key key xs ! j"
proof -
  have "sorted_refs key xs ! j \<in> set (sorted_refs key xs)"
    using assms by simp
  then have a: "sorted_refs key xs ! j < length xs"
    by (simp add: sorted_refs_set)
  have "map (\<lambda>i. xs ! i) (sorted_refs key xs) = sort_key key xs"
    by (simp add: sorted_refs_def map_sort_key map_nth)
  then have "map (\<lambda>i. xs ! i) (sorted_refs key xs) ! j = sort_key key xs ! j"
    by simp
  then have "xs ! (sorted_refs key xs ! j) = sort_key key xs ! j"
    using assms by simp
  with a show ?thesis by simp
qed

lemma createui_tab_step:
  assumes pass: "\<And>P new upd. wf_panel P \<Longrightarrow>
      \<exists>ps. panel_pass loc (I P) [0..<length (I P)] new upd P = Inr ps
        \<and> newbuttoncount ps = new + dn P \<and> updatedbuttoncount ps = upd + du P
        \<and> okl (ps_log ps) \<and> oki P (ps_items ps)"
    and plog: "\<And>L l tn pn. Plog L \<Longrightarrow> okl l \<Longrightarrow> Plog (L @ map (PanelOp tn pn) l)"
    and "t < length (ui_tabs s)" and "holds_refs I T0 (ui_tabs s ! t)" and "wf_tab T0"
    and "ribbon_holds I (ui_ribbon s) T0" and "Plog (ui_log s)"
  shows "\<exists>s'. createui_tab loc s t = Inr s'
     \<and> ribbon_rel oki (ui_ribbon s') T0
     \<and> (\<forall>n. n \<noteq> t_tabName T0 \<longrightarrow> map_of (ui_ribbon s') n = map_of (ui_ribbon s) n)
     \<and> length (ui_tabs s') = length (ui_tabs s)
     \<and> (\<forall>t'. t' \<noteq> t \<longrightarrow> ui_tabs s' ! t' = ui_tabs s ! t')
     \<and> ui_new s' = ui_new s + sum_list (map dn (get_sorted_scriptpanels T0))
     \<and> ui_updated s' = ui_updated s + sum_list (map du (get_sorted_scriptpanels T0))
     \<and> Plog (ui_log s')"
proof (cases "t_scriptPanels T0 = []")
  case True
  have same: "t_scriptPanels (ui_tabs s ! t) = t_scriptPanels T0"
    using assms(4) by (simp add: holds_refs_def)
  have "createui_tab loc s t = Inr s"
    using True same by (simp add: createui_tab_def sorted_refs_def)
  moreover have "get_sorted_scriptpanels T0 = []"
    using True by (simp add: get_sorted_scriptpanels_def)
  moreover have "ribbon_rel oki (ui_ribbon s) T0"
    using True by (simp add: ribbon_rel_def)
  ultimately show ?thesis
    using assms(7) by simp
next
  case False
  let ?T = "ui_tabs s ! t"
  let ?sp = "get_sorted_scriptpanels T0"
  let ?qs = "sorted_refs p_panelOrder (t_scriptPanels T0)"
  have name: "t_tabName ?T = t_tabName T0" and same: "t_scriptPanels ?T = t_scriptPanels T0"
    and refs: "\<forall>j < length (t_scriptPanels T0).
        map_of (t_pyRevitUIPanels ?T) (p_panelName (?sp ! j)) = Some j
        \<and> map_of (t_pyRevitUIButtons ?T) (p_panelName (?sp ! j)) = Some [0..<length (I (?sp ! j))]"
    using assms(4) by (simp_all add: holds_refs_def)
  from assms(6) False obtain live where
    live: "map_of (ui_ribbon s) (t_tabName T0) = Some live"
      "map rp_Name live = map p_panelName ?sp" "map rp_items live = map I ?sp"
    by (auto simp add: ribbon_holds_def)
  have len: "length live = length (t_scriptPanels T0)"
    using live(2) by (metis length_map sorted_panels_length)
  have eq: "createui_tab loc s t = createui_panels loc t s ?qs"
    using same by (simp add: createui_tab_def)
  have d: "distinct ?qs" by (rule sorted_refs_distinct)
  have l: "length ?sp = length ?qs" by simp
  have pos: "\<forall>j < length ?qs. ?qs ! j < length (t_scriptPanels ?T)
           \<and> t_scriptPanels ?T ! (?qs ! j) = ?sp ! j"
  proof (intro allI impI)
    fix j assume "j < length ?qs"
    then have "j < length (t_scriptPanels T0)" by simp
    then show "?qs ! j < length (t_scriptPanels ?T) \<and> t_scriptPanels ?T ! (?qs ! j) = ?sp ! j"
      using sorted_refs_nth [of j "t_scriptPanels T0" p_panelOrder] same
      by (simp add: get_sorted_scriptpanels_def)
  qed
  have bound: "0 + length ?qs \<le> length live" using len by simp
  have wfp: "list_all wf_panel ?sp" using assms(5) by (simp add: wf_tab_def)
  have hyp: "\<forall>j < length ?qs. wf_panel (?sp ! j)
           \<and> map_of (t_pyRevitUIPanels ?T) (p_panelName (?sp ! j)) = Some (0 + j)
           \<and> map_of (t_pyRevitUIButtons ?T) (p_panelName (?sp ! j)) = Some [0..<length (I (?sp ! j))]
           \<and> rp_items (live ! (0 + j)) = I (?sp ! j)"
  proof (intro allI impI)
    fix j assume "j < length ?qs"
    then have j: "j < length (t_scriptPanels T0)" by simp
    have w: "wf_panel (?sp ! j)" using wfp j by (simp add: list_all_length)
    have "map rp_items live ! j = map I ?sp ! j" using live(3) by simp
    then have it: "rp_items (live ! j) = I (?sp ! j)" using j len by simp
    show "wf_panel (?sp ! j)
           \<and> map_of (t_pyRevitUIPanels ?T) (p_panelName (?sp ! j)) = Some (0 + j)
           \<and> map_of (t_pyRevitUIButtons ?T) (p_panelName (?sp ! j)) = Some [0..<length (I (?sp ! j))]
           \<and> rp_items (live ! (0 + j)) = I (?sp ! j)"
      using w it refs j by simp
  qed
  have live0: "map_of (ui_ribbon s) (t_tabName T0) = Some live" by (rule live(1))
  from createui_panels_loop [of loc I dn du okl oki Plog t s "t_tabName T0"
      "t_pyRevitUIPanels ?T" "t_pyRevitUIButtons ?T" live ?qs ?sp 0,
      OF pass plog assms(3) name refl refl live0 d l pos bound hyp assms(7)]
  obtain s' live' where
    e1: "createui_panels loc t s ?qs = Inr s'"
    and e2: "map_of (ui_ribbon s') (t_tabName T0) = Some live'"
    and e3: "map rp_Name live' = map rp_Name live"
    and e5: "\<forall>j < length ?qs. oki (?sp ! j) (rp_items (live' ! (0 + j)))"
    and e6: "\<forall>n. n \<noteq> t_tabName T0 \<longrightarrow> map_of (ui_ribbon s') n = map_of (ui_ribbon s) n"
    and e7: "length (ui_tabs s') = length (ui_tabs s)"
    and e8: "\<forall>t'. t' \<noteq> t \<longrightarrow> ui_tabs s' ! t' = ui_tabs s ! t'"
    and e9: "ui_new s' = ui_new s + sum_list (map dn ?sp)"
    and e10: "ui_updated s' = ui_updated s + sum_list (map du ?sp)"
    and e11: "Plog (ui_log s')"
    by blast
  have rel: "ribbon_rel oki (ui_ribbon s') T0"
    using e2 e3 e5 live(2) by (auto simp add: ribbon_rel_def)
  from eq e1 rel e6 e7 e8 e9 e10 e11 show ?thesis
    by simp
qed

lemma tab_names_differ:
  assumes "distinct (map t_tabName tabs)" and "t < length tabs" and "k < length tabs"
    and "t \<noteq> k"
  shows "t_tabName (tabs ! t) \<noteq> t_tabName (tabs ! k)"
proof -
  have lt: "t < length (map t_tabName tabs)" and lk: "k < length (map t_tabName tabs)"
    using assms(2,3) by simp_all
  have "(map t_tabName tabs ! t = map t_tabName tabs ! k) = (t = k)"
    using assms(1) lt lk by (rule nth_eq_iff_index_eq)
  then have "map t_tabName tabs ! t \<noteq> map t_tabName tabs ! k"
    using assms(4) by simp
  then show ?thesis using assms(2,3) by simp
qed

lemma createui_tabs_loop:
  assumes pass: "\<And>P new upd. wf_panel P \<Longrightarrow>
      \<exists>ps. panel_pass loc (I P) [0..<length (I P)] new upd P = Inr ps
        \<and> newbuttoncount ps = new + dn P \<and> updatedbuttoncount ps = upd + du P
        \<and> okl (ps_log ps) \<and> oki P (ps_items ps)"
    and plog: "\<And>L l tn pn. Plog L \<Longrightarrow> okl l \<Longrightarrow> Plog (L @ map (PanelOp tn pn) l)"
    and "length (ui_tabs s) = length tabs" and "list_all wf_tab tabs"
    and "distinct (map t_tabName tabs)" and "k \<le> length tabs"
    and "\<forall>t. k \<le> t \<and> t < length tabs \<longrightarrow>
           holds_refs I (tabs ! t) (ui_tabs s ! t) \<and> ribbon_holds I (ui_ribbon s) (tabs ! t)"
    and "\<forall>t < k. ribbon_rel oki (ui_ribbon s) (tabs ! t)"
    and "Plog (ui_log s)"
  shows "\<exists>s'. createui_tabs loc s [k..<length tabs] = Inr s'
     \<and> (\<forall>t < length tabs. ribbon_rel oki (ui_ribbon s') (tabs ! t))
     \<and> ui_new s' = ui_new s
          + sum_list (map (\<lambda>T. sum_list (map dn (get_sorted_scriptpanels T))) (drop k tabs))
     \<and> ui_updated s' = ui_updated s
          + sum_list (map (\<lambda>T. sum_list (map du (get_sorted_scriptpanels T))) (drop k tabs))
     \<and> Plog (ui_log s')"
  using assms(3-)
proof (induction "length tabs - k" arbitrary: k s)
  case 0
  then have "k = length tabs" by simp
  then show ?case using "0.prems"(6,7) by simp
next
  case (Suc m)
  then have klt: "k < length tabs" by simp
  let ?T0 = "tabs ! k"
  have upt: "[k..<length tabs] = k # [Suc k..<length tabs]"
    using klt by (rule upt_conv_Cons)
  have drp: "drop k tabs = ?T0 # drop (Suc k) tabs"
    using klt by (rule Cons_nth_drop_Suc [symmetric])
  have kk: "k \<le> k \<and> k < length tabs" using klt by simp
  with Suc.prems(5) have hr: "holds_refs I ?T0 (ui_tabs s ! k)"
    and rh: "ribbon_holds I (ui_ribbon s) ?T0"
    by blast+
  have wf: "wf_tab ?T0" using Suc.prems(2) klt by (simp add: list_all_length)
  have kl: "k < length (ui_tabs s)" using klt Suc.prems(1) by simp
  from createui_tab_step [of loc I dn du okl oki Plog k s ?T0,
      OF pass plog kl hr wf rh Suc.prems(7)] obtain s1 where
    a1: "createui_tab loc s k = Inr s1"
    and a2: "ribbon_rel oki (ui_ribbon s1) ?T0"
    and a3: "\<forall>n. n \<noteq> t_tabName ?T0 \<longrightarrow> map_of (ui_ribbon s1) n = map_of (ui_ribbon s) n"
    and a4: "length (ui_tabs s1) = length (ui_tabs s)"
    and a5: "\<forall>t'. t' \<noteq> k \<longrightarrow> ui_tabs s1 ! t' = ui_tabs s ! t'"
    and a6: "ui_new s1 = ui_new s + sum_list (map dn (get_sorted_scriptpanels ?T0))"
    and a7: "ui_updated s1 = ui_updated s + sum_list (map du (get_sorted_scriptpanels ?T0))"
    and a8: "Plog (ui_log s1)"
    by blast
  have same: "\<forall>t. t < length tabs \<and> t \<noteq> k \<longrightarrow>
      map_of (ui_ribbon s1) (t_tabName (tabs ! t)) = map_of (ui_ribbon s) (t_tabName (tabs ! t))"
  proof (intro allI impI)
    fix t assume t: "t < length tabs \<and> t \<noteq> k"
    then have "t_tabName (tabs ! t) \<noteq> t_tabName ?T0"
      using tab_names_differ [OF Suc.prems(3) _ klt] by blast
    then show "map_of (ui_ribbon s1) (t_tabName (tabs ! t))
        = map_of (ui_ribbon s) (t_tabName (tabs ! t))"
      using a3 by blast
  qed
  have i1: "length (ui_tabs s1) = length tabs" using a4 Suc.prems(1) by simp
  have i4: "Suc k \<le> length tabs" using klt by simp
  have i5: "\<forall>t. Suc k \<le> t \<and> t < length tabs \<longrightarrow>
           holds_refs I (tabs ! t) (ui_tabs s1 ! t) \<and> ribbon_holds I (ui_ribbon s1) (tabs ! t)"
  proof (intro allI impI)
    fix t assume t: "Suc k \<le> t \<and> t < length tabs"
    then have t1: "k \<le> t \<and> t < length tabs" and ne: "t \<noteq> k" by simp_all
    from Suc.prems(5) t1 have h: "holds_refs I (tabs ! t) (ui_tabs s ! t)"
      and r: "ribbon_holds I (ui_ribbon s) (tabs ! t)"
      by blast+
    have "ui_tabs s1 ! t = ui_tabs s ! t" using a5 ne by blast
    then have h1: "holds_refs I (tabs ! t) (ui_tabs s1 ! t)" using h by simp
    have "map_of (ui_ribbon s1) (t_tabName (tabs ! t)) = map_of (ui_ribbon s) (t_tabName (tabs ! t))"
      using same t ne by blast
    then have "ribbon_holds I (ui_ribbon s1) (tabs ! t) = ribbon_holds I (ui_ribbon s) (tabs ! t)"
      by (rule ribbon_holds_cong)
    then show "holds_refs I (tabs ! t) (ui_tabs s1 ! t) \<and> ribbon_holds I (ui_ribbon s1) (tabs ! t)"
      using h1 r by simp
  qed
  have i6: "\<forall>t < Suc k. ribbon_rel oki (ui_ribbon s1) (tabs ! t)"
  proof (intro allI impI)
    fix t assume t: "t < Suc k"
    show "ribbon_rel oki (ui_ribbon s1) (tabs ! t)"
    proof (cases "t = k")
      case True
      then show ?thesis using a2 by simp
    next
      case False
      then have tk: "t < k" using t by simp
      then have tl: "t < length tabs \<and> t \<noteq> k" using klt by simp
      have "map_of (ui_ribbon s1) (t_tabName (tabs ! t)) = map_of (ui_ribbon s) (t_tabName (tabs ! t))"
        using same tl by blast
      then have "ribbon_rel oki (ui_ribbon s1) (tabs ! t) = ribbon_rel oki (ui_ribbon s) (tabs ! t)"
        by (rule ribbon_rel_cong)
      then show ?thesis using Suc.prems(6) tk by simp
    qed
  qed
  have m: "m = length tabs - Suc k" using Suc.hyps(2) by simp
  from Suc.hyps(1) [OF m i1 Suc.prems(2,3) i4 i5 i6 a8] obtain s' where
    b1: "createui_tabs loc s1 [Suc k..<length tabs] = Inr s'"
    and b2: "\<forall>t < length tabs. ribbon_rel oki (ui_ribbon s') (tabs ! t)"
    and b3: "ui_new s' = ui_new s1
          + sum_list (map (\<lambda>T. sum_list (map dn (get_sorted_scriptpanels T))) (drop (Suc k) tabs))"
    and b4: "ui_updated s' = ui_updated s1
          + sum_list (map (\<lambda>T. sum_list (map du (get_sorted_scriptpanels T))) (drop (Suc k) tabs))"
    and b5: "Plog (ui_log s')"
    by blast
  have c1: "createui_tabs loc s [k..<length tabs] = Inr s'"
    using a1 b1 upt by simp
  have c3: "ui_new s' = ui_new s
          + sum_list (map (\<lambda>T. sum_list (map dn (get_sorted_scriptpanels T))) (drop k tabs))"
    using b3 a6 drp by simp
  have c4: "ui_updated s' = ui_updated s
          + sum_list (map (\<lambda>T. sum_list (map du (get_sorted_scriptpanels T))) (drop k tabs))"
    using b4 a7 drp by simp
  from c1 b2 c3 c4 b5 show ?case
    by blast
qed

lemma clean_log_append:
  assumes "filter creates L = [] \<and> filter disables L = []"
    and "filter is_create l = [] \<and> filter is_disable l = []"
  shows "filter creates (L @ map (PanelOp tn pn) l) = []
      \<and> filter disables (L @ map (PanelOp tn pn) l) = []"
proof -
  have "filter creates (map (PanelOp tn pn) l) = map (PanelOp tn pn) (filter is_create l)"
    by (induction l) simp_all
  moreover have "filter disables (map (PanelOp tn pn) l) = map (PanelOp tn pn) (filter is_disable l)"
    by (induction l) simp_all
  ultimately show ?thesis using assms by simp
qed

lemma buttons_in_tree_sum:
  "buttons_in_tree tabs =
     sum_list (map (\<lambda>T. sum_list (map buttons_in_panel (get_sorted_scriptpanels T))) tabs)"
  by (induction tabs) (simp_all add: buttons_in_tree_def buttons_in_tab_def)

lemma first_pass:
  assumes "wf_tree tabs"
  shows "\<exists>s1. createpyrevitui loc tabs [] = Inr s1
      \<and> (\<forall>T \<in> set tabs. ribbon_holds (built_panel_items loc) (ui_ribbon s1) T)
      \<and> ui_new s1 = buttons_in_tree tabs \<and> ui_updated s1 = 0"
proof -
  let ?s0 = "\<lparr>ui_tabs = [], ui_ribbon = [], ui_new = 0, ui_updated = 0, ui_log = []\<rparr>"
  have wfs: "list_all wf_tab tabs" and d: "distinct (map t_tabName tabs)"
    using assms by (simp_all add: wf_tree_def)
  have none: "\<forall>T \<in> set tabs. map_of (ui_ribbon ?s0) (t_tabName T) = None"
    by simp
  from cofpp_new [OF wfs d none] obtain sA Ts where
    a1: "create_or_find_pyrevit_panels ?s0 tabs = Inr sA"
    and a2: "ui_tabs sA = ui_tabs ?s0 @ Ts"
    and a3: "list_all2 (holds_refs (\<lambda>P. [])) tabs Ts"
    and a4: "\<forall>T \<in> set tabs. ribbon_holds (\<lambda>P. []) (ui_ribbon sA) T"
    by blast
  define sA' where "sA' = sA\<lparr>ui_new := 0, ui_updated := 0\<rparr>"
  have f: "ui_tabs sA' = Ts" "ui_ribbon sA' = ui_ribbon sA" "ui_new sA' = 0" "ui_updated sA' = 0"
    using a2 by (simp_all add: sA'_def)
  have len: "length (ui_tabs sA') = length tabs"
    using a3 f(1) by (simp add: list_all2_lengthD)
  have eq: "createpyrevitui loc tabs [] = createui_tabs loc sA' [0..<length tabs]"
    using a1 len f(1) by (simp add: createpyrevitui_def createui_def sA'_def)
  have pass: "\<And>P new upd. wf_panel P \<Longrightarrow>
      \<exists>ps. panel_pass loc ((\<lambda>P. []) P) [0..<length ((\<lambda>P. []::RibbonItem list) P)] new upd P = Inr ps
        \<and> newbuttoncount ps = new + buttons_in_panel P
        \<and> updatedbuttoncount ps = upd + (\<lambda>P. 0) P
        \<and> (\<lambda>l. True) (ps_log ps) \<and> (\<lambda>P items. items = built_panel_items loc P) P (ps_items ps)"
  proof -
    fix P new upd assume "wf_panel P"
    from panel_pass_create [OF this, of loc new upd] obtain ps where
      "panel_pass loc [] [] new upd P = Inr ps" "ps_items ps = built_panel_items loc P"
      "newbuttoncount ps = new + buttons_in_panel P" "updatedbuttoncount ps = upd"
      by blast
    then show "\<exists>ps. panel_pass loc ((\<lambda>P. []) P) [0..<length ((\<lambda>P. []::RibbonItem list) P)] new upd P = Inr ps
        \<and> newbuttoncount ps = new + buttons_in_panel P
        \<and> updatedbuttoncount ps = upd + (\<lambda>P. 0) P
        \<and> (\<lambda>l. True) (ps_log ps) \<and> (\<lambda>P items. items = built_panel_items loc P) P (ps_items ps)"
      by simp
  qed
  have plog: "\<And>L l tn pn. (\<lambda>L. True) L \<Longrightarrow> (\<lambda>l. True) l \<Longrightarrow>
      (\<lambda>L. True) (L @ map (PanelOp tn pn) l)"
    by simp
  have k0: "(0::nat) \<le> length tabs" by simp
  have refs: "\<forall>t. 0 \<le> t \<and> t < length tabs \<longrightarrow>
      holds_refs (\<lambda>P. []) (tabs ! t) (ui_tabs sA' ! t)
      \<and> ribbon_holds (\<lambda>P. []) (ui_ribbon sA') (tabs ! t)"
  proof (intro allI impI)
    fix t assume "0 \<le> t \<and> t < length tabs"
    then have t: "t < length tabs" by simp
    have h: "holds_refs (\<lambda>P. []) (tabs ! t) (Ts ! t)"
      using a3 t by (rule list_all2_nthD)
    have "tabs ! t \<in> set tabs" using t by simp
    then have "ribbon_holds (\<lambda>P. []) (ui_ribbon sA) (tabs ! t)" using a4 by blast
    then show "holds_refs (\<lambda>P. []) (tabs ! t) (ui_tabs sA' ! t)
      \<and> ribbon_holds (\<lambda>P. []) (ui_ribbon sA') (tabs ! t)"
      using h f by simp
  qed
  have before: "\<forall>t < (0::nat). ribbon_rel (\<lambda>P items. items = built_panel_items loc P)
      (ui_ribbon sA') (tabs ! t)"
    by simp
  from createui_tabs_loop [where loc = loc and I = "\<lambda>P. []" and dn = buttons_in_panel
      and du = "\<lambda>P. 0" and okl = "\<lambda>l. True"
      and oki = "\<lambda>P items. items = built_panel_items loc P" and Plog = "\<lambda>L. True"
      and s = sA' and tabs = tabs and k = 0, OF pass plog len wfs d k0 refs before]
  obtain s1 where
    b1: "createui_tabs loc sA' [0..<length tabs] = Inr s1"
    and b2: "\<forall>t < length tabs. ribbon_rel (\<lambda>P items. items = built_panel_items loc P)
        (ui_ribbon s1) (tabs ! t)"
    and b3: "ui_new s1 = ui_new sA'
        + sum_list (map (\<lambda>T. sum_list (map buttons_in_panel (get_sorted_scriptpanels T))) (drop 0 tabs))"
    and b4: "ui_updated s1 = ui_updated sA'
        + sum_list (map (\<lambda>T. sum_list (map (\<lambda>P. 0) (get_sorted_scriptpanels T))) (drop 0 tabs))"
    by blast
  have c1: "createpyrevitui loc tabs [] = Inr s1" using eq b1 by simp
  have c2: "\<forall>T \<in> set tabs. ribbon_holds (built_panel_items loc) (ui_ribbon s1) T"
  proof
    fix T assume "T \<in> set tabs"
    then obtain t where t: "t < length tabs" "tabs ! t = T"
      by (auto simp add: in_set_conv_nth)
    then have "ribbon_rel (\<lambda>P items. items = built_panel_items loc P) (ui_ribbon s1) T"
      using b2 by blast
    then show "ribbon_holds (built_panel_items loc) (ui_ribbon s1) T"
      by (rule ribbon_rel_holds)
  qed
  have c3: "ui_new s1 = buttons_in_tree tabs"
    using b3 f(3) by (simp add: buttons_in_tree_sum)
  have c4: "ui_updated s1 = 0"
    using b4 f(4) by simp
  from c1 c2 c3 c4 show ?thesis by blast
qed

lemma second_pass:
  assumes "wf_tree tabs"
    and "\<forall>T \<in> set tabs. ribbon_holds (built_panel_items loc1) R T"
  shows "\<exists>s2. createpyrevitui loc2 tabs R = Inr s2
      \<and> creations s2 = [] \<and> disablings s2 = []
      \<and> ui_new s2 = 0 \<and> ui_updated s2 = buttons_in_tree tabs"
proof -
  let ?s0 = "\<lparr>ui_tabs = [], ui_ribbon = R, ui_new = 0, ui_updated = 0, ui_log = []\<rparr>"
  let ?I = "built_panel_items loc1"
  let ?okl = "\<lambda>l. filter is_create l = [] \<and> filter is_disable l = []"
  let ?Plog = "\<lambda>L. filter creates L = [] \<and> filter disables L = []"
  have wfs: "list_all wf_tab tabs" and d: "distinct (map t_tabName tabs)"
    using assms(1) by (simp_all add: wf_tree_def)
  have rh: "\<forall>T \<in> set tabs. ribbon_holds ?I (ui_ribbon ?s0) T"
    using assms(2) by simp
  from cofpp_found [OF wfs rh] obtain sB Ts where
    a1: "create_or_find_pyrevit_panels ?s0 tabs = Inr sB"
    and a2: "ui_tabs sB = ui_tabs ?s0 @ Ts"
    and a3: "list_all2 (holds_refs ?I) tabs Ts"
    and a4: "ui_ribbon sB = ui_ribbon ?s0" and a5: "ui_log sB = ui_log ?s0"
    by blast
  define sB' where "sB' = sB\<lparr>ui_new := 0, ui_updated := 0\<rparr>"
  have f: "ui_tabs sB' = Ts" "ui_ribbon sB' = R" "ui_new sB' = 0" "ui_updated sB' = 0"
      "ui_log sB' = []"
    using a2 a4 a5 by (simp_all add: sB'_def)
  have len: "length (ui_tabs sB') = length tabs"
    using a3 f(1) by (simp add: list_all2_lengthD)
  have eq: "createpyrevitui loc2 tabs R = createui_tabs loc2 sB' [0..<length tabs]"
    using a1 len f(1) by (simp add: createpyrevitui_def createui_def sB'_def)
  have pass: "\<And>P new upd. wf_panel P \<Longrightarrow>
      \<exists>ps. panel_pass loc2 (?I P) [0..<length (?I P)] new upd P = Inr ps
        \<and> newbuttoncount ps = new + (\<lambda>P. 0) P
        \<and> updatedbuttoncount ps = upd + buttons_in_panel P
        \<and> ?okl (ps_log ps) \<and> (\<lambda>P items. True) P (ps_items ps)"
  proof -
    fix P new upd assume "wf_panel P"
    from panel_pass_update [OF this, of loc2 loc1 new upd] obtain ps where
      "panel_pass loc2 (?I P) [0..<length (?I P)] new upd P = Inr ps"
      "newbuttoncount ps = new" "updatedbuttoncount ps = upd + buttons_in_panel P"
      "filter is_create (ps_log ps) = []" "filter is_disable (ps_log ps) = []"
      by blast
    then show "\<exists>ps. panel_pass loc2 (?I P) [0..<length (?I P)] new upd P = Inr ps
        \<and> newbuttoncount ps = new + (\<lambda>P. 0) P
        \<and> updatedbuttoncount ps = upd + buttons_in_panel P
        \<and> ?okl (ps_log ps) \<and> (\<lambda>P items. True) P (ps_items ps)"
      by simp
  qed
  have plog: "\<And>L l tn pn. ?Plog L \<Longrightarrow> ?okl l \<Longrightarrow> ?Plog (L @ map (PanelOp tn pn) l)"
    by (rule clean_log_append)
  have k0: "(0::nat) \<le> length tabs" by simp
  have refs: "\<forall>t. 0 \<le> t \<and> t < length tabs \<longrightarrow>
      holds_refs ?I (tabs ! t) (ui_tabs sB' ! t) \<and> ribbon_holds ?I (ui_ribbon sB') (tabs ! t)"
  proof (intro allI impI)
    fix t assume "0 \<le> t \<and> t < length tabs"
    then have t: "t < length tabs" by simp
    have h: "holds_refs ?I (tabs ! t) (Ts ! t)"
      using a3 t by (rule list_all2_nthD)
    have "tabs ! t \<in> set tabs" using t by simp
    then have "ribbon_holds ?I R (tabs ! t)" using assms(2) by blast
    then show "holds_refs ?I (tabs ! t) (ui_tabs sB' ! t)
        \<and> ribbon_holds ?I (ui_ribbon sB') (tabs ! t)"
      using h f by simp
  qed
  have before: "\<forall>t < (0::nat). ribbon_rel (\<lambda>P items. True) (ui_ribbon sB') (tabs ! t)"
    by simp
  have log0: "?Plog (ui_log sB')" using f(5) by simp
  from createui_tabs_loop [where loc = loc2 and I = ?I and dn = "\<lambda>P. 0"
      and du = buttons_in_panel and okl = ?okl and oki = "\<lambda>P items. True" and Plog = ?Plog
      and s = sB' and tabs = tabs and k = 0, OF pass plog len wfs d k0 refs before log0]
  obtain s2 where
    b1: "createui_tabs loc2 sB' [0..<length tabs] = Inr s2"
    and b3: "ui_new s2 = ui_new sB'
        + sum_list (map (\<lambda>T. sum_list (map (\<lambda>P. 0) (get_sorted_scriptpanels T))) (drop 0 tabs))"
    and b4: "ui_updated s2 = ui_updated sB'
        + sum_list (map (\<lambda>T. sum_list (map buttons_in_panel (get_sorted_scriptpanels T))) (drop 0 tabs))"
    and b5: "?Plog (ui_log s2)"
    by blast
  have c1: "createpyrevitui loc2 tabs R = Inr s2" using eq b1 by simp
  have c2: "creations s2 = []" "disablings s2 = []"
    using b5 by (simp_all add: creations_def disablings_def)
  have c3: "ui_new s2 = 0" using b3 f(3) by simp
  have c4: "ui_updated s2 = buttons_in_tree tabs"
    using b4 f(4) by (simp add: buttons_in_tree_sum)
  from c1 c2 c3 c4 show ?thesis by blast
qed

text \<open>
  C1, as the claim states it, fails: an item of the live panel that no group of the
  tree asks for is an orphan at every pass. With the tree of the one push button and a
  live panel that holds such an item, the first pass creates the button and disables
  the orphan, and the second pass, made with the same tree on the ribbon the first
  left, updates the button and disables the orphan once more.
\<close>

theorem orphan_disabled_on_second_pass:
  "pass_outcome (twice ''dll1'' ''dll2'' small_tree ribbon_with_orphan) =
     (None,
      [(''X'', [\<lparr>rp_Name = ''P'',
                 rp_items = [\<lparr>i_Name = ''Old'', i_kind = PushButtonItem, i_ClassName = ''Old'',
                               i_AssemblyName = ''dll0'', i_Enabled = False,
                               i_IsSynchronizedWithCurrentItem = True, i_items = []\<rparr>,
                             \<lparr>i_Name = ''XBa'', i_kind = PushButtonItem, i_ClassName = ''XBa'',
                               i_AssemblyName = ''dll2'', i_Enabled = True,
                               i_IsSynchronizedWithCurrentItem = True, i_items = []\<rparr>]\<rparr>])],
      0, 1,
      [PanelOp ''X'' ''P'' (UpdateItem ''XBa''), PanelOp ''X'' ''P'' (DisableItem ''Old'')])"
  by code_simp

text \<open>
  C1, amended: on an empty ribbon and for a well-formed tree, the pass returns, having
  counted as new the buttons of the tree and none as updated; and the pass made again
  with the same tree, on the ribbon the first pass left, returns without a creation
  and without a disabling, having counted no button as new and as updated the buttons
  the first pass counted as new. A tree is well formed when no two tabs have a name in
  common and each tab has a command or no panel; no two panels of a tab have a name in
  common; in a panel no item name is asked for twice; a pulldown or split group has
  icons and no two commands of one class; a group of three stacked buttons has three
  commands and icons of its own or on each command; a link group names its class and
  location and has icons.
\<close>

theorem reconcile_twice:
  assumes "wf_tree tabs"
  shows "\<exists>s1 s2. createpyrevitui loc1 tabs [] = Inr s1
      \<and> ui_new s1 = buttons_in_tree tabs \<and> ui_updated s1 = 0
      \<and> createpyrevitui loc2 tabs (ui_ribbon s1) = Inr s2
      \<and> creations s2 = [] \<and> disablings s2 = []
      \<and> ui_new s2 = 0 \<and> ui_updated s2 = buttons_in_tree tabs"
proof -
  from first_pass [OF assms, of loc1] obtain s1 where
    a: "createpyrevitui loc1 tabs [] = Inr s1"
      "\<forall>T \<in> set tabs. ribbon_holds (built_panel_items loc1) (ui_ribbon s1) T"
      "ui_new s1 = buttons_in_tree tabs" "ui_updated s1 = 0"
    by blast
  from second_pass [OF assms a(2), of loc2] obtain s2 where
    b: "createpyrevitui loc2 tabs (ui_ribbon s1) = Inr s2" "creations s2 = []"
      "disablings s2 = []" "ui_new s2 = 0" "ui_updated s2 = buttons_in_tree tabs"
    by blast
  from a b show ?thesis by blast
qed

theorem reconcile_twice_witness:
  "wf_tree example_tree
   \<and> (\<exists>s1 s2. createpyrevitui ''dll1'' example_tree [] = Inr s1
         \<and> ui_new s1 = 6 \<and> ui_updated s1 = 0
         \<and> createpyrevitui ''dll2'' example_tree (ui_ribbon s1) = Inr s2
         \<and> creations s2 = [] \<and> disablings s2 = []
         \<and> ui_new s2 = 0 \<and> ui_updated s2 = 6)"
proof -
  have wf: "wf_tree example_tree"
    by code_simp
  have n: "buttons_in_tree example_tree = 6"
    by code_simp
  from reconcile_twice [OF wf, of "''dll1''" "''dll2''"] n wf show ?thesis
    by simp
qed

end
